(* ===== verification/Prelude.thy ===== *)
theory Prelude
  imports
    Main
    "HOL-Library.Word"
    "HOL-Library.While_Combinator"
    "HOL-Library.Char_ord"
    "HOL-Library.List_Lexorder"
begin

text \<open>
  The prelude of the development: the machine types of the server, the ways in which a run of
  the program can go wrong, the state-and-fault programs in which every effectful operation is
  written, a small program logic for them, and the lemmas on lists and memory blocks that the
  components share.
\<close>

unbundle bit_operations_syntax

section \<open>Machine types\<close>

type_synonym byte = "8 word"
type_synonym u16 = "16 word"
type_synonym u32 = "32 word"
type_synonym u64 = "64 word"

lemma unat_less: "unat (w :: 'a::len word) < 2 ^ LENGTH('a)"
  by (rule unsigned_less)

section \<open>Faults\<close>

text \<open>
  The server is C++, so an operation can leave the defined behaviour of the language. Each way
  this happens in the modelled code is a constructor.
  \<^item> \<open>OutOfBounds\<close>: a read or write outside the array, vector or string it names;
  \<^item> \<open>Uncaught\<close>: a C++ exception with no handler on the stack (the process terminates);
  \<^item> \<open>WildCall\<close>: a call through a function pointer that is not an entry of its table;
  \<^item> \<open>Diverges\<close>: a loop that never leaves.
\<close>

datatype fault = OutOfBounds | Uncaught | WildCall | Diverges

section \<open>Programs over a state\<close>

text \<open>
  A program maps the state it starts in to a fault or to its result and the state it ends in.
\<close>

type_synonym ('s, 'a) prog = "'s \<Rightarrow> fault + ('a \<times> 's)"

definition ret :: "'a \<Rightarrow> ('s, 'a) prog" where
  "ret x = (\<lambda>s. Inr (x, s))"

definition raise :: "fault \<Rightarrow> ('s, 'a) prog" where
  "raise f = (\<lambda>s. Inl f)"

definition bnd :: "('s, 'a) prog \<Rightarrow> ('a \<Rightarrow> ('s, 'b) prog) \<Rightarrow> ('s, 'b) prog" where
  "bnd m f = (\<lambda>s. case m s of Inl e \<Rightarrow> Inl e | Inr (x, t) \<Rightarrow> f x t)"

text \<open>\<open>m\<close> followed by \<open>n\<close>, where the result of \<open>m\<close> is not used (a statement).\<close>

definition stm :: "('s, 'a) prog \<Rightarrow> ('s, 'b) prog \<Rightarrow> ('s, 'b) prog" where
  "stm m n = bnd m (\<lambda>_. n)"

definition modify :: "('s \<Rightarrow> 's) \<Rightarrow> ('s, unit) prog" where
  "modify f = (\<lambda>s. Inr ((), f s))"

definition gets :: "('s \<Rightarrow> 'a) \<Rightarrow> ('s, 'a) prog" where
  "gets f = (\<lambda>s. Inr (f s, s))"

definition whenP :: "bool \<Rightarrow> ('s, unit) prog \<Rightarrow> ('s, unit) prog" where
  "whenP b m = (if b then m else ret ())"

text \<open>A value that may be a fault already, as a program.\<close>

definition lift :: "fault + 'a \<Rightarrow> ('s, 'a) prog" where
  "lift r = (\<lambda>s. case r of Inl e \<Rightarrow> Inl e | Inr x \<Rightarrow> Inr (x, s))"

text \<open>Counted loops: a body per element, and a body per element whose results are collected.\<close>

fun for_each :: "'b list \<Rightarrow> ('b \<Rightarrow> ('s, unit) prog) \<Rightarrow> ('s, unit) prog" where
  "for_each [] body = ret ()"
| "for_each (x # xs) body = stm (body x) (for_each xs body)"

fun collect :: "'b list \<Rightarrow> ('b \<Rightarrow> ('s, 'c) prog) \<Rightarrow> ('s, 'c list) prog" where
  "collect [] body = ret []"
| "collect (x # xs) body = bnd (body x) (\<lambda>y. bnd (collect xs body) (\<lambda>ys. ret (y # ys)))"

text \<open>
  Programs that may give up and say so: \<open>both m n\<close> runs \<open>n\<close> if \<open>m\<close> did not give up, \<open>all_of\<close> runs a
  body per element until one gives up.
\<close>

definition both :: "('s, bool) prog \<Rightarrow> ('s, bool) prog \<Rightarrow> ('s, bool) prog" where
  "both m n = bnd m (\<lambda>good. if good then n else ret False)"

fun all_of :: "'b list \<Rightarrow> ('b \<Rightarrow> ('s, bool) prog) \<Rightarrow> ('s, bool) prog" where
  "all_of [] body = ret True"
| "all_of (x # xs) body = both (body x) (all_of xs body)"

text \<open>Statements one after the other.\<close>

fun steps :: "('s, unit) prog list \<Rightarrow> ('s, unit) prog" where
  "steps [] = ret ()"
| "steps (m # ms) = stm m (steps ms)"

named_theorems prog_simps \<open>how each program former acts on a state\<close>

lemma ret_run [prog_simps]: "ret x s = Inr (x, s)"
  by (simp add: ret_def)

lemma raise_run [prog_simps]: "raise f s = Inl f"
  by (simp add: raise_def)

lemma modify_run [prog_simps]: "modify f s = Inr ((), f s)"
  by (simp add: modify_def)

lemma gets_run [prog_simps]: "gets f s = Inr (f s, s)"
  by (simp add: gets_def)

lemma bnd_run [prog_simps]:
  "bnd m f s = (case m s of Inl e \<Rightarrow> Inl e | Inr (x, t) \<Rightarrow> f x t)"
  by (simp add: bnd_def)

lemma stm_run [prog_simps]:
  "stm m n s = (case m s of Inl e \<Rightarrow> Inl e | Inr (x, t) \<Rightarrow> n t)"
  by (simp add: stm_def bnd_def)

lemma whenP_run [prog_simps]: "whenP b m s = (if b then m s else Inr ((), s))"
  by (simp add: whenP_def ret_def)

lemma lift_run [prog_simps]: "lift (Inr x) s = Inr (x, s)" "lift (Inl e) s = Inl e"
  by (simp_all add: lift_def)

lemma bnd_assoc: "bnd (bnd m f) g = bnd m (\<lambda>x. bnd (f x) g)"
  by (auto simp: bnd_def fun_eq_iff split: sum.splits)

lemma bnd_ret [simp]: "bnd m ret = m" "bnd (ret x) f = f x"
  by (auto simp: bnd_def ret_def fun_eq_iff split: sum.splits)

lemma for_each_append: "for_each (xs @ ys) body = stm (for_each xs body) (for_each ys body)"
  by (induction xs) (simp_all add: stm_def bnd_assoc)

section \<open>A program logic\<close>

text \<open>
  \<open>triple P m Q\<close> is partial: from a state of \<open>P\<close>, if \<open>m\<close> ends without a fault, its result and
  end state satisfy \<open>Q\<close>. \<open>safely P m Q\<close> adds that there is no fault. \<open>keeps P m\<close> says that
  \<open>P\<close> is an invariant of \<open>m\<close>.
\<close>

definition triple :: "('s \<Rightarrow> bool) \<Rightarrow> ('s, 'a) prog \<Rightarrow> ('a \<Rightarrow> 's \<Rightarrow> bool) \<Rightarrow> bool" where
  "triple P m Q \<longleftrightarrow> (\<forall>s. P s \<longrightarrow> (case m s of Inl e \<Rightarrow> True | Inr (x, t) \<Rightarrow> Q x t))"

definition safely :: "('s \<Rightarrow> bool) \<Rightarrow> ('s, 'a) prog \<Rightarrow> ('a \<Rightarrow> 's \<Rightarrow> bool) \<Rightarrow> bool" where
  "safely P m Q \<longleftrightarrow> (\<forall>s. P s \<longrightarrow> (case m s of Inl e \<Rightarrow> False | Inr (x, t) \<Rightarrow> Q x t))"

definition keeps :: "('s \<Rightarrow> bool) \<Rightarrow> ('s, 'a) prog \<Rightarrow> bool" where
  "keeps P m \<longleftrightarrow> triple P m (\<lambda>_. P)"

named_theorems keeps_rules \<open>invariance rules, one per program former and primitive\<close>

lemma tripleD: "triple P m Q \<Longrightarrow> P s \<Longrightarrow> m s = Inr (x, t) \<Longrightarrow> Q x t"
  by (force simp: triple_def)

lemma safelyD: "safely P m Q \<Longrightarrow> P s \<Longrightarrow> \<exists>x t. m s = Inr (x, t) \<and> Q x t"
  by (cases "m s") (auto simp: safely_def dest!: spec [of _ s])

lemma keepsD: "keeps P m \<Longrightarrow> P s \<Longrightarrow> m s = Inr (x, t) \<Longrightarrow> P t"
  unfolding keeps_def by (rule tripleD)

lemma keepsI: "(\<And>s x t. P s \<Longrightarrow> m s = Inr (x, t) \<Longrightarrow> P t) \<Longrightarrow> keeps P m"
  by (auto simp: keeps_def triple_def split: sum.splits prod.splits)

lemma safelyI: "(\<And>s. P s \<Longrightarrow> \<exists>x t. m s = Inr (x, t) \<and> Q x t) \<Longrightarrow> safely P m Q"
  by (fastforce simp: safely_def split: sum.splits prod.splits)

lemma keeps_ret [keeps_rules]: "keeps P (ret x)"
  by (simp add: keeps_def triple_def ret_def)

lemma keeps_raise [keeps_rules]: "keeps P (raise f)"
  by (simp add: keeps_def triple_def raise_def)

lemma keeps_gets [keeps_rules]: "keeps P (gets f)"
  by (simp add: keeps_def triple_def gets_def)

lemma keeps_lift [keeps_rules]: "keeps P (lift r)"
  by (simp add: keeps_def triple_def lift_def split: sum.splits)

lemma keeps_bnd [keeps_rules]: "keeps P m \<Longrightarrow> (\<And>x. keeps P (f x)) \<Longrightarrow> keeps P (bnd m f)"
  by (rule keepsI) (auto simp: bnd_def split: sum.splits dest: keepsD)

lemma keeps_stm [keeps_rules]: "keeps P m \<Longrightarrow> keeps P n \<Longrightarrow> keeps P (stm m n)"
  by (simp add: stm_def keeps_bnd)

lemma keeps_whenP [keeps_rules]: "keeps P m \<Longrightarrow> keeps P (whenP b m)"
  by (simp add: whenP_def keeps_ret)

lemma keeps_if [keeps_rules]: "keeps P m \<Longrightarrow> keeps P n \<Longrightarrow> keeps P (if b then m else n)"
  by simp

lemma keeps_Let [keeps_rules]: "(\<And>x. keeps P (f x)) \<Longrightarrow> keeps P (let x = v in f x)"
  by simp

lemma keeps_steps [keeps_rules]:
  "keeps P (steps [])" "keeps P m \<Longrightarrow> keeps P (steps ms) \<Longrightarrow> keeps P (steps (m # ms))"
  by (simp_all add: keeps_ret keeps_stm)

lemma keeps_case_option [keeps_rules]:
  "keeps P n \<Longrightarrow> (\<And>x. keeps P (m x)) \<Longrightarrow> keeps P (case v of None \<Rightarrow> n | Some x \<Rightarrow> m x)"
  by (cases v) simp_all

lemma keeps_both [keeps_rules]: "keeps P m \<Longrightarrow> keeps P n \<Longrightarrow> keeps P (both m n)"
  by (simp add: both_def keeps_bnd keeps_ret)

lemma keeps_all_of [keeps_rules]: "(\<And>x. keeps P (body x)) \<Longrightarrow> keeps P (all_of xs body)"
  by (induction xs) (simp_all add: keeps_ret keeps_both)

lemma keeps_case_prod [keeps_rules]:
  "(\<And>a b. keeps P (f a b)) \<Longrightarrow> keeps P (case x of (a, b) \<Rightarrow> f a b)"
  by (cases x) simp

lemma keeps_modify: "(\<And>s. P s \<Longrightarrow> P (f s)) \<Longrightarrow> keeps P (modify f)"
  by (simp add: keeps_def triple_def modify_def)

lemma keeps_for_each [keeps_rules]:
  "(\<And>x. keeps P (body x)) \<Longrightarrow> keeps P (for_each xs body)"
  by (induction xs) (simp_all add: keeps_ret keeps_stm)

lemma keeps_collect [keeps_rules]:
  "(\<And>x. keeps P (body x)) \<Longrightarrow> keeps P (collect xs body)"
  by (induction xs) (simp_all add: keeps_ret keeps_bnd)

lemma safely_bnd:
  "safely P m Q \<Longrightarrow> (\<And>x. safely (Q x) (f x) R) \<Longrightarrow> safely P (bnd m f) R"
  by (rule safelyI) (fastforce simp: bnd_def dest: safelyD)

lemma safely_ret: "(\<And>s. P s \<Longrightarrow> Q x s) \<Longrightarrow> safely P (ret x) Q"
  by (simp add: safely_def ret_def)

text \<open>\<open>sound P m\<close>: from a state of \<open>P\<close> there is no fault, and the end state is one of \<open>P\<close>.\<close>

definition sound :: "('s \<Rightarrow> bool) \<Rightarrow> ('s, 'a) prog \<Rightarrow> bool" where
  "sound P m \<longleftrightarrow> safely P m (\<lambda>_. P)"

named_theorems sound_rules \<open>fault freedom, one rule per program former and primitive\<close>

lemma soundI: "(\<And>s. P s \<Longrightarrow> \<exists>x t. m s = Inr (x, t) \<and> P t) \<Longrightarrow> sound P m"
  unfolding sound_def by (rule safelyI)

lemma soundD: "sound P m \<Longrightarrow> P s \<Longrightarrow> \<exists>x t. m s = Inr (x, t) \<and> P t"
  unfolding sound_def by (rule safelyD)

lemma sound_ret [sound_rules]: "sound P (ret x)"
  by (simp add: sound_def safely_ret)

lemma sound_gets [sound_rules]: "sound P (gets f)"
  by (rule soundI) (simp add: gets_def)

lemma sound_bnd [sound_rules]: "sound P m \<Longrightarrow> (\<And>x. sound P (f x)) \<Longrightarrow> sound P (bnd m f)"
  unfolding sound_def by (rule safely_bnd)

lemma sound_stm [sound_rules]: "sound P m \<Longrightarrow> sound P n \<Longrightarrow> sound P (stm m n)"
  by (simp add: stm_def sound_bnd)

lemma sound_whenP [sound_rules]: "(b \<Longrightarrow> sound P m) \<Longrightarrow> sound P (whenP b m)"
  by (simp add: whenP_def sound_ret)

lemma sound_if [sound_rules]:
  "(b \<Longrightarrow> sound P m) \<Longrightarrow> (\<not> b \<Longrightarrow> sound P n) \<Longrightarrow> sound P (if b then m else n)"
  by simp

lemma sound_Let [sound_rules]: "(\<And>x. sound P (f x)) \<Longrightarrow> sound P (let x = v in f x)"
  by simp

lemma sound_steps [sound_rules]:
  "sound P (steps [])" "sound P m \<Longrightarrow> sound P (steps ms) \<Longrightarrow> sound P (steps (m # ms))"
  by (simp_all add: sound_ret sound_stm)

lemma sound_modify: "(\<And>s. P s \<Longrightarrow> P (f s)) \<Longrightarrow> sound P (modify f)"
  by (rule soundI) (simp add: modify_def)

lemma sound_case_prod [sound_rules]:
  "(\<And>a b. sound P (f a b)) \<Longrightarrow> sound P (case x of (a, b) \<Rightarrow> f a b)"
  by (cases x) simp

lemma sound_case_option [sound_rules]:
  "sound P n \<Longrightarrow> (\<And>x. sound P (m x)) \<Longrightarrow> sound P (case v of None \<Rightarrow> n | Some x \<Rightarrow> m x)"
  by (cases v) simp_all

lemma sound_for_each [sound_rules]: "(\<And>x. sound P (body x)) \<Longrightarrow> sound P (for_each xs body)"
  by (induction xs) (simp_all add: sound_ret sound_stm)

lemma sound_collect [sound_rules]: "(\<And>x. sound P (body x)) \<Longrightarrow> sound P (collect xs body)"
  by (induction xs) (simp_all add: sound_ret sound_bnd)

section \<open>Blocks of memory\<close>

text \<open>
  An array is a list of fixed length. \<open>overwrite k ys xs\<close> stores the block \<open>ys\<close> at offset \<open>k\<close>;
  \<open>block k n xs\<close> reads \<open>n\<close> elements from offset \<open>k\<close>.
\<close>

definition overwrite :: "nat \<Rightarrow> 'a list \<Rightarrow> 'a list \<Rightarrow> 'a list" where
  "overwrite k ys xs = take k xs @ ys @ drop (k + length ys) xs"

definition block :: "nat \<Rightarrow> nat \<Rightarrow> 'a list \<Rightarrow> 'a list" where
  "block k n xs = take n (drop k xs)"

lemma length_overwrite [simp]:
  "k + length ys \<le> length xs \<Longrightarrow> length (overwrite k ys xs) = length xs"
  by (simp add: overwrite_def)

lemma length_block [simp]: "k + n \<le> length xs \<Longrightarrow> length (block k n xs) = n"
  by (simp add: block_def)

lemma overwrite_Nil [simp]: "overwrite k [] xs = xs"
  by (simp add: overwrite_def)

lemma block_0 [simp]: "block k 0 xs = []"
  by (simp add: block_def)

lemma nth_overwrite:
  assumes "k + length ys \<le> length xs" "i < length xs"
  shows "overwrite k ys xs ! i = (if k \<le> i \<and> i < k + length ys then ys ! (i - k) else xs ! i)"
  using assms by (auto simp: overwrite_def nth_append min_def)

lemma nth_block: "k + n \<le> length xs \<Longrightarrow> i < n \<Longrightarrow> block k n xs ! i = xs ! (k + i)"
  by (simp add: block_def)

lemma block_overwrite_same:
  assumes "k + length ys \<le> length xs"
  shows "block k (length ys) (overwrite k ys xs) = ys"
  using assms by (simp add: block_def overwrite_def)

lemma block_overwrite_disjoint:
  assumes "k + length ys \<le> length xs" "i + n \<le> length xs" "i + n \<le> k \<or> k + length ys \<le> i"
  shows "block i n (overwrite k ys xs) = block i n xs"
  using assms by (intro nth_equalityI) (auto simp: nth_block nth_overwrite)

lemma take_overwrite_before: "n \<le> k \<Longrightarrow> k \<le> length xs \<Longrightarrow> take n (overwrite k ys xs) = take n xs"
  by (simp add: overwrite_def min_def)

lemma overwrite_append:
  assumes "k + length ys + length zs \<le> length xs"
  shows "overwrite (k + length ys) zs (overwrite k ys xs) = overwrite k (ys @ zs) xs"
  using assms by (simp add: overwrite_def ac_simps)

lemma last_overwrite:
  assumes "k + length ys < length xs"
  shows "last (overwrite k ys xs) = last xs"
  using assms by (simp add: overwrite_def last_append)

text \<open>The bytes of a C string that starts at the head of a block: up to its first NUL.\<close>

definition cstr :: "byte list \<Rightarrow> byte list" where
  "cstr bs = takeWhile (\<lambda>b. b \<noteq> 0) bs"

lemma length_cstr: "length (cstr bs) \<le> length bs"
  by (simp add: cstr_def length_takeWhile_le)

lemma cstr_no_nul: "b \<in> set (cstr bs) \<Longrightarrow> b \<noteq> 0"
  by (auto simp: cstr_def dest: set_takeWhileD)

lemma cstr_id: "0 \<notin> set bs \<Longrightarrow> cstr bs = bs"
  by (force simp: cstr_def intro: takeWhile_eq_all_conv [THEN iffD2])

lemma cstr_append_nul: "0 \<notin> set bs \<Longrightarrow> cstr (bs @ 0 # rest) = bs"
  by (induction bs) (auto simp: cstr_def)

end
