(* ===== verification/Bytes.thy ===== *)
theory Bytes
  imports Prelude
begin

text \<open>
  Values as bytes and as text. The C++ code reads and writes integers through casts of a byte
  buffer (\<open>*(T*)&buffer[i]\<close>), which on the x86 target is the little-endian encoding; it prints
  integers into SQL text with \<open>operator<<\<close>, reads them back from result columns with
  \<open>std::stoul\<close>, and prints binary data with \<open>Server::HexString\<close>. The \<open>SWAP\<close> macros of globals.h
  are here as well. Strings are \<open>std::string\<close>s: lists of 8-bit characters.
\<close>

section \<open>Little-endian integers\<close>

definition le_bytes :: "nat \<Rightarrow> 'a::len word \<Rightarrow> byte list" where
  "le_bytes n w = map (\<lambda>i. ucast (drop_bit (8 * i) w)) [0..<n]"

fun le_word :: "byte list \<Rightarrow> 'a::len word" where
  "le_word [] = 0"
| "le_word (b # bs) = ucast b OR push_bit 8 (le_word bs)"

lemma length_le_bytes [simp]: "length (le_bytes n w) = n"
  by (simp add: le_bytes_def)

lemma nth_le_bytes [simp]: "i < n \<Longrightarrow> le_bytes n w ! i = ucast (drop_bit (8 * i) w)"
  by (simp add: le_bytes_def)

lemma bit_le_word:
  "bit (le_word bs :: 'a::len word) k \<longleftrightarrow>
     k < LENGTH('a) \<and> k div 8 < length bs \<and> bit (bs ! (k div 8)) (k mod 8)"
proof (induction bs arbitrary: k)
  case Nil
  then show ?case by simp
next
  case (Cons b bs)
  show ?case
  proof (cases "k < 8")
    case True
    then show ?thesis
      by (auto simp: bit_or_iff bit_push_bit_iff bit_ucast_iff Cons.IH)
  next
    case False
    then have "bit b k = False"
      using bit_imp_le_length [of b k] by auto
    moreover have "k div 8 = Suc ((k - 8) div 8)" "(k - 8) mod 8 = k mod 8"
      using False by (simp_all add: le_div_geq le_mod_geq)
    ultimately show ?thesis
      using False by (auto simp: bit_or_iff bit_push_bit_iff bit_ucast_iff Cons.IH)
  qed
qed

lemma le_word_le_bytes:
  fixes w :: "'a::len word"
  assumes "LENGTH('a) = 8 * n"
  shows "le_word (le_bytes n w) = w"
proof (rule bit_word_eqI)
  fix k assume k: "k < LENGTH('a)"
  then have "k div 8 < n" using assms by (simp add: less_mult_imp_div_less mult.commute)
  moreover have "8 * (k div 8) + k mod 8 = k" by simp
  ultimately show "bit (le_word (le_bytes n w) :: 'a word) k = bit w k"
    using k by (simp add: bit_le_word bit_ucast_iff bit_drop_bit_eq)
qed

lemma le_bytes_le_word:
  assumes len: "LENGTH('a::len) = 8 * n" and bs: "length bs = n"
  shows "le_bytes n (le_word bs :: 'a word) = bs"
proof (rule nth_equalityI)
  fix i assume "i < length (le_bytes n (le_word bs :: 'a word))"
  then have i: "i < n" by simp
  show "le_bytes n (le_word bs :: 'a word) ! i = bs ! i"
  proof (rule bit_word_eqI)
    fix k assume "k < LENGTH(8)"
    then have k: "k < 8" by simp
    have "8 * i + k < LENGTH('a)" using len i k by simp
    moreover have "(8 * i + k) div 8 = i" "(8 * i + k) mod 8 = k" using k by simp_all
    ultimately show "bit (le_bytes n (le_word bs :: 'a word) ! i) k = bit (bs ! i) k"
      using i k bs by (simp add: bit_ucast_iff bit_drop_bit_eq bit_le_word)
  qed
qed (simp add: bs)

text \<open>
  The interface of the buffer classes to integers: an encoder and a decoder of a fixed width,
  inverse to each other. The lemmas say what a read returns after writes into the same array.
\<close>

locale le_codec =
  fixes enc :: "'v \<Rightarrow> byte list" and dec :: "byte list \<Rightarrow> 'v" and width :: nat
  assumes enc_length: "length (enc v) = width"
    and dec_enc: "dec (enc v) = v"
begin

lemma enc_inject: "enc v = enc w \<longleftrightarrow> v = w"
  by (metis dec_enc)

lemma read_written:
  assumes "k + width \<le> length xs"
  shows "dec (block k width (overwrite k (enc v) xs)) = v"
  using assms block_overwrite_same [of k "enc v" xs] by (simp add: enc_length dec_enc)

lemma read_after_disjoint_write:
  assumes "k + length ys \<le> length xs" "i + width \<le> length xs"
    and "i + width \<le> k \<or> k + length ys \<le> i"
  shows "dec (block i width (overwrite k ys xs)) = dec (block i width xs)"
  using assms by (simp add: block_overwrite_disjoint)

lemma decode_head: "dec (take width (enc v @ rest)) = v"
  by (simp add: enc_length dec_enc)

lemma decode_tail: "drop width (enc v @ rest) = rest"
  by (simp add: enc_length)

end

locale le_codec_onto = le_codec +
  assumes enc_dec: "length bs = width \<Longrightarrow> enc (dec bs) = bs"
begin

lemma copy_through:
  assumes "k + width \<le> length xs"
  shows "overwrite k (enc (dec (block k width xs))) xs = xs"
proof -
  have "enc (dec (block k width xs)) = take width (drop k xs)"
    using assms by (simp add: enc_dec block_def)
  then show ?thesis
    using assms by (simp add: overwrite_def min_def)
       (metis add.commute append_take_drop_id drop_drop)
qed

end

abbreviation u8_bytes :: "byte \<Rightarrow> byte list" where "u8_bytes \<equiv> le_bytes 1"
abbreviation u16_bytes :: "u16 \<Rightarrow> byte list" where "u16_bytes \<equiv> le_bytes 2"
abbreviation u32_bytes :: "u32 \<Rightarrow> byte list" where "u32_bytes \<equiv> le_bytes 4"
abbreviation u64_bytes :: "u64 \<Rightarrow> byte list" where "u64_bytes \<equiv> le_bytes 8"
abbreviation bytes_u8 :: "byte list \<Rightarrow> byte" where "bytes_u8 \<equiv> le_word"
abbreviation bytes_u16 :: "byte list \<Rightarrow> u16" where "bytes_u16 \<equiv> le_word"
abbreviation bytes_u32 :: "byte list \<Rightarrow> u32" where "bytes_u32 \<equiv> le_word"
abbreviation bytes_u64 :: "byte list \<Rightarrow> u64" where "bytes_u64 \<equiv> le_word"

interpretation c8: le_codec_onto u8_bytes bytes_u8 1
  by unfold_locales (simp_all add: le_word_le_bytes le_bytes_le_word del: One_nat_def)

interpretation c16: le_codec_onto u16_bytes bytes_u16 2
  by unfold_locales (simp_all add: le_word_le_bytes le_bytes_le_word del: One_nat_def)

interpretation c32: le_codec_onto u32_bytes bytes_u32 4
  by unfold_locales (simp_all add: le_word_le_bytes le_bytes_le_word del: One_nat_def)

interpretation c64: le_codec_onto u64_bytes bytes_u64 8
  by unfold_locales (simp_all add: le_word_le_bytes le_bytes_le_word del: One_nat_def)

section \<open>Byte order\<close>

text \<open>The \<open>SWAP_SHORT\<close>, \<open>SWAP_LONG\<close> and \<open>SWAP_LONGLONG\<close> macros of globals.h.\<close>

definition SWAP_SHORT :: "u16 \<Rightarrow> u16" where
  "SWAP_SHORT l = (drop_bit 8 l AND 0x00FF) OR (push_bit 8 l AND 0xFF00)"

definition SWAP_LONG :: "u32 \<Rightarrow> u32" where
  "SWAP_LONG l =
     (drop_bit 24 l AND 0x000000FF) OR (drop_bit 8 l AND 0x0000FF00) OR
     (push_bit 8 l AND 0x00FF0000) OR (push_bit 24 l AND 0xFF000000)"

definition SWAP_LONGLONG :: "u64 \<Rightarrow> u64" where
  "SWAP_LONGLONG l =
     (drop_bit 56 l AND 0x00000000000000FF) OR (drop_bit 40 l AND 0x000000000000FF00) OR
     (drop_bit 24 l AND 0x0000000000FF0000) OR (drop_bit 8 l AND 0x00000000FF000000) OR
     (push_bit 8 l AND 0x000000FF00000000) OR (push_bit 24 l AND 0x0000FF0000000000) OR
     (push_bit 40 l AND 0x00FF000000000000) OR (push_bit 56 l AND 0xFF00000000000000)"

section \<open>Text\<close>

type_synonym cppstring = string

definition byte_of :: "char \<Rightarrow> byte" where
  "byte_of c = of_char c"

definition char_of_byte :: "byte \<Rightarrow> char" where
  "char_of_byte b = char_of (unat b)"

definition bytes_of :: "cppstring \<Rightarrow> byte list" where
  "bytes_of s = map byte_of s"

definition string_of :: "byte list \<Rightarrow> cppstring" where
  "string_of bs = map char_of_byte bs"

lemma of_char_nat_less: "(of_char c :: nat) < 256"
proof -
  have "(of_char c :: nat) = of_char (char_of (of_char c :: nat))" by simp
  also have "\<dots> = of_char c mod 256" by (simp only: of_char_of)
  finally show ?thesis by (metis mod_less_divisor zero_less_numeral)
qed

lemma unat_byte_of: "unat (byte_of c) = of_char c"
proof -
  have "byte_of c = of_nat (of_char c)" by (metis byte_of_def of_nat_of_char)
  then show ?thesis using of_char_nat_less [of c] by (simp add: unat_of_nat)
qed

lemma char_of_byte_of [simp]: "char_of_byte (byte_of c) = c"
  by (simp add: char_of_byte_def unat_byte_of)

lemma byte_of_char_of_byte [simp]: "byte_of (char_of_byte b) = b"
proof -
  have "unat (byte_of (char_of_byte b)) = unat b"
    using unat_less [of b] by (simp add: unat_byte_of char_of_byte_def)
  then show ?thesis by (simp add: word_unat_eq_iff)
qed

lemma string_of_bytes_of [simp]: "string_of (bytes_of s) = s"
  by (simp add: string_of_def bytes_of_def comp_def)

lemma bytes_of_string_of [simp]: "bytes_of (string_of bs) = bs"
  by (simp add: string_of_def bytes_of_def comp_def)

lemma length_bytes_of [simp]: "length (bytes_of s) = length s"
  by (simp add: bytes_of_def)

lemma length_string_of [simp]: "length (string_of bs) = length bs"
  by (simp add: string_of_def)

text \<open>\<open>std::transform(s.begin(), s.end(), s.begin(), tolower)\<close> in the C locale.\<close>

definition tolower_char :: "char \<Rightarrow> char" where
  "tolower_char c =
     (if CHR ''A'' \<le> c \<and> c \<le> CHR ''Z'' then char_of ((of_char c :: nat) + 32) else c)"

definition tolower :: "cppstring \<Rightarrow> cppstring" where
  "tolower s = map tolower_char s"

text \<open>
  \<open>Logger::ToWide\<close>, \<open>Server::ToWide\<close> and their \<open>ToNarrow\<close> copy the elements one by one; a wide
  character is 16 bits on Windows, so narrowing keeps the low byte, and widening sign-extends
  the (signed) \<open>char\<close>.
\<close>

definition ToWide :: "cppstring \<Rightarrow> u16 list" where
  "ToWide s = map (\<lambda>c. signed_take_bit 7 (ucast (byte_of c))) s"

definition ToNarrow :: "u16 list \<Rightarrow> cppstring" where
  "ToNarrow ws = map (\<lambda>w. char_of_byte (ucast w)) ws"

lemma ToNarrow_ToWide: "ToNarrow (ToWide s) = s"
proof -
  have "ucast (signed_take_bit 7 (ucast b :: u16)) = b" for b :: byte
    by (rule bit_word_eqI)
       (auto simp: bit_ucast_iff bit_signed_take_bit_iff min_def intro!: arg_cong [of _ _ "bit b"])
  then show ?thesis by (simp add: ToNarrow_def ToWide_def comp_def)
qed

subsection \<open>Decimal numbers\<close>

text \<open>\<open>operator<<\<close> of an unsigned integer, and of a signed one.\<close>

definition digit :: "nat \<Rightarrow> char" where
  "digit n = char_of (48 + n)"

fun dec :: "nat \<Rightarrow> cppstring" where
  "dec n = (if n < 10 then [digit n] else dec (n div 10) @ [digit (n mod 10)])"

declare dec.simps [simp del]

definition dec_int :: "int \<Rightarrow> cppstring" where
  "dec_int i = (if i < 0 then CHR ''-'' # dec (nat (- i)) else dec (nat i))"

abbreviation dec_word :: "'a::len word \<Rightarrow> cppstring" where
  "dec_word w \<equiv> dec (unat w)"

text \<open>
  \<open>strtoul\<close> in base 10, as \<open>std::stoul\<close> and \<open>std::stoull\<close> use it: leading white space, an
  optional sign, at least one digit (\<open>std::invalid_argument\<close> otherwise), the rest ignored.
  A value past the range of the type is \<open>std::out_of_range\<close>; a minus sign negates modulo the
  range. \<open>unsigned long\<close> has 32 bits on Windows.
\<close>

definition is_digit :: "char \<Rightarrow> bool" where
  "is_digit c \<longleftrightarrow> CHR ''0'' \<le> c \<and> c \<le> CHR ''9''"

definition is_space :: "char \<Rightarrow> bool" where
  "is_space c \<longleftrightarrow> c = CHR '' '' \<or> (CHR 0x09 \<le> c \<and> c \<le> CHR 0x0D)"

definition digit_val :: "char \<Rightarrow> nat" where
  "digit_val c = of_char c - 48"

definition digits_val :: "cppstring \<Rightarrow> nat" where
  "digits_val ds = foldl (\<lambda>n c. 10 * n + digit_val c) 0 ds"

definition parse_ul :: "cppstring \<Rightarrow> 'a::len word option" where
  "parse_ul s =
     (let s1 = dropWhile is_space s;
          neg = (s1 \<noteq> [] \<and> hd s1 = CHR ''-'');
          s2 = (if s1 \<noteq> [] \<and> (hd s1 = CHR ''-'' \<or> hd s1 = CHR ''+'') then tl s1 else s1);
          ds = takeWhile is_digit s2; n = digits_val ds
      in if ds = [] \<or> 2 ^ LENGTH('a) \<le> n then None
         else Some (if neg then - word_of_nat n else word_of_nat n))"

definition stoul :: "cppstring \<Rightarrow> fault + u32" where
  "stoul s = (case parse_ul s of None \<Rightarrow> Inl Uncaught | Some w \<Rightarrow> Inr w)"

definition stoull :: "cppstring \<Rightarrow> fault + u64" where
  "stoull s = (case parse_ul s of None \<Rightarrow> Inl Uncaught | Some w \<Rightarrow> Inr w)"

text \<open>\<open>_wtoi\<close>: the same scan, saturating at the ends of \<open>int\<close>, 0 when there is no number.\<close>

definition wtoi :: "cppstring \<Rightarrow> int" where
  "wtoi s =
     (let s1 = dropWhile is_space s;
          neg = (s1 \<noteq> [] \<and> hd s1 = CHR ''-'');
          s2 = (if s1 \<noteq> [] \<and> (hd s1 = CHR ''-'' \<or> hd s1 = CHR ''+'') then tl s1 else s1);
          n = int (digits_val (takeWhile is_digit s2))
      in if neg then max (- (2 ^ 31)) (- n) else min (2 ^ 31 - 1) n)"

lemma of_char_digit: "n < 10 \<Longrightarrow> (of_char (digit n) :: nat) = 48 + n"
  by (simp add: digit_def)

lemma is_digit_digit: "n < 10 \<Longrightarrow> is_digit (digit n)"
  by (simp add: is_digit_def less_eq_char_def of_char_digit)

lemma digits_val_snoc: "digits_val (ds @ [c]) = 10 * digits_val ds + digit_val c"
  by (simp add: digits_val_def)

lemma dec_digits: "list_all is_digit (dec n) \<and> dec n \<noteq> []"
proof (induction n rule: dec.induct)
  case (1 n)
  then show ?case
    by (cases "n < 10") (simp_all add: dec.simps [of n] is_digit_digit)
qed

lemma digits_val_dec: "digits_val (dec n) = n"
proof (induction n rule: dec.induct)
  case (1 n)
  show ?case
  proof (cases "n < 10")
    case True
    then show ?thesis
      by (simp add: dec.simps [of n] digits_val_def digit_val_def of_char_digit)
  next
    case False
    then show ?thesis
      using "1.IH" by (simp add: dec.simps [of n] digits_val_snoc digit_val_def of_char_digit)
  qed
qed

lemma is_digit_not:
  "is_digit c \<Longrightarrow> \<not> is_space c \<and> c \<noteq> CHR ''-'' \<and> c \<noteq> CHR ''+'' \<and> c \<noteq> CHR 0x27 \<and> c \<noteq> CHR 0x00"
  by (auto simp: is_digit_def is_space_def less_eq_char_def)

lemma parse_ul_dec: "n < 2 ^ LENGTH('a::len) \<Longrightarrow> (parse_ul (dec n) :: 'a word option) = Some (word_of_nat n)"
proof -
  assume n: "n < 2 ^ LENGTH('a)"
  obtain c cs where c: "dec n = c # cs" and all: "list_all is_digit (c # cs)"
    using dec_digits [of n] by (cases "dec n") auto
  have "is_digit c" using all by simp
  note nc = is_digit_not [OF this]
  have "dropWhile is_space (dec n) = dec n" using nc c by simp
  moreover have "takeWhile is_digit cs = cs"
    using all by (simp add: takeWhile_eq_all_conv list_all_iff)
  ultimately show ?thesis
    using n nc c \<open>is_digit c\<close> digits_val_dec [of n]
    by (simp add: parse_ul_def Let_def del: takeWhile_eq_all_conv)
qed

lemma stoul_dec: "stoul (dec_word w) = Inr w"
  using unat_less [of w] by (simp add: stoul_def parse_ul_dec)

lemma stoull_dec: "stoull (dec_word w) = Inr w"
  using unat_less [of w] by (simp add: stoull_def parse_ul_dec)

end
