(* ===== verification/Globals.thy ===== *)
theory Globals
  imports Bytes
begin

text \<open>
  globals.h and packets.h: the constants of the protocol and of the buffers, and the two
  enumerations. The build modelled is the one the project ships, with \<open>DISABLE_COMPRESSION\<close> and
  \<open>DISABLE_ENCRYPTION\<close> defined, for Win32: \<open>size_t\<close>, \<open>unsigned long\<close> and pointers have 32 bits.
\<close>

definition CLIENT_BUFFER_SIZE :: nat where
  "CLIENT_BUFFER_SIZE = 1024 * 8"

definition MAX_MESG_LEN :: nat where
  "MAX_MESG_LEN = 4096"

definition BLOCK_SIZE :: nat where
  "BLOCK_SIZE = 16"

definition KEY_SIZE :: nat where
  "KEY_SIZE = 32"

definition HEARTBEAT_TIME :: int where
  "HEARTBEAT_TIME = 30"

definition DB_OK :: int where
  "DB_OK = 0"

definition DB_ERR :: int where
  "DB_ERR = 255"

definition DBTYPE_SQLITE :: u32 where
  "DBTYPE_SQLITE = 0"

definition DBTYPE_MYSQL :: u32 where
  "DBTYPE_MYSQL = 1"

lemma buffer_size [simp]: "CLIENT_BUFFER_SIZE = 8192"
  by (simp add: CLIENT_BUFFER_SIZE_def)

lemmas global_consts =
  MAX_MESG_LEN_def BLOCK_SIZE_def KEY_SIZE_def HEARTBEAT_TIME_def DB_OK_def DB_ERR_def
  DBTYPE_SQLITE_def DBTYPE_MYSQL_def

datatype LOGTYPE =
    LOGTYPE_NONE
  | LOGTYPE_PACKET
  | LOGTYPE_DATABASE
  | LOGTYPE_ERROR
  | LOGTYPE_DEBUG
  | LOGTYPE_COMM
  | LOGTYPE_SERVER

datatype PACKETTYPE =
    PACKETTYPE_AUTH
  | PACKETTYPE_CLIENTAUTH
  | PACKETTYPE_CLIENTREQ
  | PACKETTYPE_TBC
  | PACKETTYPE_CLIENTOPS
  | PACKETTYPE_SERVEROPS

text \<open>The enumerators' values; comparisons of the code are comparisons of these.\<close>

fun logtype_val :: "LOGTYPE \<Rightarrow> nat" where
  "logtype_val LOGTYPE_NONE = 0"
| "logtype_val LOGTYPE_PACKET = 1"
| "logtype_val LOGTYPE_DATABASE = 2"
| "logtype_val LOGTYPE_ERROR = 3"
| "logtype_val LOGTYPE_DEBUG = 4"
| "logtype_val LOGTYPE_COMM = 5"
| "logtype_val LOGTYPE_SERVER = 6"

fun packettype_val :: "PACKETTYPE \<Rightarrow> nat" where
  "packettype_val PACKETTYPE_AUTH = 0"
| "packettype_val PACKETTYPE_CLIENTAUTH = 1"
| "packettype_val PACKETTYPE_CLIENTREQ = 2"
| "packettype_val PACKETTYPE_TBC = 3"
| "packettype_val PACKETTYPE_CLIENTOPS = 4"
| "packettype_val PACKETTYPE_SERVEROPS = 5"

lemma logtype_val_inject: "logtype_val a = logtype_val b \<longleftrightarrow> a = b"
  by (cases a; cases b) simp_all

lemma packettype_val_inject: "packettype_val a = packettype_val b \<longleftrightarrow> a = b"
  by (cases a; cases b) simp_all

instantiation LOGTYPE :: linorder
begin

definition less_eq_LOGTYPE :: "LOGTYPE \<Rightarrow> LOGTYPE \<Rightarrow> bool" where
  "less_eq_LOGTYPE a b \<longleftrightarrow> logtype_val a \<le> logtype_val b"

definition less_LOGTYPE :: "LOGTYPE \<Rightarrow> LOGTYPE \<Rightarrow> bool" where
  "less_LOGTYPE a b \<longleftrightarrow> logtype_val a < logtype_val b"

instance
  by standard (auto simp: less_eq_LOGTYPE_def less_LOGTYPE_def logtype_val_inject)

end

instantiation PACKETTYPE :: linorder
begin

definition less_eq_PACKETTYPE :: "PACKETTYPE \<Rightarrow> PACKETTYPE \<Rightarrow> bool" where
  "less_eq_PACKETTYPE a b \<longleftrightarrow> packettype_val a \<le> packettype_val b"

definition less_PACKETTYPE :: "PACKETTYPE \<Rightarrow> PACKETTYPE \<Rightarrow> bool" where
  "less_PACKETTYPE a b \<longleftrightarrow> packettype_val a < packettype_val b"

instance
  by standard (auto simp: less_eq_PACKETTYPE_def less_PACKETTYPE_def packettype_val_inject)

end

definition packet_types :: "PACKETTYPE list" where
  "packet_types =
     [PACKETTYPE_AUTH, PACKETTYPE_CLIENTAUTH, PACKETTYPE_CLIENTREQ, PACKETTYPE_TBC,
      PACKETTYPE_CLIENTOPS, PACKETTYPE_SERVEROPS]"

lemma packet_types_index: "t \<in> set packet_types \<and> packet_types ! packettype_val t = t"
  by (cases t) (simp_all add: packet_types_def)

end
