(* ===== verification/Packet.thy ===== *)
theory Packet
  imports Globals
begin

text \<open>
  The class \<open>SERVERPACKET\<close> (serverpacket.h, serverpacket.cpp): a buffer of
  \<open>CLIENT_BUFFER_SIZE\<close> bytes with a cursor \<open>pOffset\<close> and a size \<open>pSize\<close>, both 16 bits wide. The
  integer overloads of the templates \<open>append\<close>, \<open>set\<close> and \<open>get\<close> differ in the encoding only, so
  each is the byte-level operation composed with a codec of theory Bytes.
\<close>

record packet =
  buffer :: "byte list"
  pOffset :: u16
  pSize :: u16

definition zero_buffer :: "byte list" where
  "zero_buffer = replicate CLIENT_BUFFER_SIZE 0"

section \<open>Operations\<close>

text \<open>\<open>SERVERPACKET()\<close> runs \<open>init()\<close>; \<open>clearBuffer()\<close> does the same.\<close>

definition init_packet :: packet where
  "init_packet = \<lparr>buffer = zero_buffer, pOffset = 0, pSize = 0\<rparr>"

definition clearBuffer :: "packet \<Rightarrow> packet" where
  "clearBuffer p = p\<lparr>pOffset := 0, pSize := 0, buffer := zero_buffer\<rparr>"

definition setOffset :: "u16 \<Rightarrow> packet \<Rightarrow> packet" where
  "setOffset n p = p\<lparr>pOffset := n\<rparr>"

definition addOffset :: "u16 \<Rightarrow> packet \<Rightarrow> packet" where
  "addOffset n p = p\<lparr>pOffset := pOffset p + n\<rparr>"

definition setSize :: "u16 \<Rightarrow> packet \<Rightarrow> packet" where
  "setSize n p = p\<lparr>pSize := n\<rparr>"

definition addSize :: "u16 \<Rightarrow> packet \<Rightarrow> packet" where
  "addSize n p = p\<lparr>pSize := pSize p + n\<rparr>"

definition getSizeFromBuffer :: "packet \<Rightarrow> u16" where
  "getSizeFromBuffer p = bytes_u16 (block 0 2 (buffer p))"

definition getType :: "packet \<Rightarrow> u16" where
  "getType p = bytes_u16 (block 2 2 (buffer p))"

definition setType :: "u16 \<Rightarrow> packet \<Rightarrow> packet" where
  "setType t p = p\<lparr>buffer := overwrite 2 (u16_bytes t) (buffer p)\<rparr>"

definition getSubType :: "packet \<Rightarrow> u16" where
  "getSubType p = bytes_u16 (block 4 2 (buffer p))"

definition setSubType :: "u16 \<Rightarrow> packet \<Rightarrow> packet" where
  "setSubType t p = p\<lparr>buffer := overwrite 4 (u16_bytes t) (buffer p)\<rparr>"

text \<open>
  \<open>append<T>\<close>: nothing happens when the value does not fit. \<open>pOffset + sizeof(in)\<close> is computed in
  32 bits and cannot wrap.
\<close>

definition append_bytes :: "byte list \<Rightarrow> packet \<Rightarrow> packet" where
  "append_bytes bs p =
     (if unat (pOffset p) + length bs < CLIENT_BUFFER_SIZE
      then p\<lparr>buffer := overwrite (unat (pOffset p)) bs (buffer p),
             pOffset := pOffset p + word_of_nat (length bs),
             pSize := pSize p + word_of_nat (length bs)\<rparr>
      else p)"

definition append_u8 :: "byte \<Rightarrow> packet \<Rightarrow> packet" where
  "append_u8 v = append_bytes (u8_bytes v)"

definition append_u32 :: "u32 \<Rightarrow> packet \<Rightarrow> packet" where
  "append_u32 v = append_bytes (u32_bytes v)"

definition append_u64 :: "u64 \<Rightarrow> packet \<Rightarrow> packet" where
  "append_u64 v = append_bytes (u64_bytes v)"

text \<open>
  \<open>set<T>(in, offset)\<close>. The parameter \<open>offset\<close> is not used: the guard and the store go through
  \<open>pOffset\<close>.
\<close>

definition set_bytes :: "byte list \<Rightarrow> u32 \<Rightarrow> packet \<Rightarrow> packet" where
  "set_bytes bs offset p =
     (if unat (pOffset p) + length bs < CLIENT_BUFFER_SIZE
      then p\<lparr>buffer := overwrite (unat (pOffset p)) bs (buffer p)\<rparr> else p)"

text \<open>
  \<open>get<T>(offset)\<close>, where \<open>offset + sizeof(T)\<close> wraps at 32 bits, and \<open>get<T>()\<close>, where it cannot.
  Past the end both return \<open>T()\<close>, which is 0.
\<close>

definition get_bytes_at :: "nat \<Rightarrow> u32 \<Rightarrow> packet \<Rightarrow> fault + byte list" where
  "get_bytes_at n offset p =
     (if CLIENT_BUFFER_SIZE < unat (offset + word_of_nat n) then Inr (replicate n 0)
      else if unat offset + n \<le> CLIENT_BUFFER_SIZE
      then Inr (block (unat offset) n (buffer p)) else Inl OutOfBounds)"

definition get_bytes :: "nat \<Rightarrow> packet \<Rightarrow> byte list \<times> packet" where
  "get_bytes n p =
     (if CLIENT_BUFFER_SIZE < unat (pOffset p) + n then (replicate n 0, p)
      else (block (unat (pOffset p)) n (buffer p),
            p\<lparr>pOffset := pOffset p + word_of_nat n\<rparr>))"

definition get_u8 :: "packet \<Rightarrow> byte \<times> packet" where
  "get_u8 p = (let (bs, q) = get_bytes 1 p in (bytes_u8 bs, q))"

definition get_u16 :: "packet \<Rightarrow> u16 \<times> packet" where
  "get_u16 p = (let (bs, q) = get_bytes 2 p in (bytes_u16 bs, q))"

definition get_u32 :: "packet \<Rightarrow> u32 \<times> packet" where
  "get_u32 p = (let (bs, q) = get_bytes 4 p in (bytes_u32 bs, q))"

definition get_u64 :: "packet \<Rightarrow> u64 \<times> packet" where
  "get_u64 p = (let (bs, q) = get_bytes 8 p in (bytes_u64 bs, q))"

text \<open>
  The array operations take a size of 32 bits, and \<open>pOffset + size\<close> wraps at 32 bits, so the guard
  alone does not bound the copy: what the copy touches is checked as well. \<open>src\<close> is the memory
  that may be read from \<open>in\<close> on.
\<close>

definition copy_ok :: "nat \<Rightarrow> u32 \<Rightarrow> bool" where
  "copy_ok offset sz \<longleftrightarrow> offset + unat sz \<le> CLIENT_BUFFER_SIZE"

definition appendArray :: "byte list \<Rightarrow> u32 \<Rightarrow> packet \<Rightarrow> fault + packet" where
  "appendArray src sz p =
     (if unat (ucast (pOffset p) + sz) < CLIENT_BUFFER_SIZE
      then if length src < unat sz \<or> \<not> copy_ok (unat (pOffset p)) sz then Inl OutOfBounds
           else Inr (p\<lparr>buffer := overwrite (unat (pOffset p)) (take (unat sz) src) (buffer p),
                       pOffset := pOffset p + ucast sz,
                       pSize := pSize p + ucast sz\<rparr>)
      else Inr p)"

definition setArray :: "byte list \<Rightarrow> u32 \<Rightarrow> u32 \<Rightarrow> packet \<Rightarrow> fault + packet" where
  "setArray src sz offset p =
     (if unat (offset + sz) < CLIENT_BUFFER_SIZE
      then if length src < unat sz \<or> \<not> copy_ok (unat offset) sz then Inl OutOfBounds
           else Inr (p\<lparr>buffer := overwrite (unat offset) (take (unat sz) src) (buffer p)\<rparr>)
      else Inr p)"

text \<open>
  \<open>getArray\<close> leaves its destination alone when the guard fails: the result \<open>None\<close>.
\<close>

definition getArray_at :: "u32 \<Rightarrow> u32 \<Rightarrow> packet \<Rightarrow> fault + byte list option" where
  "getArray_at sz offset p =
     (if unat (offset + sz) < CLIENT_BUFFER_SIZE
      then if copy_ok (unat offset) sz
           then Inr (Some (block (unat offset) (unat sz) (buffer p))) else Inl OutOfBounds
      else Inr None)"

definition getArray :: "u32 \<Rightarrow> packet \<Rightarrow> fault + (byte list option \<times> packet)" where
  "getArray sz p =
     (if unat (ucast (pOffset p) + sz) < CLIENT_BUFFER_SIZE
      then if copy_ok (unat (pOffset p)) sz
           then Inr (Some (block (unat (pOffset p)) (unat sz) (buffer p)),
                     p\<lparr>pOffset := pOffset p + ucast sz\<rparr>) else Inl OutOfBounds
      else Inr (None, p))"

text \<open>
  Strings. \<open>strcpy_s(dst, size + 1, &cmd[0])\<close> copies up to the first NUL of \<open>cmd\<close> and stores a
  NUL; \<open>pOffset + size\<close> is signed. The second overload moves the cursor by \<open>addToSize\<close>, whatever
  was written.
\<close>

definition strcpy_bytes :: "cppstring \<Rightarrow> byte list" where
  "strcpy_bytes cmd = cstr (bytes_of cmd) @ [0]"

definition appendString :: "cppstring \<Rightarrow> packet \<Rightarrow> int \<times> packet" where
  "appendString cmd p =
     (if unat (pOffset p) + length cmd < CLIENT_BUFFER_SIZE
      then (int (length cmd) + 1,
            p\<lparr>buffer := overwrite (unat (pOffset p)) (strcpy_bytes cmd) (buffer p),
              pOffset := pOffset p + word_of_nat (length cmd),
              pSize := pSize p + word_of_nat (length cmd)\<rparr>)
      else (0, p))"

definition appendString_as :: "cppstring \<Rightarrow> u32 \<Rightarrow> packet \<Rightarrow> int \<times> packet" where
  "appendString_as cmd addToSize p =
     (if unat (pOffset p) + length cmd < CLIENT_BUFFER_SIZE
      then (sint addToSize,
            p\<lparr>buffer := overwrite (unat (pOffset p)) (strcpy_bytes cmd) (buffer p),
              pOffset := pOffset p + ucast addToSize,
              pSize := pSize p + ucast addToSize\<rparr>)
      else (0, p))"

definition setString :: "cppstring \<Rightarrow> u32 \<Rightarrow> packet \<Rightarrow> fault + (int \<times> packet)" where
  "setString cmd offset p =
     (if unat (offset + word_of_nat (length cmd)) < CLIENT_BUFFER_SIZE
      then if unat offset + length cmd < CLIENT_BUFFER_SIZE
           then Inr (int (length cmd) + 1,
                     p\<lparr>buffer := overwrite (unat offset) (strcpy_bytes cmd) (buffer p)\<rparr>)
           else Inl OutOfBounds
      else Inr (0, p))"

text \<open>
  \<open>getString(offset)\<close> scans for a NUL. The sized variants first copy \<open>size\<close> characters (a size
  past \<open>max_size()\<close> is a \<open>std::length_error\<close>), then search the copy for the empty string
  \<open>"\0"\<close>. That search always succeeds, so the result is always the C string at the offset, cut at
  its NUL and not at \<open>size\<close>.
\<close>

definition string_max_size :: nat where
  "string_max_size = 2 ^ 31 - 1"

definition c_string_at :: "nat \<Rightarrow> packet \<Rightarrow> fault + cppstring" where
  "c_string_at k p =
     (if 0 \<in> set (drop k (buffer p)) then Inr (string_of (cstr (drop k (buffer p))))
      else Inl OutOfBounds)"

definition getString :: "u32 \<Rightarrow> packet \<Rightarrow> fault + cppstring" where
  "getString offset p = c_string_at (unat offset) p"

definition getString_sized :: "u32 \<Rightarrow> u32 \<Rightarrow> packet \<Rightarrow> fault + cppstring" where
  "getString_sized offset sz p =
     (if CLIENT_BUFFER_SIZE < unat (offset + sz) then Inr []
      else if string_max_size < unat sz then Inl Uncaught
      else if copy_ok (unat offset) sz then c_string_at (unat offset) p else Inl OutOfBounds)"

definition getStringA :: "u32 \<Rightarrow> packet \<Rightarrow> fault + (cppstring \<times> packet)" where
  "getStringA sz p =
     (if CLIENT_BUFFER_SIZE < unat (ucast (pOffset p) + sz) then Inr ([], p)
      else if string_max_size < unat sz then Inl Uncaught
      else if copy_ok (unat (pOffset p)) sz
      then (case c_string_at (unat (pOffset p)) p of
              Inl e \<Rightarrow> Inl e
            | Inr s \<Rightarrow> Inr (s, p\<lparr>pOffset := pOffset p + ucast sz\<rparr>))
      else Inl OutOfBounds)"

section \<open>Well-formed packets\<close>

text \<open>
  The buffer has its full length and its last byte is never written with anything but NUL: every
  guard of the class is a strict \<open>< CLIENT_BUFFER_SIZE\<close>. That last NUL is what stops the string
  operations inside the buffer.
\<close>

definition wf_packet :: "packet \<Rightarrow> bool" where
  "wf_packet p \<longleftrightarrow> length (buffer p) = CLIENT_BUFFER_SIZE \<and> buffer p ! (CLIENT_BUFFER_SIZE - 1) = 0"

named_theorems packet_wf \<open>operations of the class keep packets well-formed\<close>

lemma length_zero_buffer [simp]: "length zero_buffer = 8192"
  by (simp add: zero_buffer_def)

lemma nth_zero_buffer [simp]: "i < 8192 \<Longrightarrow> zero_buffer ! i = 0"
  by (simp add: zero_buffer_def)

lemma wf_length: "wf_packet p \<Longrightarrow> length (buffer p) = 8192"
  by (simp add: wf_packet_def)

lemma wf_init [packet_wf]: "wf_packet init_packet"
  by (simp add: wf_packet_def init_packet_def)

lemma wf_clear [packet_wf]: "wf_packet (clearBuffer p)"
  by (simp add: wf_packet_def clearBuffer_def)

lemma wf_cursor [packet_wf]:
  "wf_packet p \<Longrightarrow> wf_packet (setOffset n p)" "wf_packet p \<Longrightarrow> wf_packet (addOffset n p)"
  "wf_packet p \<Longrightarrow> wf_packet (setSize n p)" "wf_packet p \<Longrightarrow> wf_packet (addSize n p)"
  by (simp_all add: wf_packet_def setOffset_def addOffset_def setSize_def addSize_def)

lemma wf_overwrite:
  assumes "wf_packet p" "k + length bs < 8192"
  shows "wf_packet (p\<lparr>buffer := overwrite k bs (buffer p)\<rparr>)"
  using assms by (simp add: wf_packet_def nth_overwrite)

text \<open>A block that ends with NUL may also reach the last byte.\<close>

lemma wf_overwrite_nul:
  assumes "wf_packet p" "k + length bs < 8192"
  shows "wf_packet (p\<lparr>buffer := overwrite k (bs @ [0]) (buffer p)\<rparr>)"
  using assms by (auto simp: wf_packet_def nth_overwrite nth_append)

lemma wf_cong: "buffer p = buffer q \<Longrightarrow> wf_packet p = wf_packet q"
  by (simp add: wf_packet_def)

lemma wf_update: "wf_packet (p\<lparr>buffer := b\<rparr>) \<Longrightarrow> wf_packet (p\<lparr>buffer := b, pOffset := m, pSize := n\<rparr>)"
  by (simp add: wf_packet_def)

lemma wf_setType [packet_wf]:
  "wf_packet p \<Longrightarrow> wf_packet (setType t p)" "wf_packet p \<Longrightarrow> wf_packet (setSubType t p)"
  by (simp_all add: setType_def setSubType_def wf_overwrite)

lemma wf_append_bytes [packet_wf]: "wf_packet p \<Longrightarrow> wf_packet (append_bytes bs p)"
  by (simp add: append_bytes_def wf_update wf_overwrite)

lemma wf_appends [packet_wf]:
  "wf_packet p \<Longrightarrow> wf_packet (append_u8 b p)" "wf_packet p \<Longrightarrow> wf_packet (append_u32 w p)"
  "wf_packet p \<Longrightarrow> wf_packet (append_u64 d p)"
  by (simp_all add: append_u8_def append_u32_def append_u64_def wf_append_bytes)

lemma wf_set_bytes [packet_wf]: "wf_packet p \<Longrightarrow> wf_packet (set_bytes bs n p)"
  by (simp add: set_bytes_def wf_overwrite)

lemma wf_strcpy:
  assumes "wf_packet p" "k + length cmd < 8192"
  shows "wf_packet (p\<lparr>buffer := overwrite k (strcpy_bytes cmd) (buffer p)\<rparr>)"
  unfolding strcpy_bytes_def using assms length_cstr [of "bytes_of cmd"]
  by (intro wf_overwrite_nul) simp_all

lemma wf_appendString [packet_wf]:
  "wf_packet p \<Longrightarrow> wf_packet (snd (appendString cmd p))"
  "wf_packet p \<Longrightarrow> wf_packet (snd (appendString_as cmd n p))"
  by (simp_all add: appendString_def appendString_as_def wf_update wf_strcpy)

lemma wf_gets [packet_wf]:
  "wf_packet p \<Longrightarrow> wf_packet (snd (get_bytes n p))" "wf_packet p \<Longrightarrow> wf_packet (snd (get_u8 p))"
  "wf_packet p \<Longrightarrow> wf_packet (snd (get_u16 p))" "wf_packet p \<Longrightarrow> wf_packet (snd (get_u32 p))"
  "wf_packet p \<Longrightarrow> wf_packet (snd (get_u64 p))"
  by (simp_all add: get_u8_def get_u16_def get_u32_def get_u64_def get_bytes_def wf_packet_def)

lemma unat_add_ucast: "unat (ucast (w :: u16) + (n :: u32)) = (unat w + unat n) mod 2 ^ 32"
proof -
  have "unat (ucast w :: u32) = unat w"
    using unat_less [of w] by (simp add: unsigned_ucast_eq take_bit_nat_eq_self)
  then show ?thesis by (simp add: unat_word_ariths)
qed

lemma wf_appendArray [packet_wf]:
  assumes "wf_packet p" "appendArray src n p = Inr q"
  shows "wf_packet q"
proof (cases "unat (ucast (pOffset p) + n) < CLIENT_BUFFER_SIZE")
  case False
  with assms show ?thesis by (simp add: appendArray_def)
next
  case True
  then have "(unat (pOffset p) + unat n) mod 2 ^ 32 < 8192" by (simp add: unat_add_ucast)
  moreover from True assms(2) have ok: "unat n \<le> length src" "unat (pOffset p) + unat n \<le> 8192"
    and q: "q = p\<lparr>buffer := overwrite (unat (pOffset p)) (take (unat n) src) (buffer p),
                 pOffset := pOffset p + ucast n, pSize := pSize p + ucast n\<rparr>"
    by (auto simp: appendArray_def copy_ok_def split: if_splits)
  ultimately have "unat (pOffset p) + unat n < 8192" by simp
  with assms(1) ok show ?thesis unfolding q by (intro wf_update wf_overwrite) simp_all
qed

lemma wf_setArray [packet_wf]:
  assumes "wf_packet p" "setArray src n k p = Inr q"
  shows "wf_packet q"
proof (cases "unat (k + n) < CLIENT_BUFFER_SIZE")
  case False
  with assms show ?thesis by (simp add: setArray_def)
next
  case True
  then have "(unat k + unat n) mod 2 ^ 32 < 8192" by (simp add: unat_word_ariths)
  moreover from True assms(2) have ok: "unat n \<le> length src" "unat k + unat n \<le> 8192"
    and q: "q = p\<lparr>buffer := overwrite (unat k) (take (unat n) src) (buffer p)\<rparr>"
    by (auto simp: setArray_def copy_ok_def split: if_splits)
  ultimately have "unat k + unat n < 8192" by simp
  with assms(1) ok show ?thesis unfolding q by (intro wf_overwrite) simp_all
qed

lemma wf_getArray [packet_wf]: "wf_packet p \<Longrightarrow> getArray n p = Inr (r, q) \<Longrightarrow> wf_packet q"
  by (auto simp: getArray_def wf_packet_def split: if_splits)

lemma wf_getStringA [packet_wf]: "wf_packet p \<Longrightarrow> getStringA n p = Inr (r, q) \<Longrightarrow> wf_packet q"
  by (auto simp: getStringA_def wf_packet_def split: if_splits sum.splits)

lemmas packet_wf_simps =
  wf_init wf_clear wf_cursor wf_setType wf_append_bytes wf_appends wf_set_bytes wf_appendString wf_gets

section \<open>String reads stay inside the buffer\<close>

lemma wf_nul_after: "wf_packet p \<Longrightarrow> k < 8192 \<Longrightarrow> 0 \<in> set (drop k (buffer p))"
  by (auto simp: wf_packet_def in_set_conv_nth intro!: exI [of _ "8191 - k"])

lemma c_string_at_wf:
  "wf_packet p \<Longrightarrow> k < 8192 \<Longrightarrow> c_string_at k p = Inr (string_of (cstr (drop k (buffer p))))"
  by (simp add: c_string_at_def wf_nul_after)

lemma getStringA_wf:
  assumes "wf_packet p" "0 < unat n" "unat (pOffset p) + unat n \<le> 8192"
  shows "getStringA n p =
    Inr (string_of (cstr (drop (unat (pOffset p)) (buffer p))), p\<lparr>pOffset := pOffset p + ucast n\<rparr>)"
  using assms
  by (simp add: getStringA_def unat_add_ucast string_max_size_def copy_ok_def c_string_at_wf)

lemma getStringA_past_end:
  assumes "8192 < unat (pOffset p) + unat n" "unat (pOffset p) + unat n < 2 ^ 32"
  shows "getStringA n p = Inr ([], p)"
  using assms by (simp add: getStringA_def unat_add_ucast)

end
