(* ===== verification/Packet_Streams.thy ===== *)
theory Packet_Streams
  imports Packet
begin

text \<open>
  What the packet class promises to the handlers, as two interfaces: a sink, to which a reply is
  written field after field, and a source, from which a request is read field after field. The
  client lemmas say that whole messages are laid out and read as the concatenation of their
  fields. Both are interpreted on the operations of \<open>SERVERPACKET\<close>.
\<close>

section \<open>Sinks\<close>

locale byte_sink =
  fixes put :: "byte list \<Rightarrow> 'p \<Rightarrow> 'p" and contents :: "'p \<Rightarrow> byte list"
    and ok :: "'p \<Rightarrow> bool" and limit :: nat
  assumes put_ok: "ok p \<Longrightarrow> ok (put bs p)"
    and put_fits: "ok p \<Longrightarrow> length (contents p) + length bs < limit \<Longrightarrow>
      contents (put bs p) = contents p @ bs"
    and put_full: "ok p \<Longrightarrow> limit \<le> length (contents p) + length bs \<Longrightarrow> put bs p = p"
begin

lemma put_list_ok: "ok p \<Longrightarrow> ok (fold put bss p)"
  by (induction bss arbitrary: p) (simp_all add: put_ok)

lemma put_list_fits:
  assumes "ok p" "length (contents p) + length (concat bss) < limit"
  shows "contents (fold put bss p) = contents p @ concat bss"
  using assms
proof (induction bss arbitrary: p)
  case (Cons bs bss)
  then have "contents (put bs p) = contents p @ bs" by (intro put_fits) simp_all
  with Cons show ?case by (simp add: put_ok)
qed simp

lemma put_list_bound: "ok p \<Longrightarrow> length (contents p) < limit \<Longrightarrow> length (contents (fold put bss p)) < limit"
proof (induction bss arbitrary: p)
  case (Cons bs bss)
  have "length (contents (put bs p)) < limit"
    using Cons.prems put_fits [of p bs] put_full [of p bs]
    by (cases "length (contents p) + length bs < limit") simp_all
  with Cons show ?case by (simp add: put_ok)
qed simp

end

section \<open>Sources\<close>

fun read_fields :: "(nat \<Rightarrow> 'p \<Rightarrow> byte list \<times> 'p) \<Rightarrow> nat list \<Rightarrow> 'p \<Rightarrow> byte list list \<times> 'p" where
  "read_fields get [] p = ([], p)"
| "read_fields get (n # ns) p =
     (let (bs, q) = get n p; (bss, r) = read_fields get ns q in (bs # bss, r))"

locale byte_source =
  fixes get :: "nat \<Rightarrow> 'p \<Rightarrow> byte list \<times> 'p" and unread :: "'p \<Rightarrow> byte list" and ok :: "'p \<Rightarrow> bool"
  assumes get_ok: "ok p \<Longrightarrow> ok (snd (get n p))"
    and get_fst: "ok p \<Longrightarrow> n \<le> length (unread p) \<Longrightarrow> fst (get n p) = take n (unread p)"
    and get_snd: "ok p \<Longrightarrow> n \<le> length (unread p) \<Longrightarrow> unread (snd (get n p)) = drop n (unread p)"
    and get_past: "ok p \<Longrightarrow> length (unread p) < n \<Longrightarrow> get n p = (replicate n 0, p)"
begin

lemma get_length: "ok p \<Longrightarrow> length (fst (get n p)) = n"
  by (cases "n \<le> length (unread p)") (simp_all add: get_fst get_past)

lemma read_fields_reads:
  assumes "ok p" "unread p = concat bss @ rest"
  shows "fst (read_fields get (map length bss) p) = bss \<and>
         unread (snd (read_fields get (map length bss) p)) = rest"
  using assms
proof (induction bss arbitrary: p)
  case Nil
  then show ?case by simp
next
  case (Cons bs bss)
  have "fst (get (length bs) p) = bs" "unread (snd (get (length bs) p)) = concat bss @ rest"
    using Cons.prems by (simp_all add: get_fst get_snd)
  with Cons show ?case by (simp add: case_prod_beta Let_def get_ok)
qed

end

section \<open>The packet class as a sink\<close>

text \<open>
  A packet is fresh when cursor and size agree and everything from the cursor on is still zero,
  as after \<open>clearBuffer\<close>, \<open>setSize\<close>, \<open>setOffset\<close> and appends that fit.
\<close>

definition written :: "packet \<Rightarrow> byte list" where
  "written p = take (unat (pOffset p)) (buffer p)"

definition fresh :: "packet \<Rightarrow> bool" where
  "fresh p \<longleftrightarrow> wf_packet p \<and> pSize p = pOffset p \<and> unat (pOffset p) < 8192 \<and>
     drop (unat (pOffset p)) (buffer p) = replicate (8192 - unat (pOffset p)) 0"

lemma length_written: "fresh p \<Longrightarrow> length (written p) = unat (pOffset p)"
  by (simp add: written_def fresh_def wf_packet_def)

lemma fresh_wf: "fresh p \<Longrightarrow> wf_packet p"
  by (simp add: fresh_def)

lemma cursor_add:
  assumes "unat (w :: u16) + n < 8192"
  shows "unat (w + word_of_nat n) = unat w + n"
proof -
  have "unat (word_of_nat n :: u16) = n" using assms by (simp add: unat_of_nat)
  then show ?thesis using assms by (simp add: unat_word_ariths)
qed

lemma append_fits:
  assumes "fresh p" "unat (pOffset p) + length bs < 8192"
  shows "written (append_bytes bs p) = written p @ bs \<and> fresh (append_bytes bs p)"
proof -
  let ?k = "unat (pOffset p)" and ?q = "append_bytes bs p"
  have q: "unat (pOffset ?q) = ?k + length bs" "buffer ?q = overwrite ?k bs (buffer p)"
    "pSize ?q = pOffset ?q"
    using assms by (simp_all add: append_bytes_def cursor_add fresh_def)
  have len: "length (buffer p) = 8192" using assms(1) by (simp add: fresh_def wf_packet_def)
  have "drop (?k + length bs) (buffer ?q) = drop (length bs) (drop ?k (buffer p))"
    using assms len by (simp add: q overwrite_def add.commute)
  also have "\<dots> = replicate (8192 - (?k + length bs)) 0"
    using assms by (simp add: fresh_def)
  finally have "fresh ?q"
    using assms wf_append_bytes [of p bs] by (simp add: fresh_def q)
  moreover have "written ?q = written p @ bs"
    using assms(2) len by (simp add: written_def q overwrite_def)
  ultimately show ?thesis by simp
qed

lemma append_full: "\<not> unat (pOffset p) + length bs < 8192 \<Longrightarrow> append_bytes bs p = p"
  by (simp add: append_bytes_def)

interpretation pk: byte_sink append_bytes written fresh 8192
proof
  fix p bs assume p: "fresh p"
  show "fresh (append_bytes bs p)"
    using p append_fits [of p bs] append_full [of p bs]
    by (cases "unat (pOffset p) + length bs < 8192") simp_all
  show "written (append_bytes bs p) = written p @ bs" if "length (written p) + length bs < 8192"
    using p that append_fits [of p bs] by (simp add: length_written)
  show "append_bytes bs p = p" if "8192 \<le> length (written p) + length bs"
    using p that append_full [of p bs] by (simp add: length_written)
qed

text \<open>
  A padded string field is an append of the padded text, if the string is no longer than the
  field.
\<close>

definition pad_field :: "nat \<Rightarrow> cppstring \<Rightarrow> byte list" where
  "pad_field n s = cstr (bytes_of s) @ replicate (n - length (cstr (bytes_of s))) 0"

lemma length_pad_field: "length s \<le> n \<Longrightarrow> length (pad_field n s) = n"
  using length_cstr [of "bytes_of s"] by (simp add: pad_field_def)

lemma overwrite_zeros:
  assumes "drop k xs = replicate m (0 :: byte)" "length bs + i \<le> m" "length xs = k + m"
  shows "overwrite k (bs @ replicate i 0) xs = overwrite k bs xs"
proof -
  have "drop (k + j) xs = replicate (m - j) 0" for j
    by (metis add.commute assms(1) drop_drop drop_replicate)
  from this [of "length bs"] this [of "length bs + i"] show ?thesis
    using assms(2,3)
    by (simp add: overwrite_def add.assoc)
       (metis add.commute diff_diff_left le_add_diff_inverse2 le_diff_conv2 ordered_cancel_comm_monoid_diff_class.add_diff_inverse
         replicate_add add_leD1 add_leD2)
qed

lemma appendString_as_pads:
  assumes "fresh p" "length s \<le> unat n" "unat (pOffset p) + unat n < 8192"
  shows "snd (appendString_as s n p) = append_bytes (pad_field (unat n) s) p"
proof -
  let ?k = "unat (pOffset p)" and ?c = "cstr (bytes_of s)"
  have c: "length ?c \<le> length s" using length_cstr [of "bytes_of s"] by simp
  have z: "drop ?k (buffer p) = replicate (8192 - ?k) 0" "length (buffer p) = ?k + (8192 - ?k)"
    using assms(1) by (simp_all add: fresh_def wf_packet_def)
  have "overwrite ?k (?c @ replicate 1 0) (buffer p) = overwrite ?k ?c (buffer p)"
    using assms c by (intro overwrite_zeros [OF z(1)] z(2)) simp
  moreover have "overwrite ?k (pad_field (unat n) s) (buffer p) = overwrite ?k ?c (buffer p)"
    unfolding pad_field_def using assms c by (intro overwrite_zeros [OF z(1)] z(2)) simp
  moreover have "ucast n = (word_of_nat (unat n) :: u16)" by simp
  ultimately show ?thesis
    using assms c
    by (simp add: appendString_as_def append_bytes_def length_pad_field strcpy_bytes_def)
qed

section \<open>The packet class as a source\<close>

definition unread :: "packet \<Rightarrow> byte list" where
  "unread p = drop (unat (pOffset p)) (buffer p)"

interpretation pk: byte_source get_bytes unread wf_packet
proof
  fix p n assume p: "wf_packet p"
  show "wf_packet (snd (get_bytes n p))" using p by (rule packet_wf)
  have len: "length (buffer p) = 8192" using p by (rule wf_length)
  show "fst (get_bytes n p) = take n (unread p)" if "n \<le> length (unread p)"
    using that len by (cases "8192 < unat (pOffset p) + n") (auto simp: get_bytes_def unread_def block_def)
  show "unread (snd (get_bytes n p)) = drop n (unread p)" if "n \<le> length (unread p)"
  proof (cases "n = 0")
    case False
    then have le: "unat (pOffset p) + n \<le> 8192" using that len by (simp add: unread_def)
    then have "unat (pOffset p + word_of_nat n) = unat (pOffset p) + n"
      by (simp add: unat_word_ariths unat_of_nat)
    with le show ?thesis by (simp add: get_bytes_def unread_def add.commute)
  qed (simp add: get_bytes_def unread_def)
  show "get_bytes n p = (replicate n 0, p)" if "length (unread p) < n"
  proof -
    have "8192 < unat (pOffset p) + n" using that len by (simp add: unread_def)
    then show ?thesis by (simp add: get_bytes_def)
  qed
qed

text \<open>The header every reply starts with: size and cursor at 6, type and subtype stored.\<close>

definition reply_header :: "u16 \<Rightarrow> u16 \<Rightarrow> packet" where
  "reply_header t sub =
     setSubType sub (setType t (setOffset 6 (setSize 6 (clearBuffer init_packet))))"

lemma zero_buffer_split: "i + j = 8192 \<Longrightarrow> zero_buffer = replicate i 0 @ replicate j 0"
  by (simp add: zero_buffer_def flip: replicate_add)

lemma take_zero_buffer: "n \<le> 8192 \<Longrightarrow> take n zero_buffer = replicate n 0"
  by (simp add: zero_buffer_def)

lemma drop_zero_buffer: "drop n zero_buffer = replicate (8192 - n) 0"
  by (simp add: zero_buffer_def)

lemma reply_header_buffer:
  "buffer (reply_header t sub) = [0, 0] @ u16_bytes t @ u16_bytes sub @ replicate 8186 0"
proof -
  have "overwrite 2 (u16_bytes t) zero_buffer = [0, 0] @ u16_bytes t @ replicate 8188 0"
    by (simp add: overwrite_def take_zero_buffer drop_zero_buffer numeral_2_eq_2)
  then have "overwrite 4 (u16_bytes sub) (overwrite 2 (u16_bytes t) zero_buffer) =
      [0, 0] @ u16_bytes t @ u16_bytes sub @ replicate 8186 0"
    by (simp add: overwrite_def)
  then show ?thesis
    by (simp add: reply_header_def setSubType_def setType_def setOffset_def setSize_def clearBuffer_def)
qed

lemma reply_header_fresh: "fresh (reply_header t sub)"
  and reply_header_written: "written (reply_header t sub) = [0, 0] @ u16_bytes t @ u16_bytes sub"
proof -
  have o: "pOffset (reply_header t sub) = 6" "pSize (reply_header t sub) = 6"
    by (simp_all add: reply_header_def setSubType_def setType_def setOffset_def setSize_def clearBuffer_def)
  have wf: "wf_packet (reply_header t sub)"
    unfolding reply_header_def by (intro packet_wf)
  show "fresh (reply_header t sub)"
    using wf by (simp add: fresh_def o reply_header_buffer)
  show "written (reply_header t sub) = [0, 0] @ u16_bytes t @ u16_bytes sub"
    by (simp add: written_def o reply_header_buffer)
qed

text \<open>A message built from fields that fit reads back as these fields.\<close>

lemma message_layout:
  assumes "6 + length (concat bss) < 8192"
  shows "written (fold append_bytes bss (reply_header t sub)) =
    [0, 0] @ u16_bytes t @ u16_bytes sub @ concat bss"
  using pk.put_list_fits [OF reply_header_fresh, of t sub bss] assms
  by (simp add: reply_header_written)

lemma message_readback:
  assumes "6 + length (concat bss) < 8192"
  shows "fst (read_fields get_bytes (map length bss)
           (setOffset 6 (fold append_bytes bss (reply_header t sub)))) = bss"
proof -
  define m where "m = fold append_bytes bss (reply_header t sub)"
  have f: "wf_packet m" unfolding m_def by (intro fresh_wf pk.put_list_ok reply_header_fresh)
  have "written m = ([0, 0] @ u16_bytes t @ u16_bytes sub) @ concat bss"
    using message_layout [OF assms, of t sub] by (simp add: m_def)
  then have "buffer m = ([0, 0] @ u16_bytes t @ u16_bytes sub) @ concat bss @ drop (unat (pOffset m)) (buffer m)"
    unfolding written_def by (metis append_assoc append_take_drop_id)
  then have "drop 6 (buffer m) =
      drop 6 (([0, 0] @ u16_bytes t @ u16_bytes sub) @ concat bss @ drop (unat (pOffset m)) (buffer m))"
    by (rule arg_cong)
  also have "\<dots> = concat bss @ drop (unat (pOffset m)) (buffer m)" by simp
  finally have "drop 6 (buffer m) = concat bss @ drop (unat (pOffset m)) (buffer m)" .
  then have "unread (setOffset 6 m) = concat bss @ drop (unat (pOffset m)) (buffer m)"
    by (simp add: unread_def setOffset_def)
  moreover have "wf_packet (setOffset 6 m)" using f by (rule packet_wf)
  ultimately show ?thesis
    unfolding m_def [symmetric] using pk.read_fields_reads by blast
qed

end
