(* ===== verification/Client.thy ===== *)
theory Client
  imports Packet_Streams
begin

text \<open>
  The class \<open>CLIENT\<close> (client.h, client.cpp): the slot of one connection, with its receive and send
  buffers, the two packets it works with, and the queue of frames that wait to be sent.
  \<open>ProcessPacket\<close>, which needs the handlers, is in theory Dispatch. The mutex only serialises the
  queue operations, each of which is one step here. \<open>connection_index\<close> and \<open>rcvread\<close> are
  \<open>uint32_t\<close>; \<open>snddata\<close> is \<open>int32_t\<close> and \<open>lastHeartBeat\<close> a 64-bit \<open>time_t\<close>, and neither comes near
  its bounds.
\<close>

record client =
  ClientSocket :: int
  todc :: bool
  isAuth :: bool
  lastHeartBeat :: int
  snddata :: int
  connection_index :: u32
  rcvread :: u32
  packetsize :: u16
  packetoffset :: u16
  hassize :: bool
  packetready :: bool
  IP_Address :: "byte list"
  ipaddr :: "byte list"
  rcvbuf :: "byte list"
  sndbuf :: "byte list"
  key :: "byte list"
  iv :: "byte list"
  inbuf :: packet
  outbuf :: packet
  sendQueue :: "byte list list"

section \<open>Operations\<close>

definition SetAuth :: "client \<Rightarrow> client" where
  "SetAuth c = c\<lparr>isAuth := True\<rparr>"

definition ClearAuth :: "client \<Rightarrow> client" where
  "ClearAuth c = c\<lparr>isAuth := False\<rparr>"

definition ClearSendQueue :: "client \<Rightarrow> client" where
  "ClearSendQueue c = c\<lparr>sendQueue := []\<rparr>"

text \<open>\<open>Initialize\<close> does not touch \<open>hassize\<close> and \<open>packetready\<close>.\<close>

definition Initialize :: "client \<Rightarrow> client" where
  "Initialize c = ClearSendQueue
     (c\<lparr>ClientSocket := - 1, todc := False, isAuth := False, lastHeartBeat := 0, snddata := 0,
        connection_index := 0, rcvread := 0, packetsize := 0, packetoffset := 0,
        IP_Address := replicate 16 0, ipaddr := replicate 4 0,
        inbuf := clearBuffer (inbuf c), outbuf := clearBuffer (outbuf c),
        rcvbuf := zero_buffer, sndbuf := zero_buffer,
        key := replicate KEY_SIZE 0, iv := replicate BLOCK_SIZE 0\<rparr>)"

text \<open>
  The constructor runs \<open>Initialize\<close>, so the two flags it leaves out keep whatever the memory
  held: the arguments.
\<close>

definition new_CLIENT :: "bool \<Rightarrow> bool \<Rightarrow> client" where
  "new_CLIENT hs pr = Initialize
     \<lparr>ClientSocket = - 1, todc = False, isAuth = False, lastHeartBeat = 0, snddata = 0,
      connection_index = 0, rcvread = 0, packetsize = 0, packetoffset = 0, hassize = hs,
      packetready = pr, IP_Address = [], ipaddr = [], rcvbuf = [], sndbuf = [], key = [], iv = [],
      inbuf = init_packet, outbuf = init_packet, sendQueue = []\<rparr>"

definition Disconnect :: "client \<Rightarrow> client" where
  "Disconnect c = c\<lparr>todc := True\<rparr>"

text \<open>
  With \<open>DISABLE_ENCRYPTION\<close>, \<open>Encrypt\<close> and \<open>Decrypt\<close> copy \<open>len\<close> bytes and return \<open>len\<close>; \<open>src\<close> is
  the memory from the source pointer on. \<open>Compress\<close> and \<open>Decompress\<close> are stubs of the source.
\<close>

definition Encrypt :: "byte list \<Rightarrow> int \<Rightarrow> fault + (byte list \<times> int)" where
  "Encrypt src len =
     (if len < 0 \<or> length src < nat len then Inl OutOfBounds else Inr (take (nat len) src, len))"

definition Decrypt :: "byte list \<Rightarrow> int \<Rightarrow> fault + (byte list \<times> int)" where
  "Decrypt src len =
     (if len < 0 \<or> length src < nat len then Inl OutOfBounds else Inr (take (nat len) src, len))"

definition Compress :: "byte list \<Rightarrow> int \<Rightarrow> int" where
  "Compress src len = 0"

definition Decompress :: "byte list \<Rightarrow> int \<Rightarrow> int" where
  "Decompress src len = 0"

text \<open>
  A queue entry is a whole buffer: the size in the first two bytes, then the packet, then zeros.
\<close>

definition queue_entry :: "packet \<Rightarrow> byte list" where
  "queue_entry src =
     (let n = min (unat (pSize src) + 2) (CLIENT_BUFFER_SIZE - 2)
      in overwrite 0 (take n (buffer src)) zero_buffer)"

definition AddToSendQueue :: "packet \<Rightarrow> client \<Rightarrow> packet \<times> client" where
  "AddToSendQueue src c =
     (let src' = src\<lparr>buffer := overwrite 0 (u16_bytes (pSize src)) (buffer src)\<rparr>
      in (src', c\<lparr>sendQueue := sendQueue c @ [queue_entry src']\<rparr>))"

definition GetFromSendQueue :: "client \<Rightarrow> byte list \<times> client" where
  "GetFromSendQueue c =
     (case sendQueue c of [] \<Rightarrow> (zero_buffer, c) | e # q \<Rightarrow> (e, c\<lparr>sendQueue := q\<rparr>))"

text \<open>
  The order of the two tests is the source's: past 10 messages it only logs, so the second branch,
  which disconnects, is never taken.
\<close>

definition MessagesInSendQueue :: "client \<Rightarrow> nat \<times> client" where
  "MessagesInSendQueue c =
     (if 10 < length (sendQueue c) then (length (sendQueue c), c)
      else if 100 < length (sendQueue c) then (0, Disconnect c)
      else (length (sendQueue c), c))"

section \<open>Send\<close>

text \<open>
  The loop that pads the packet to a multiple of 16 bytes, and to more than 16. \<open>append\<close> does
  nothing at the end of the buffer, and then the loop never ends: \<open>None\<close>.
\<close>

definition needs_padding :: "packet \<Rightarrow> bool" where
  "needs_padding p \<longleftrightarrow> unat (pSize p) mod 16 \<noteq> 0 \<or> unat (pSize p) \<le> 16"

definition pad_loop :: "packet \<Rightarrow> packet option" where
  "pad_loop = while_option needs_padding (append_u8 0)"

text \<open>
  \<open>Send(src)\<close>, on the slot and the packet it is given (\<open>src\<close> is the slot's own \<open>outbuf\<close> or, in a
  broadcast, that of another slot); both come back changed.
\<close>

definition Send_packet :: "packet \<Rightarrow> client \<Rightarrow> fault + (packet \<times> client)" where
  "Send_packet src c =
     (if 0 \<le> ClientSocket c
      then if CLIENT_BUFFER_SIZE < unat (pSize src) + 15 then Inr (src, Disconnect c)
      else if int (unat (pSize src)) - 4 < 0 \<or> CLIENT_BUFFER_SIZE < unat (pSize src)
      then Inr (src, c)
      else (case pad_loop (setSize (pSize src - 2) src) of
              None \<Rightarrow> Inl Diverges
            | Some src1 \<Rightarrow>
                if isAuth c
                then if CLIENT_BUFFER_SIZE < unat (pSize src1) + BLOCK_SIZE then Inr (src1, c)
                     else (case Encrypt (drop 2 (buffer src1)) (int (unat (pSize src1))) of
                             Inl e \<Rightarrow> Inl e
                           | Inr (bs, n) \<Rightarrow>
                               let src2 = src1\<lparr>buffer := overwrite 2 bs (buffer src1)\<rparr>
                               in if n < int BLOCK_SIZE then Inr (src2, c)
                                  else Inr (AddToSendQueue src2 c))
                else Inr (AddToSendQueue src1 c))
      else Inr (src, c))"

text \<open>\<open>Send()\<close> of the slot's own \<open>outbuf\<close>.\<close>

definition Send_out :: "client \<Rightarrow> fault + client" where
  "Send_out c = (case Send_packet (outbuf c) c of
                   Inl e \<Rightarrow> Inl e | Inr (p, c') \<Rightarrow> Inr (c'\<lparr>outbuf := p\<rparr>))"

text \<open>
  \<open>sendAuth\<close> and \<open>SendHeartBeat\<close>. The results of \<open>rand()\<close> and \<open>timeGetTime()\<close> are arguments.
\<close>

definition sendAuth :: "u32 \<Rightarrow> client \<Rightarrow> fault + client" where
  "sendAuth rnd c =
     (let p = setOffset 6 (setSize 6 (setSubType 0 (setType 0 (clearBuffer (outbuf c)))));
          p = append_u32 (rnd div 8) (append_u32 rnd p);
          p = snd (appendString_as ''Tofuman'' 0x10 p)
      in Send_out (c\<lparr>outbuf := p\<rparr>))"

definition SendHeartBeat :: "u32 \<Rightarrow> client \<Rightarrow> fault + client" where
  "SendHeartBeat currTime c =
     (let p = setOffset 6 (setSize 6 (setSubType 1 (setType 0 (clearBuffer (outbuf c)))))
      in Send_out (c\<lparr>outbuf := append_u32 currTime p\<rparr>))"

section \<open>Padding\<close>

text \<open>The size the loop stops at, and the number of bytes it appends.\<close>

definition padded_size :: "nat \<Rightarrow> nat" where
  "padded_size n = max 32 (16 * ((n + 15) div 16))"

lemma padded_size_props:
  "n \<le> padded_size n" "padded_size n mod 16 = 0" "32 \<le> padded_size n"
  "padded_size n \<le> max 32 (n + 15)"
proof -
  have "16 * ((n + 15) div 16) + (n + 15) mod 16 = n + 15" "(n + 15) mod 16 < 16" by simp_all
  then show "n \<le> padded_size n" "padded_size n \<le> max 32 (n + 15)" unfolding padded_size_def by linarith+
  show "padded_size n mod 16 = 0" "32 \<le> padded_size n" by (simp_all add: padded_size_def max_def)
qed

lemma padded_size_fix: "padded_size n = n \<longleftrightarrow> n mod 16 = 0 \<and> 16 < n"
proof
  assume "padded_size n = n"
  then show "n mod 16 = 0 \<and> 16 < n" using padded_size_props(2,3) [of n] by simp
next
  assume n: "n mod 16 = 0 \<and> 16 < n"
  then obtain k where k: "n = 16 * k" by (metis mod_0_imp_dvd dvdE)
  then have "2 \<le> k" using n by simp
  with k show "padded_size n = n" by (simp add: padded_size_def max_def)
qed

lemma padded_size_Suc:
  assumes "padded_size n \<noteq> n"
  shows "padded_size (Suc n) = padded_size n"
proof (cases "n < 32")
  case True
  then have "(n + 15) div 16 \<le> 2" "(Suc n + 15) div 16 \<le> 2"
    by (simp_all add: div_le_mono [of _ 47 16, simplified])
  then show ?thesis by (simp add: padded_size_def max_def)
next
  case False
  with assms have "(n + 16) mod 16 \<noteq> 0" by (simp add: padded_size_fix)
  then have "Suc (n + 15) div 16 = (n + 15) div 16" by (subst div_Suc) simp
  then show ?thesis by (simp add: padded_size_def)
qed

lemma needs_padding_iff: "needs_padding p \<longleftrightarrow> padded_size (unat (pSize p)) \<noteq> unat (pSize p)"
  by (auto simp: needs_padding_def padded_size_fix)

lemma pad_loop_done: "\<not> needs_padding p \<Longrightarrow> pad_loop p = Some p"
  by (simp add: pad_loop_def while_option_unfold)

lemma pad_loop_step: "needs_padding p \<Longrightarrow> pad_loop p = pad_loop (append_u8 0 p)"
  unfolding pad_loop_def by (subst while_option_unfold) simp

lemma append_bytes_Nil [simp]: "append_bytes [] p = p"
  by (simp add: append_bytes_def)

lemma append_append:
  assumes "wf_packet p" "unat (pOffset p) + length as + length bs < 8192"
  shows "append_bytes bs (append_bytes as p) = append_bytes (as @ bs) p"
  using assms
  by (simp add: append_bytes_def cursor_add overwrite_append wf_length add.assoc)

lemma append_zero:
  assumes "wf_packet p" "unat (pOffset p) + Suc m < 8192"
  shows "append_bytes (replicate m 0) (append_u8 0 p) = append_bytes (replicate (Suc m) 0) p"
  using append_append [of p "[0]" "replicate m 0"] assms
  by (simp add: append_u8_def le_bytes_def)

lemma append_u8_cursor:
  assumes "unat (pOffset p) + 1 < 8192" "unat (pSize p) + 1 < 65536"
  shows "unat (pOffset (append_u8 b p)) = unat (pOffset p) + 1"
    and "unat (pSize (append_u8 b p)) = unat (pSize p) + 1"
  using assms cursor_add [of "pOffset p" 1]
  by (simp_all add: append_u8_def append_bytes_def unat_word_ariths)

text \<open>With room for the padding, the loop ends, and it has appended that many zeros.\<close>

lemma pad_loop_Some:
  assumes "wf_packet p" "padded_size (unat (pSize p)) = unat (pSize p) + m"
    and "unat (pOffset p) + m < 8192" "unat (pSize p) + m < 65536"
  shows "pad_loop p = Some (append_bytes (replicate m 0) p)"
  using assms
proof (induction m arbitrary: p)
  case 0
  then show ?case by (simp add: pad_loop_done needs_padding_iff)
next
  case (Suc m)
  have n: "needs_padding p" using Suc.prems(2) by (simp add: needs_padding_iff)
  have c: "unat (pOffset (append_u8 0 p)) = unat (pOffset p) + 1"
    "unat (pSize (append_u8 0 p)) = unat (pSize p) + 1"
    using Suc.prems by (simp_all add: append_u8_cursor)
  have "pad_loop (append_u8 0 p) = Some (append_bytes (replicate m 0) (append_u8 0 p))"
    using Suc.prems c padded_size_Suc [of "unat (pSize p)"]
    by (intro Suc.IH wf_appends(1)) simp_all
  then show ?case
    using Suc.prems append_zero [of p m] by (simp add: pad_loop_step [OF n])
qed

text \<open>Without that room it never ends.\<close>

lemma pad_loop_stuck:
  assumes "needs_padding p" "8192 \<le> unat (pOffset p) + 1"
  shows "pad_loop p = None"
proof -
  have id: "append_u8 0 p = p" using assms(2) by (simp add: append_u8_def append_bytes_def)
  have "(append_u8 0 ^^ k) p = p" for k by (induction k) (simp_all add: id)
  then show ?thesis using assms(1) by (simp add: pad_loop_def while_option_def)
qed

lemma pad_loop_None:
  assumes "padded_size (unat (pSize p)) = unat (pSize p) + m" "0 < m"
    and "8192 \<le> unat (pOffset p) + m" "unat (pSize p) + m < 65536"
  shows "pad_loop p = None"
  using assms
proof (induction m arbitrary: p)
  case (Suc m)
  have n: "needs_padding p" using Suc.prems(1) by (simp add: needs_padding_iff)
  show ?case
  proof (cases "8192 \<le> unat (pOffset p) + 1")
    case False
    then have c: "unat (pOffset (append_u8 0 p)) = unat (pOffset p) + 1"
      "unat (pSize (append_u8 0 p)) = unat (pSize p) + 1"
      using Suc.prems by (simp_all add: append_u8_cursor)
    have "pad_loop (append_u8 0 p) = None"
      using Suc.prems c padded_size_Suc [of "unat (pSize p)"] False by (intro Suc.IH) simp_all
    then show ?thesis by (simp add: pad_loop_step [OF n])
  qed (simp add: pad_loop_stuck n)
qed simp

section \<open>The frame a send queues\<close>

text \<open>
  A frame on the wire: the padded size in two bytes, then type, subtype and payload, then zeros.
\<close>

definition frame :: "byte list \<Rightarrow> byte list" where
  "frame body =
     u16_bytes (word_of_nat (padded_size (length body))) @ body @
     replicate (padded_size (length body) - length body) 0"

definition padded_entry :: "byte list \<Rightarrow> byte list" where
  "padded_entry fr = fr @ replicate (CLIENT_BUFFER_SIZE - length fr) 0"

lemma length_frame: "length (frame body) = padded_size (length body) + 2"
  using padded_size_props(1) [of "length body"] by (simp add: frame_def)

text \<open>
  \<open>Send\<close> on every packet it accepts: the size drops by the two bytes of the length field, the
  packet is padded, and the frame is queued; encryption being disabled, the branch for an
  authenticated peer does the same. \<open>padding_of p\<close> zeros are appended at the cursor.
\<close>

definition padding_of :: "packet \<Rightarrow> nat" where
  "padding_of p = padded_size (unat (pSize p) - 2) - (unat (pSize p) - 2)"

definition padded :: "packet \<Rightarrow> packet" where
  "padded p = append_bytes (replicate (padding_of p) 0) (setSize (pSize p - 2) p)"

definition sendable :: "packet \<Rightarrow> bool" where
  "sendable p \<longleftrightarrow> wf_packet p \<and> 4 \<le> unat (pSize p) \<and> unat (pSize p) \<le> 8177"

lemma sendable_size:
  assumes "sendable p"
  shows "unat (pSize p - 2) = unat (pSize p) - 2"
    and "padded_size (unat (pSize p) - 2) = unat (pSize p) - 2 + padding_of p"
    and "padded_size (unat (pSize p) - 2) \<le> 8176"
proof -
  have "2 \<le> pSize p" using assms by (simp add: sendable_def word_le_nat_alt)
  then show "unat (pSize p - 2) = unat (pSize p) - 2" by (simp add: unat_sub)
  show "padded_size (unat (pSize p) - 2) = unat (pSize p) - 2 + padding_of p"
    using padded_size_props(1) [of "unat (pSize p) - 2"] by (simp add: padding_of_def)
  show "padded_size (unat (pSize p) - 2) \<le> 8176"
  proof -
    have "x mod 16 = 0 \<Longrightarrow> x \<le> 8190 \<Longrightarrow> x \<le> 8176" for x :: nat by presburger
    then show ?thesis
      using padded_size_props(2,4) [of "unat (pSize p) - 2"] assms
      by (simp add: sendable_def max_def split: if_splits)
  qed
qed

lemma uint_less_numeral: "uint (w :: u16) < numeral k \<longleftrightarrow> unat w < numeral k"
  using of_nat_less_iff [where ?'a = int, of "unat w" "numeral k"] by simp

lemma padded_run:
  assumes "sendable p" "unat (pOffset p) + padding_of p < 8192"
  shows "pad_loop (setSize (pSize p - 2) p) = Some (padded p)"
    and "unat (pSize (padded p)) = padded_size (unat (pSize p) - 2)"
    and "unat (pOffset (padded p)) = unat (pOffset p) + padding_of p"
    and "wf_packet (padded p)"
proof -
  let ?q = "setSize (pSize p - 2) p"
  note sz = sendable_size [OF assms(1)]
  have q: "pSize ?q = pSize p - 2" "pOffset ?q = pOffset p" "wf_packet ?q"
    using assms(1) by (simp_all add: setSize_def sendable_def wf_packet_def)
  show "pad_loop ?q = Some (padded p)"
    unfolding padded_def using q sz assms(2) by (intro pad_loop_Some) simp_all
  show "unat (pOffset (padded p)) = unat (pOffset p) + padding_of p"
    using assms(2) q by (simp add: padded_def append_bytes_def cursor_add)
  show "unat (pSize (padded p)) = padded_size (unat (pSize p) - 2)"
    using assms(2) q sz cursor_add [of "pSize p - 2" "padding_of p"]
    by (simp add: padded_def append_bytes_def)
  show "wf_packet (padded p)" unfolding padded_def using q(3) by (rule wf_append_bytes)
qed

lemma Encrypt_in_place:
  assumes "wf_packet p" "2 + n \<le> 8192"
  shows "Encrypt (drop 2 (buffer p)) (int n) = Inr (block 2 n (buffer p), int n)"
    and "overwrite 2 (block 2 n (buffer p)) (buffer p) = buffer p"
proof -
  have "take n (drop 2 (buffer p)) @ drop (2 + n) (buffer p) = drop 2 (buffer p)"
    by (metis add.commute append_take_drop_id drop_drop)
  then show "overwrite 2 (block 2 n (buffer p)) (buffer p) = buffer p"
    using assms by (simp add: overwrite_def block_def wf_length)
  show "Encrypt (drop 2 (buffer p)) (int n) = Inr (block 2 n (buffer p), int n)"
    using assms by (simp add: Encrypt_def block_def wf_length)
qed

lemma Send_runs:
  assumes "0 \<le> ClientSocket c" "sendable p" "unat (pOffset p) + padding_of p < 8192"
  shows "Send_packet p c = Inr (AddToSendQueue (padded p) c)"
proof -
  note pad = padded_run [OF assms(2,3)] and sz = sendable_size [OF assms(2)]
  have n: "unat (pSize (padded p)) \<le> 8176" "16 \<le> unat (pSize (padded p))"
    using pad(2) sz(3) padded_size_props(3) [of "unat (pSize p) - 2"] by simp_all
  have range: "\<not> CLIENT_BUFFER_SIZE < unat (pSize p) + 15" "\<not> int (unat (pSize p)) - 4 < 0"
    "\<not> CLIENT_BUFFER_SIZE < unat (pSize p)"
    using assms(2) by (simp_all add: sendable_def uint_less_numeral)
  note e = Encrypt_in_place [OF pad(4), of "unat (pSize (padded p))"]
  show ?thesis
    using assms(1) range n e
    by (simp add: Send_packet_def pad(1) BLOCK_SIZE_def Let_def uint_less_numeral)
qed

text \<open>When the padding does not fit behind the cursor, \<open>Send\<close> never returns.\<close>

lemma Send_diverges:
  assumes "0 \<le> ClientSocket c" "sendable p" "0 < padding_of p"
    and "8192 \<le> unat (pOffset p) + padding_of p"
  shows "Send_packet p c = Inl Diverges"
proof -
  note sz = sendable_size [OF assms(2)]
  have "pad_loop (setSize (pSize p - 2) p) = None"
    using sz assms(3,4) by (intro pad_loop_None) (auto simp: setSize_def)
  then show ?thesis using assms(1,2) by (simp add: Send_packet_def sendable_def uint_less_numeral)
qed

lemma Send_rejects:
  "0 \<le> ClientSocket c \<Longrightarrow> 8177 < unat (pSize p) \<Longrightarrow> Send_packet p c = Inr (p, Disconnect c)"
  "0 \<le> ClientSocket c \<Longrightarrow> unat (pSize p) < 4 \<Longrightarrow> Send_packet p c = Inr (p, c)"
  "ClientSocket c < 0 \<Longrightarrow> Send_packet p c = Inr (p, c)"
  by (simp_all add: Send_packet_def uint_less_numeral)

lemma take_overwrite_head:
  "length u = 2 \<Longrightarrow> take (n + 2) (overwrite 0 u xs) = u @ take n (drop 2 xs)"
  by (simp add: overwrite_def numeral_2_eq_2)

text \<open>The bytes queued, when the cursor is at the size (a reply as the handlers build it).\<close>

lemma frame_of_padded:
  assumes "sendable p" "pOffset p = pSize p"
  shows "queue_entry (fst (AddToSendQueue (padded p) c)) = padded_entry (frame (drop 2 (written p)))"
proof -
  let ?s = "unat (pSize p)" and ?m = "padding_of p" and ?b = "buffer p"
  note sz = sendable_size [OF assms(1)]
  have s: "4 \<le> ?s" "?s \<le> 8177" and len: "length ?b = 8192"
    using assms(1) by (simp_all add: sendable_def wf_packet_def)
  have room: "unat (pOffset p) + ?m < 8192" using sz(2,3) s assms(2) by simp
  note pad = padded_run [OF assms(1) room]
  define n where "n = padded_size (?s - 2)"
  have n: "n = ?s - 2 + ?m" "n \<le> 8176" using sz by (simp_all add: n_def)
  have size: "pSize (padded p) = word_of_nat n"
    unfolding n_def pad(2) [symmetric] by simp
  have buf: "buffer (padded p) = overwrite ?s (replicate ?m 0) ?b"
    using room assms(2) by (simp add: padded_def append_bytes_def setSize_def)
  have body: "length (drop 2 (written p)) = ?s - 2"
    using len s assms(2) by (simp add: written_def)
  have "take (n + 2) (overwrite 0 (u16_bytes (word_of_nat n)) (overwrite ?s (replicate ?m 0) ?b)) =
      frame (drop 2 (written p))"
  proof -
    define a where "a = drop 2 (written p)"
    have a: "length a = ?s - 2" "drop 2 (take ?s ?b) = a"
      using body assms(2) by (simp_all add: a_def written_def)
    have "drop 2 (overwrite ?s (replicate ?m 0) ?b) = a @ replicate ?m 0 @ drop (?s + ?m) ?b"
      using s len a(2) by (simp add: overwrite_def)
    then have "take n (drop 2 (overwrite ?s (replicate ?m 0) ?b)) = a @ replicate ?m 0"
      using n(1) a(1) by simp
    moreover have "padded_size (length a) = n" using a(1) by (simp add: n_def)
    ultimately show ?thesis
      using n(1) a(1) by (subst take_overwrite_head) (simp_all add: frame_def flip: a_def)
  qed
  note fr = this
  have "unat (pSize (padded p)) = n" using pad(2) by (simp add: n_def)
  then have "queue_entry (fst (AddToSendQueue (padded p) c)) =
      overwrite 0 (take (n + 2) (overwrite 0 (u16_bytes (word_of_nat n)) (overwrite ?s (replicate ?m 0) ?b)))
        zero_buffer"
    using n(2) by (simp add: queue_entry_def AddToSendQueue_def Let_def size buf)
  also have "\<dots> = overwrite 0 (frame (drop 2 (written p))) zero_buffer" by (simp only: fr)
  also have "\<dots> = padded_entry (frame (drop 2 (written p)))"
    by (simp add: padded_entry_def overwrite_def drop_zero_buffer)
  finally show ?thesis .
qed

text \<open>The main fact about \<open>Send\<close>: a fresh packet is queued as one frame of its bytes.\<close>

lemma Send_frame:
  assumes "0 \<le> ClientSocket c" "fresh p" "4 \<le> unat (pSize p)" "unat (pSize p) \<le> 8177"
  shows "\<exists>p'. Send_packet p c =
    Inr (p', c\<lparr>sendQueue := sendQueue c @ [padded_entry (frame (drop 2 (written p)))]\<rparr>)"
proof -
  have s: "sendable p" "pOffset p = pSize p" using assms by (simp_all add: sendable_def fresh_def)
  have "unat (pOffset p) + padding_of p < 8192"
    using sendable_size [OF s(1)] s(2) assms(3) by simp
  then show ?thesis
    using Send_runs [OF assms(1) s(1)] frame_of_padded [OF s, of c]
    by (simp add: AddToSendQueue_def Let_def)
qed

end
