(* ===== verification/Database.thy ===== *)
theory Database
  imports Globals
begin

text \<open>
  The class \<open>Database\<close> (database.h, database.cpp): one object over either the SQLite or the MySQL
  client library. The two libraries are not part of the program: the calls the class makes are
  the fields of \<open>dbapi\<close>, functions on the library's own state \<open>'d\<close>, and every operation takes
  such a record. Result rows are \<open>std::map<std::string, std::string>\<close>: lists of pairs sorted by
  key.
\<close>

section \<open>Rows\<close>

type_synonym row = "(cppstring \<times> cppstring) list"

text \<open>\<open>std::map::insert\<close> keeps an entry that is already there.\<close>

fun map_insert :: "cppstring \<Rightarrow> cppstring \<Rightarrow> row \<Rightarrow> row" where
  "map_insert k v [] = [(k, v)]"
| "map_insert k v ((k', v') # r) =
     (if k < k' then (k, v) # (k', v') # r
      else if k = k' then (k', v') # r
      else (k', v') # map_insert k v r)"

definition row_of :: "(cppstring \<times> cppstring) list \<Rightarrow> row" where
  "row_of kvs = fold (\<lambda>(k, v). map_insert k v) kvs []"

definition sorted_row :: "row \<Rightarrow> bool" where
  "sorted_row r \<longleftrightarrow> sorted_wrt (<) (map fst r)"

lemma set_map_insert: "fst ` set (map_insert k v r) = insert k (fst ` set r)"
  by (induction k v r rule: map_insert.induct) (auto simp: image_iff)

lemma sorted_map_insert: "sorted_row r \<Longrightarrow> sorted_row (map_insert k v r)"
proof (induction k v r rule: map_insert.induct)
  case (2 k v k' v' r)
  have "\<forall>x \<in> fst ` set (map_insert k v r). k' < x" if "k' < k"
    using that 2(2) by (auto simp: set_map_insert sorted_row_def)
  with 2 show ?case by (auto simp: sorted_row_def)
qed (simp add: sorted_row_def)

lemma map_of_map_insert:
  "sorted_row r \<Longrightarrow> map_of (map_insert k v r) =
     (if k \<in> dom (map_of r) then map_of r else (map_of r)(k \<mapsto> v))"
proof (induction k v r rule: map_insert.induct)
  case (2 k v k' v' r)
  have s: "sorted_row r" "\<forall>x \<in> fst ` set r. k' < x" using 2(2) by (auto simp: sorted_row_def)
  show ?case
  proof (cases "k < k'")
    case True
    then have "k \<noteq> k'" "map_of r k = None"
      using s(2) by (auto simp: map_of_eq_None_iff)
    then show ?thesis using True by (auto simp: fun_eq_iff)
  next
    case False
    then show ?thesis using 2(1) s(1) by (auto simp: fun_eq_iff dom_def)
  qed
qed simp

lemma row_of_sorted: "sorted_row (row_of kvs)"
proof -
  have "sorted_row r \<Longrightarrow> sorted_row (fold (\<lambda>(k, v). map_insert k v) kvs r)" for r
    by (induction kvs arbitrary: r) (auto simp: sorted_map_insert)
  then show ?thesis by (simp add: row_of_def sorted_row_def)
qed

text \<open>A lookup finds the first column of that name, as \<open>map_of\<close> does on the column list.\<close>

lemma map_of_row_of: "map_of (row_of kvs) = map_of kvs"
proof -
  have "sorted_row r \<Longrightarrow> map_of (fold (\<lambda>(k, v). map_insert k v) kvs r) = map_of kvs ++ map_of r" for r
  proof (induction kvs arbitrary: r)
    case (Cons kv kvs)
    obtain k v where kv: "kv = (k, v)" by (cases kv)
    have "map_of (fold (\<lambda>(k, v). map_insert k v) kvs (map_insert k v r)) = map_of kvs ++ map_of (map_insert k v r)"
      using Cons by (simp add: sorted_map_insert)
    then show ?case
      using Cons.prems by (auto simp: kv map_of_map_insert fun_eq_iff map_add_def dom_def split: option.splits)
  qed simp
  from this [of "[]"] show ?thesis by (simp add: row_of_def sorted_row_def)
qed

section \<open>The client libraries\<close>

text \<open>
  \<open>sqlite3_exec\<close> is given by the rows it hands to the callback, each a list of column names and
  C-string values (\<open>None\<close> for NULL), and the error message it leaves. A prepared statement is a
  number. \<open>mysql_store_result\<close> returns the field names and the rows, each value with its length,
  which is 0 for NULL. SQL text is passed as \<open>const char*\<close>, so it ends at its first NUL.
\<close>

record 'd dbapi =
  sqlite3_open :: "cppstring \<Rightarrow> 'd \<Rightarrow> int \<times> 'd"
  sqlite3_close :: "'d \<Rightarrow> int \<times> 'd"
  sqlite3_exec :: "cppstring \<Rightarrow> 'd \<Rightarrow> (cppstring \<times> byte list option) list list \<times> cppstring \<times> 'd"
  sqlite3_prepare_v2 :: "cppstring \<Rightarrow> 'd \<Rightarrow> int \<times> nat \<times> 'd"
  sqlite3_step :: "nat \<Rightarrow> 'd \<Rightarrow> int \<times> 'd"
  sqlite3_column_blob :: "nat \<Rightarrow> u32 \<Rightarrow> 'd \<Rightarrow> byte list"
  sqlite3_column_bytes :: "nat \<Rightarrow> u32 \<Rightarrow> 'd \<Rightarrow> u32"
  sqlite3_finalize :: "nat \<Rightarrow> 'd \<Rightarrow> 'd"
  mysql_init :: "'d \<Rightarrow> bool \<times> 'd"
  mysql_real_connect ::
    "cppstring \<Rightarrow> cppstring \<Rightarrow> cppstring \<Rightarrow> cppstring \<Rightarrow> u16 \<Rightarrow> 'd \<Rightarrow> bool \<times> 'd"
  mysql_real_query :: "cppstring \<Rightarrow> 'd \<Rightarrow> 'd"
  mysql_store_result :: "'d \<Rightarrow> (cppstring list \<times> byte list list list) option"
  mysql_field_count :: "'d \<Rightarrow> nat"
  mysql_error :: "'d \<Rightarrow> cppstring"
  mysql_close :: "'d \<Rightarrow> 'd"

definition SQLITE_OK :: int where "SQLITE_OK = 0"
definition SQLITE_ROW :: int where "SQLITE_ROW = 100"

definition c_str :: "cppstring \<Rightarrow> cppstring" where
  "c_str s = takeWhile (\<lambda>c. c \<noteq> CHR 0x00) s"

section \<open>The class\<close>

record db_blob =
  blob_size :: u32
  blob_data :: "byte list"

record 'd database =
  results :: "row list"
  dbErr :: cppstring
  db_type :: u32
  db_username :: cppstring
  db_password :: cppstring
  db_host :: cppstring
  db_name :: cppstring
  db_port :: u16
  mysql_set :: bool
  eng :: 'd

text \<open>
  The constructors leave the library handles unset; \<open>mysql_set\<close> says that the \<open>mysql\<close> pointer is
  not null. The state of the library, \<open>eng\<close>, is outside the object.
\<close>

definition new_Database_default :: "'d \<Rightarrow> 'd database" where
  "new_Database_default d =
     \<lparr>results = [], dbErr = [], db_type = 0, db_username = [], db_password = [], db_host = [],
      db_name = [], db_port = 0, mysql_set = False, eng = d\<rparr>"

definition new_Database ::
  "u32 \<Rightarrow> cppstring \<Rightarrow> cppstring \<Rightarrow> cppstring \<Rightarrow> cppstring \<Rightarrow> u16 \<Rightarrow> 'd \<Rightarrow> 'd database" where
  "new_Database dbType dbUsername dbPassword dbHost dbName dbPort d =
     \<lparr>results = [], dbErr = [], db_type = dbType, db_username = dbUsername,
      db_password = dbPassword, db_host = dbHost, db_name = dbName, db_port = dbPort,
      mysql_set = False, eng = d\<rparr>"

text \<open>The destructor drops the rows and closes the connection of the chosen library.\<close>

definition delete_Database :: "'d dbapi \<Rightarrow> 'd database \<Rightarrow> 'd" where
  "delete_Database api db =
     (if db_type db = DBTYPE_SQLITE then snd (sqlite3_close api (eng db))
      else mysql_close api (eng db))"

subsection \<open>Connections\<close>

definition OpenSqlite :: "'d dbapi \<Rightarrow> ('d database, int) prog" where
  "OpenSqlite api = (\<lambda>db. let (r, d) = sqlite3_open api (db_name db) (eng db)
                          in Inr (r, db\<lparr>eng := d\<rparr>))"

definition OpenMysql :: "'d dbapi \<Rightarrow> ('d database, int) prog" where
  "OpenMysql api = (\<lambda>db.
     let (set, d) = mysql_init api (eng db)
     in if set
        then let (connected, d') = mysql_real_connect api (db_host db) (db_username db)
                                     (db_password db) (db_name db) (db_port db) d
             in Inr (if connected then DB_OK else DB_ERR, db\<lparr>mysql_set := True, eng := d'\<rparr>)
        else Inr (DB_ERR, db\<lparr>mysql_set := False, eng := d\<rparr>))"

definition Open :: "'d dbapi \<Rightarrow> ('d database, int) prog" where
  "Open api = (\<lambda>db. if db_type db = DBTYPE_SQLITE then OpenSqlite api db else OpenMysql api db)"

definition CloseSqlite :: "'d dbapi \<Rightarrow> ('d database, int) prog" where
  "CloseSqlite api = (\<lambda>db. let (r, d) = sqlite3_close api (eng db) in Inr (r, db\<lparr>eng := d\<rparr>))"

definition CloseMysql :: "'d dbapi \<Rightarrow> ('d database, int) prog" where
  "CloseMysql api = (\<lambda>db. Inr (DB_OK, if mysql_set db then db\<lparr>eng := mysql_close api (eng db)\<rparr> else db))"

definition Close :: "'d dbapi \<Rightarrow> ('d database, int) prog" where
  "Close api = (\<lambda>db. if db_type db = DBTYPE_SQLITE then CloseSqlite api db else CloseMysql api db)"

definition DbError :: "'d dbapi \<Rightarrow> 'd database \<Rightarrow> cppstring \<times> 'd database" where
  "DbError api db =
     (if db_type db = DBTYPE_SQLITE then (dbErr db, db)
      else (mysql_error api (eng db), db\<lparr>dbErr := mysql_error api (eng db)\<rparr>))"

subsection \<open>Queries\<close>

text \<open>The callback SQLite runs for each row: NULL becomes the text \<open>NULL\<close>.\<close>

definition null_text :: cppstring where
  "null_text = ''NULL''"

definition DatabaseCallback :: "(cppstring \<times> byte list option) list \<Rightarrow> row" where
  "DatabaseCallback cols =
     row_of (map (\<lambda>(col, v). (col, case v of None \<Rightarrow> null_text | Some b \<Rightarrow> string_of (cstr b))) cols)"

definition ExecSqlite :: "'d dbapi \<Rightarrow> cppstring \<Rightarrow> ('d database, int) prog" where
  "ExecSqlite api sql = (\<lambda>db.
     let (rows, err, d) = sqlite3_exec api (c_str sql) (eng db); rs = map DatabaseCallback rows
     in Inr (int (length rs), db\<lparr>results := rs, dbErr := err, eng := d\<rparr>))"

text \<open>
  A row of MySQL: the value of each of the \<open>num_fields\<close> columns, under its field name (its number
  when the name is empty). A value of length 0, NULL or not, becomes the text \<open>NULL\<close>.
\<close>

definition mysql_col :: "nat \<Rightarrow> cppstring \<Rightarrow> cppstring" where
  "mysql_col i name = (if 0 < length name then c_str name else dec i)"

definition mysql_val :: "byte list \<Rightarrow> cppstring" where
  "mysql_val v = (if length v = 0 then null_text else string_of v)"

definition mysql_row :: "cppstring list \<Rightarrow> byte list list \<Rightarrow> row" where
  "mysql_row names vals =
     row_of (map (\<lambda>i. (mysql_col i (names ! i), mysql_val (vals ! i))) [0..<length names])"

definition ExecMysql :: "'d dbapi \<Rightarrow> cppstring \<Rightarrow> ('d database, int) prog" where
  "ExecMysql api sql = (\<lambda>db.
     let d = mysql_real_query api (c_str sql) (eng db); num_fields = mysql_field_count api d
     in case mysql_store_result api d of
          None \<Rightarrow> Inr (0, db\<lparr>results := [], eng := d\<rparr>)
        | Some (names, rows) \<Rightarrow>
            if length names < num_fields \<or> (\<exists>r \<in> set rows. length r < num_fields)
            then Inl OutOfBounds
            else let rs = map (mysql_row (take num_fields names)) rows
                 in Inr (int (length rs), db\<lparr>results := rs, eng := d\<rparr>))"

definition Exec :: "'d dbapi \<Rightarrow> cppstring \<Rightarrow> ('d database, int) prog" where
  "Exec api sql = (\<lambda>db. if db_type db = DBTYPE_SQLITE then ExecSqlite api sql db else ExecMysql api sql db)"

text \<open>
  \<open>GetValue\<close> by column number, in the order of the map, and by column name. The row is reached
  with \<open>next(data->begin(), row)\<close>, which is undefined past the last row; a missing column is the
  empty string (the \<open>std::out_of_range\<close> of \<open>at\<close> is caught).
\<close>

definition GetValue :: "row list \<Rightarrow> nat \<Rightarrow> nat \<Rightarrow> fault + cppstring" where
  "GetValue rs r c =
     (if length rs \<le> r then Inl OutOfBounds
      else Inr (if c < length (rs ! r) then snd (rs ! r ! c) else []))"

definition GetValue_name :: "row list \<Rightarrow> nat \<Rightarrow> cppstring \<Rightarrow> fault + cppstring" where
  "GetValue_name rs r col =
     (if length rs \<le> r then Inl OutOfBounds
      else Inr (case map_of (rs ! r) col of None \<Rightarrow> [] | Some v \<Rightarrow> v))"

text \<open>
  Blobs. Over SQLite the statement is finalized on the last path only; over MySQL the blob is
  column \<open>col\<close> of the first row, as text.
\<close>

definition empty_blob :: db_blob where
  "empty_blob = \<lparr>blob_size = 0, blob_data = []\<rparr>"

definition GetBlobSqlite :: "'d dbapi \<Rightarrow> cppstring \<Rightarrow> u32 \<Rightarrow> ('d database, db_blob) prog" where
  "GetBlobSqlite api sql col = (\<lambda>db.
     let (res, st, d) = sqlite3_prepare_v2 api (c_str sql) (eng db)
     in if res \<noteq> SQLITE_OK then Inr (empty_blob, db\<lparr>eng := d\<rparr>)
        else let (res', d') = sqlite3_step api st d
             in if res' \<noteq> SQLITE_OK \<and> res' \<noteq> SQLITE_ROW then Inr (empty_blob, db\<lparr>eng := d'\<rparr>)
                else let mem = sqlite3_column_blob api st col d';
                         n = sqlite3_column_bytes api st col d'
                     in if length mem < unat n then Inl OutOfBounds
                        else Inr (\<lparr>blob_size = n, blob_data = take (unat n) mem\<rparr>,
                                  db\<lparr>eng := sqlite3_finalize api st d'\<rparr>))"

definition GetBlobMysql :: "'d dbapi \<Rightarrow> cppstring \<Rightarrow> u32 \<Rightarrow> ('d database, db_blob) prog" where
  "GetBlobMysql api sql col =
     bnd (ExecMysql api sql) (\<lambda>res.
     if res \<noteq> 0 then
       bnd (gets results) (\<lambda>rs.
       bnd (lift (GetValue rs 0 (unat col))) (\<lambda>dat.
       ret \<lparr>blob_size = word_of_nat (length dat), blob_data = bytes_of dat\<rparr>))
     else ret empty_blob)"

definition GetBlob :: "'d dbapi \<Rightarrow> cppstring \<Rightarrow> u32 \<Rightarrow> ('d database, db_blob) prog" where
  "GetBlob api sql col = (\<lambda>db.
     if db_type db = DBTYPE_SQLITE then GetBlobSqlite api sql col db else GetBlobMysql api sql col db)"

section \<open>SQL text\<close>

abbreviation quote :: cppstring where "quote \<equiv> [CHR 0x27]"

definition quoted :: "cppstring \<Rightarrow> cppstring" where
  "quoted s = quote @ s @ quote"

text \<open>A blob literal \<open>X'...'\<close>.\<close>

definition xlit :: "cppstring \<Rightarrow> cppstring" where
  "xlit h = ''X'' @ quoted h"

text \<open>Pieces in the order they are streamed.\<close>

abbreviation sql :: "cppstring list \<Rightarrow> cppstring" where "sql \<equiv> concat"

section \<open>What a query promises\<close>

text \<open>
  The interface the handlers use: a query returns the number of rows it left in \<open>results\<close>, each
  row is a map (sorted by distinct keys), and the settings of the object are unchanged. Both
  back ends provide it, for any library behind them, and so does \<open>Exec\<close>.
\<close>

definition same_settings :: "'d database \<Rightarrow> 'd database \<Rightarrow> bool" where
  "same_settings a b \<longleftrightarrow>
     db_type a = db_type b \<and> db_username a = db_username b \<and> db_password a = db_password b \<and>
     db_host a = db_host b \<and> db_name a = db_name b \<and> db_port a = db_port b"

locale row_source =
  fixes run :: "cppstring \<Rightarrow> ('d database, int) prog"
  assumes run_count: "run q db = Inr (n, db') \<Longrightarrow> n = int (length (results db'))"
    and run_rows: "run q db = Inr (n, db') \<Longrightarrow> list_all sorted_row (results db')"
    and run_settings: "run q db = Inr (n, db') \<Longrightarrow> same_settings db db'"
begin

text \<open>After a query that returned non-zero, row 0 may be read: no fault.\<close>

lemma first_row_readable:
  assumes "run q db = Inr (n, db')" "n \<noteq> 0"
  shows "\<exists>v. GetValue_name (results db') 0 col = Inr v" "\<exists>v. GetValue (results db') 0 i = Inr v"
  using run_count [OF assms(1)] assms(2) by (auto simp: GetValue_name_def GetValue_def)

text \<open>Every row below the count may be read, and a zero count means that no row may.\<close>

lemma row_readable_iff:
  assumes "run q db = Inr (n, db')"
  shows "(\<exists>v. GetValue_name (results db') r col = Inr v) \<longleftrightarrow> int r < n"
  using run_count [OF assms] by (auto simp: GetValue_name_def)

text \<open>Column numbers follow the order of the names, not the order of the query's columns.\<close>

lemma column_order:
  assumes "run q db = Inr (n, db')" "r < length (results db')"
    and "i < j" "j < length (results db' ! r)"
  shows "fst (results db' ! r ! i) < fst (results db' ! r ! j)"
proof -
  have "sorted_row (results db' ! r)"
    using run_rows [OF assms(1)] assms(2) by (simp add: list_all_length)
  then show ?thesis
    using assms(3,4) by (simp add: sorted_row_def sorted_wrt_iff_nth_less)
qed

end

lemma rows_sorted: "list_all sorted_row (map DatabaseCallback rows)"
  "list_all sorted_row (map (mysql_row names) vals)"
  by (simp_all add: list_all_length DatabaseCallback_def mysql_row_def row_of_sorted)

interpretation sqlite: row_source "ExecSqlite api" for api
  by unfold_locales
    (auto simp: ExecSqlite_def Let_def same_settings_def rows_sorted split: prod.splits)

interpretation mysql: row_source "ExecMysql api" for api
  by unfold_locales
    (auto simp: ExecMysql_def Let_def same_settings_def rows_sorted
      split: prod.splits option.splits if_splits)

interpretation dbx: row_source "Exec api" for api
proof
  fix q db n db' assume "Exec api q db = Inr (n, db')"
  then consider "ExecSqlite api q db = Inr (n, db')" | "ExecMysql api q db = Inr (n, db')"
    by (auto simp: Exec_def split: if_splits)
  then show "n = int (length (results db'))" "list_all sorted_row (results db')"
    "same_settings db db'"
    by (cases; simp add: sqlite.run_count mysql.run_count sqlite.run_rows mysql.run_rows
        sqlite.run_settings mysql.run_settings)+
qed

text \<open>
  The two back ends agree on a result set whose names are not empty, and whose values are not
  NULL, not empty and free of NUL characters.
\<close>

definition plain_value :: "byte list \<Rightarrow> bool" where
  "plain_value v \<longleftrightarrow> v \<noteq> [] \<and> 0 \<notin> set v"

lemma backends_agree_row:
  assumes "length vals = length names" "list_all plain_value vals"
    and "list_all (\<lambda>n. n \<noteq> [] \<and> CHR 0x00 \<notin> set n) names"
  shows "DatabaseCallback (zip names (map Some vals)) = mysql_row names vals"
proof -
  have "map (\<lambda>(col, v). (col, case v of None \<Rightarrow> null_text | Some b \<Rightarrow> string_of (cstr b)))
          (zip names (map Some vals)) =
        map (\<lambda>i. (mysql_col i (names ! i), mysql_val (vals ! i))) [0..<length names]"
  proof (rule nth_equalityI)
    fix i assume "i < length (map (\<lambda>(col, v). (col, case v of None \<Rightarrow> null_text | Some b \<Rightarrow> string_of (cstr b)))
          (zip names (map Some vals)))"
    then have i: "i < length names" using assms(1) by simp
    then have "plain_value (vals ! i)" "names ! i \<noteq> [] \<and> CHR 0x00 \<notin> set (names ! i)"
      using assms by (simp_all add: list_all_length)
    moreover from this have "c_str (names ! i) = names ! i"
      unfolding c_str_def by (intro takeWhile_eq_all_conv [THEN iffD2]) auto
    ultimately show "map (\<lambda>(col, v). (col, case v of None \<Rightarrow> null_text | Some b \<Rightarrow> string_of (cstr b)))
          (zip names (map Some vals)) ! i =
        map (\<lambda>i. (mysql_col i (names ! i), mysql_val (vals ! i))) [0..<length names] ! i"
      using i assms(1) by (simp add: mysql_col_def mysql_val_def plain_value_def cstr_id)
  qed (use assms(1) in simp)
  then show ?thesis by (simp add: DatabaseCallback_def mysql_row_def)
qed

end
