(* ===== verification/HexString.thy ===== *)
theory HexString
  imports Globals
begin

text \<open>
  \<open>Server::HexString\<close> (server.cpp), which prints memory as upper-case hexadecimal text. Both
  overloads run the same loop: over the bytes up to the first NUL (and at most \<open>MAX_MESG_LEN\<close>)
  when no length is given, over exactly \<open>length\<close> bytes otherwise. One writes to a buffer of the
  caller, the other to the member \<open>hexStr\<close>. Every SQL statement that carries client data other
  than numbers builds its literal with it.
\<close>

definition hexStr_size :: nat where
  "hexStr_size = (MAX_MESG_LEN + 1) * 2"

definition hex_digit :: "nat \<Rightarrow> char" where
  "hex_digit n = (if n < 10 then digit n else char_of (55 + n))"

text \<open>\<open>sprintf(p, "%02X", b)\<close> without its terminating NUL.\<close>

definition hex2 :: "byte \<Rightarrow> cppstring" where
  "hex2 b = [hex_digit (unat b div 16), hex_digit (unat b mod 16)]"

definition hex :: "byte list \<Rightarrow> cppstring" where
  "hex bs = concat (map hex2 bs)"

text \<open>
  The loop. \<open>mem\<close> is the memory that may be read from \<open>in\<close> on, \<open>cap\<close> the size of the output
  array, \<open>i\<close> is \<open>getLength - in\<close> (and so \<open>offset / 2\<close>), \<open>acc\<close> what \<open>out\<close> holds. The condition
  reads \<open>*getLength\<close> first; \<open>sprintf\<close> stores two digits and a NUL; at the end
  \<open>out[offset] = 0\<close>.
\<close>

definition hex_end :: "nat \<Rightarrow> nat \<Rightarrow> cppstring \<Rightarrow> fault + cppstring" where
  "hex_end cap i acc = (if 2 * i + 1 \<le> cap then Inr acc else Inl OutOfBounds)"

function hex_loop :: "byte list \<Rightarrow> nat \<Rightarrow> nat \<Rightarrow> nat \<Rightarrow> cppstring \<Rightarrow> fault + cppstring" where
  "hex_loop mem cap len i acc =
     (if length mem \<le> i then Inl OutOfBounds
      else if (mem ! i \<noteq> 0 \<and> i < MAX_MESG_LEN) \<or> (0 < len \<and> i < len)
      then if cap < 2 * i + 3 then Inl OutOfBounds
           else let acc' = acc @ hex2 (mem ! i)
                in if 0 < len \<and> len \<le> i + 1 then hex_end cap (i + 1) acc'
                   else hex_loop mem cap len (i + 1) acc'
      else hex_end cap i acc)"
  by pat_completeness auto
termination
  by (relation "measure (\<lambda>(mem, cap, len, i, acc). length mem - i)") auto

declare hex_loop.simps [simp del]

text \<open>
  \<open>HexString(in, out, length)\<close> and \<open>HexString(in, length)\<close>. A null \<open>in\<close> (\<open>None\<close>) returns the
  output buffer as it was.
\<close>

definition HexString_to :: "cppstring \<Rightarrow> nat \<Rightarrow> byte list option \<Rightarrow> u32 \<Rightarrow> fault + cppstring" where
  "HexString_to out cap inp len =
     (case inp of None \<Rightarrow> Inr out | Some mem \<Rightarrow> hex_loop mem cap (unat len) 0 [])"

definition HexString :: "byte list \<Rightarrow> u32 \<Rightarrow> fault + cppstring" where
  "HexString mem len = HexString_to [] hexStr_size (Some mem) len"

section \<open>What it prints\<close>

lemma hex_simps [simp]:
  "hex [] = []" "hex (b # bs) = hex2 b @ hex bs" "hex (as @ bs) = hex as @ hex bs"
  by (simp_all add: hex_def)

lemma length_hex [simp]: "length (hex bs) = 2 * length bs"
  by (induction bs) (simp_all add: hex2_def)

lemma take_Suc_nth: "i < length xs \<Longrightarrow> take (Suc i) xs = take i xs @ [xs ! i]"
  by (rule take_Suc_conv_app_nth)

lemma hex_loop_len:
  assumes "0 < len" "len \<le> length mem" "2 * len + 1 \<le> cap" "i < len" "acc = hex (take i mem)"
  shows "hex_loop mem cap len i acc = Inr (hex (take len mem))"
  using assms
proof (induction mem cap len i acc rule: hex_loop.induct)
  case (1 mem cap len i acc)
  have step: "acc @ hex2 (mem ! i) = hex (take (i + 1) mem)"
    using "1.prems" by (simp add: take_Suc_nth)
  show ?case
  proof (cases "len \<le> i + 1")
    case True
    with "1.prems" have "i + 1 = len" by simp
    with "1.prems" step show ?thesis
      by (subst hex_loop.simps) (simp add: hex_end_def)
  next
    case False
    then have "hex_loop mem cap len (i + 1) (acc @ hex2 (mem ! i)) = Inr (hex (take len mem))"
      using "1.prems" by (intro "1.IH") (auto simp: take_Suc_nth)
    with "1.prems" False show ?thesis
      by (subst hex_loop.simps) (simp add: Let_def)
  qed
qed

text \<open>With a length, exactly that many bytes are printed, provided they fit the output.\<close>

lemma HexString_to_len:
  assumes "0 < len" "unat len \<le> length mem" "2 * unat len + 1 \<le> cap"
  shows "HexString_to out cap (Some mem) len = Inr (hex (take (unat len) mem))"
  using assms hex_loop_len [of "unat len" mem cap 0 "[]"]
  by (simp add: HexString_to_def unat_gt_0)

lemma HexString_len:
  assumes "0 < len" "unat len \<le> length mem" "unat len \<le> MAX_MESG_LEN"
  shows "HexString mem len = Inr (hex (take (unat len) mem))"
  using assms by (simp add: HexString_def HexString_to_len hexStr_size_def)

text \<open>
  More than \<open>MAX_MESG_LEN\<close> bytes run past the end of \<open>hexStr\<close>: the loop bound does not take
  the size of the array into account when a length is given.
\<close>

lemma hex_loop_overflow:
  assumes "0 < len" "len \<le> length mem" "cap < 2 * len + 1" "i < len"
  shows "hex_loop mem cap len i acc = Inl OutOfBounds"
  using assms
proof (induction mem cap len i acc rule: hex_loop.induct)
  case (1 mem cap len i acc)
  show ?case
  proof (cases "cap < 2 * i + 3")
    case True
    with "1.prems" show ?thesis by (subst hex_loop.simps) simp
  next
    case False
    with "1.prems" have "\<not> len \<le> i + 1" by simp
    with False "1.prems" "1.IH" [of "acc @ hex2 (mem ! i)"] show ?thesis
      by (subst hex_loop.simps) (simp add: Let_def)
  qed
qed

lemma HexString_overflow:
  assumes "MAX_MESG_LEN < unat len" "unat len \<le> length mem"
  shows "HexString mem len = Inl OutOfBounds"
  using assms by (simp add: HexString_def HexString_to_def hexStr_size_def hex_loop_overflow)

text \<open>Without a length it prints a C string, of any contents, up to \<open>MAX_MESG_LEN\<close> bytes.\<close>

lemma hex_loop_cstr:
  assumes "cstr mem @ 0 # rest = mem" "i \<le> length (cstr mem)" "i \<le> MAX_MESG_LEN"
    and "2 * MAX_MESG_LEN + 1 \<le> cap" "acc = hex (take i mem)"
  shows "hex_loop mem cap 0 i acc = Inr (hex (take MAX_MESG_LEN (cstr mem)))"
  using assms
proof (induction mem cap "0::nat" i acc rule: hex_loop.induct)
  case (1 mem cap i acc)
  have len: "i < length mem"
    using "1.prems"(1,2) by (metis add_Suc_right le_imp_less_Suc length_append length_Cons less_le_trans not_less_eq le_add1)
  show ?case
  proof (cases "i < length (cstr mem) \<and> i < MAX_MESG_LEN")
    case True
    then have nz: "mem ! i \<noteq> 0"
      by (metis "1.prems"(1) cstr_no_nul nth_append nth_mem)
    have "acc @ hex2 (mem ! i) = hex (take (i + 1) mem)"
      using "1.prems" len by (simp add: take_Suc_nth)
    then have "hex_loop mem cap 0 (i + 1) (acc @ hex2 (mem ! i)) =
        Inr (hex (take MAX_MESG_LEN (cstr mem)))"
      using "1.prems" len nz True by (intro "1.hyps") auto
    with nz len True "1.prems"(4) show ?thesis
      by (subst hex_loop.simps) (simp add: Let_def)
  next
    case False
    then have stop: "\<not> (mem ! i \<noteq> 0 \<and> i < MAX_MESG_LEN)"
      using "1.prems"(1,2) by (metis le_neq_implies_less nth_append_length)
    have "take i mem = take MAX_MESG_LEN (cstr mem)"
      using False "1.prems"(1,2,3)
      by (metis append_eq_conv_conj le_neq_implies_less linorder_not_less take_all take_append
          append_Nil2 diff_is_0_eq take_eq_Nil)
    with stop len "1.prems" show ?thesis
      by (subst hex_loop.simps) (auto simp: hex_end_def)
  qed
qed

lemma HexString_cstr:
  assumes "0 \<in> set mem"
  shows "HexString mem 0 = Inr (hex (take MAX_MESG_LEN (cstr mem)))"
proof -
  have "\<exists>rest. cstr mem @ 0 # rest = mem"
    using assms unfolding cstr_def
    by (metis (mono_tags, lifting) dropWhile_eq_Cons_conv dropWhile_eq_Nil_conv hd_dropWhile
        list.collapse takeWhile_dropWhile_id)
  then obtain rest where "cstr mem @ 0 # rest = mem" ..
  then show ?thesis
    using hex_loop_cstr [of mem rest 0 hexStr_size "[]"]
    by (simp add: HexString_def HexString_to_def hexStr_size_def)
qed

section \<open>Reading it back\<close>

definition is_hex :: "char \<Rightarrow> bool" where
  "is_hex c \<longleftrightarrow> is_digit c \<or> (CHR ''A'' \<le> c \<and> c \<le> CHR ''F'')"

definition hex_val :: "char \<Rightarrow> nat" where
  "hex_val c = (if is_digit c then digit_val c else of_char c - 55)"

fun unhex :: "cppstring \<Rightarrow> byte list" where
  "unhex (a # b # cs) = word_of_nat (16 * hex_val a + hex_val b) # unhex cs"
| "unhex _ = []"

lemma of_char_hex_digit: "n < 16 \<Longrightarrow> (of_char (hex_digit n) :: nat) = (if n < 10 then 48 + n else 55 + n)"
  by (auto simp: hex_digit_def of_char_digit)

lemma is_hex_hex_digit: "n < 16 \<Longrightarrow> is_hex (hex_digit n)"
  by (auto simp: is_hex_def is_digit_def less_eq_char_def of_char_hex_digit)

lemma hex_val_hex_digit: "n < 16 \<Longrightarrow> hex_val (hex_digit n) = n"
  by (auto simp: hex_val_def digit_val_def is_digit_def less_eq_char_def of_char_hex_digit)

lemma byte_nibbles: "unat (b :: byte) div 16 < 16" "unat b mod 16 < 16"
  using unat_less [of b] by (simp_all add: less_mult_imp_div_less)

lemma hex_chars: "list_all is_hex (hex bs)"
  by (induction bs) (simp_all add: hex2_def is_hex_hex_digit byte_nibbles)

lemma unhex_hex: "unhex (hex bs) = bs"
  by (induction bs) (simp_all add: hex2_def hex_val_hex_digit byte_nibbles)

lemma hex_inject: "hex as = hex bs \<longleftrightarrow> as = bs"
  by (metis unhex_hex)

lemma hex_no_quote: "CHR 0x27 \<notin> set (hex bs)"
  using hex_chars [of bs] by (auto simp: list_all_iff is_hex_def is_digit_def less_eq_char_def)

end
