(* ===== verification/Session.thy ===== *)
theory Session
  imports Client Database HexString
begin

text \<open>
  What a packet handler works on: the slot of the client that sent the packet, with its
  \<open>inbuf\<close> (the request) and \<open>outbuf\<close> (the reply), and the server's database object. A handler is a
  program over this state that ends with what the code does after the switch: fall out of it
  (and run \<open>client->Send()\<close>), return, or broadcast the reply with \<open>SendToAll\<close> and return. The
  dispatcher (theory Dispatch) carries that out.
\<close>

section \<open>The environment\<close>

text \<open>
  What the handlers call outside the program, and the values they read from it: the database
  library, \<open>csp_crypt.dll\<close> (\<open>None\<close> is the null pointer), OpenSSL's SHA-256 (\<open>None\<close> when one of
  its calls fails), the C
  library's random number and clocks, its conversions between \<open>float\<close> (as its 32 bits) and text,
  and the contents of the uninitialised local arrays \<open>rivalStatus\<close> and \<open>sign\<close>.
\<close>

record 'd env =
  api :: "'d dbapi"
  AuthDataDecrypt :: "cppstring \<Rightarrow> cppstring \<Rightarrow> cppstring option"
  SHA256 :: "byte list \<Rightarrow> byte list option"
  rand_value :: u32
  timeGetTime :: u32
  stof_bits :: "cppstring \<Rightarrow> u32 option"
  float_text :: "u32 \<Rightarrow> cppstring"
  stack_rival :: "byte list"
  stack_sign :: "byte list"

record 'd session =
  cl :: client
  sdb :: "'d database"

datatype after = FallOut | Return | BroadcastReturn

section \<open>Reading the request and writing the reply\<close>

definition on_in :: "(packet \<Rightarrow> 'a \<times> packet) \<Rightarrow> ('d session, 'a) prog" where
  "on_in f = (\<lambda>s. let (x, p) = f (inbuf (cl s)) in Inr (x, s\<lparr>cl := (cl s)\<lparr>inbuf := p\<rparr>\<rparr>))"

definition on_in_fault :: "(packet \<Rightarrow> fault + ('a \<times> packet)) \<Rightarrow> ('d session, 'a) prog" where
  "on_in_fault f = (\<lambda>s. case f (inbuf (cl s)) of
     Inl e \<Rightarrow> Inl e | Inr (x, p) \<Rightarrow> Inr (x, s\<lparr>cl := (cl s)\<lparr>inbuf := p\<rparr>\<rparr>))"

definition in_offset :: "u16 \<Rightarrow> ('d session, unit) prog" where
  "in_offset n = on_in (\<lambda>p. ((), setOffset n p))"

definition in_u8 :: "('d session, byte) prog" where "in_u8 = on_in get_u8"
definition in_u16 :: "('d session, u16) prog" where "in_u16 = on_in get_u16"
definition in_u32 :: "('d session, u32) prog" where "in_u32 = on_in get_u32"
definition in_u64 :: "('d session, u64) prog" where "in_u64 = on_in get_u64"

definition in_string :: "u32 \<Rightarrow> ('d session, cppstring) prog" where
  "in_string n = on_in_fault (getStringA n)"

text \<open>\<open>get<T>(offset)\<close> and \<open>getString(offset, size)\<close>, which leave the cursor alone.\<close>

definition in_u32_at :: "u32 \<Rightarrow> ('d session, u32) prog" where
  "in_u32_at n = (\<lambda>s. case get_bytes_at 4 n (inbuf (cl s)) of
     Inl e \<Rightarrow> Inl e | Inr bs \<Rightarrow> Inr (bytes_u32 bs, s))"

definition in_string_at :: "u32 \<Rightarrow> u32 \<Rightarrow> ('d session, cppstring) prog" where
  "in_string_at n sz = (\<lambda>s. case getString_sized n sz (inbuf (cl s)) of
     Inl e \<Rightarrow> Inl e | Inr t \<Rightarrow> Inr (t, s))"

definition in_array :: "u32 \<Rightarrow> ('d session, byte list option) prog" where
  "in_array n = on_in_fault (getArray n)"

definition out :: "(packet \<Rightarrow> packet) \<Rightarrow> ('d session, unit) prog" where
  "out f = modify (\<lambda>s. s\<lparr>cl := (cl s)\<lparr>outbuf := f (outbuf (cl s))\<rparr>\<rparr>)"

definition out_fault :: "(packet \<Rightarrow> fault + packet) \<Rightarrow> ('d session, unit) prog" where
  "out_fault f = (\<lambda>s. case f (outbuf (cl s)) of
     Inl e \<Rightarrow> Inl e | Inr p \<Rightarrow> Inr ((), s\<lparr>cl := (cl s)\<lparr>outbuf := p\<rparr>\<rparr>))"

definition out_u8 :: "byte \<Rightarrow> ('d session, unit) prog" where "out_u8 v = out (append_u8 v)"
definition out_u32 :: "u32 \<Rightarrow> ('d session, unit) prog" where "out_u32 v = out (append_u32 v)"
definition out_u64 :: "u64 \<Rightarrow> ('d session, unit) prog" where "out_u64 v = out (append_u64 v)"

definition out_string :: "cppstring \<Rightarrow> u32 \<Rightarrow> ('d session, unit) prog" where
  "out_string s n = out (\<lambda>p. snd (appendString_as s n p))"

text \<open>\<open>setArray(in, size, getOffset())\<close>.\<close>

definition out_set_array :: "byte list \<Rightarrow> u32 \<Rightarrow> ('d session, unit) prog" where
  "out_set_array bs n = out_fault (\<lambda>p. setArray bs n (ucast (pOffset p)) p)"

definition out_array :: "byte list \<Rightarrow> u32 \<Rightarrow> ('d session, unit) prog" where
  "out_array bs n = out_fault (appendArray bs n)"

text \<open>\<open>addSize(n); addOffset(n)\<close>, where the argument is narrowed to 16 bits.\<close>

definition out_skip :: "u32 \<Rightarrow> ('d session, unit) prog" where
  "out_skip n = out (\<lambda>p. addOffset (ucast n) (addSize (ucast n) p))"

text \<open>
  The five calls every reply starts with: \<open>clearBuffer\<close>, \<open>setSize(6)\<close>, \<open>setOffset(6)\<close>,
  \<open>setType\<close>, \<open>setSubType\<close>.
\<close>

definition start_reply :: "u16 \<Rightarrow> u16 \<Rightarrow> ('d session, unit) prog" where
  "start_reply t sub =
     out (\<lambda>p. setSubType sub (setType t (setOffset 6 (setSize 6 (clearBuffer p)))))"

section \<open>The database\<close>

definition on_db :: "('d database, 'a) prog \<Rightarrow> ('d session, 'a) prog" where
  "on_db m = (\<lambda>s. case m (sdb s) of Inl e \<Rightarrow> Inl e | Inr (x, d) \<Rightarrow> Inr (x, s\<lparr>sdb := d\<rparr>))"

definition db_open :: "'d env \<Rightarrow> ('d session, int) prog" where
  "db_open E = on_db (Open (api E))"

definition db_exec :: "'d env \<Rightarrow> cppstring \<Rightarrow> ('d session, int) prog" where
  "db_exec E q = on_db (Exec (api E) q)"

definition db_blob_of :: "'d env \<Rightarrow> cppstring \<Rightarrow> ('d session, db_blob) prog" where
  "db_blob_of E q = on_db (GetBlob (api E) q 0)"

definition db_close :: "'d env \<Rightarrow> ('d session, int) prog" where
  "db_close E = on_db (Close (api E))"

text \<open>\<open>db->GetValue(&db->results, row, "column")\<close>.\<close>

definition db_value :: "nat \<Rightarrow> cppstring \<Rightarrow> ('d session, cppstring) prog" where
  "db_value r col = bnd (gets (\<lambda>s. results (sdb s))) (\<lambda>rs. lift (GetValue_name rs r col))"

section \<open>Values in SQL text\<close>

definition hex_of :: "byte list \<Rightarrow> u32 \<Rightarrow> ('d session, cppstring) prog" where
  "hex_of mem len = lift (HexString mem len)"

text \<open>\<open>HexString((uint8_t*)s.data(), s.size())\<close>: the characters are followed by a NUL.\<close>

definition hex_of_string :: "cppstring \<Rightarrow> ('d session, cppstring) prog" where
  "hex_of_string s = hex_of (bytes_of s @ [0]) (word_of_nat (length s))"

definition stoulP :: "cppstring \<Rightarrow> ('d session, u32) prog" where "stoulP s = lift (stoul s)"
definition stoullP :: "cppstring \<Rightarrow> ('d session, u64) prog" where "stoullP s = lift (stoull s)"

section \<open>What a handler may change\<close>

text \<open>
  A handler touches the two packets of the slot and the database object; nothing else of the slot
  changes, of the request only the cursor moves, and the packets stay well-formed. \<open>handler_inv c\<close>
  is that invariant, for a handler started on the slot \<open>c\<close>.
\<close>

definition same_request :: "packet \<Rightarrow> packet \<Rightarrow> bool" where
  "same_request p q \<longleftrightarrow> buffer q = buffer p \<and> pSize q = pSize p"

definition same_slot :: "client \<Rightarrow> client \<Rightarrow> bool" where
  "same_slot c d \<longleftrightarrow>
     c\<lparr>inbuf := init_packet, outbuf := init_packet\<rparr> = d\<lparr>inbuf := init_packet, outbuf := init_packet\<rparr>"

definition handler_inv :: "client \<Rightarrow> 'd session \<Rightarrow> bool" where
  "handler_inv c s \<longleftrightarrow>
     same_slot c (cl s) \<and> same_request (inbuf c) (inbuf (cl s)) \<and>
     wf_packet (inbuf (cl s)) \<and> wf_packet (outbuf (cl s))"

lemma same_slot_update: "same_slot c d \<Longrightarrow> d = c\<lparr>inbuf := inbuf d, outbuf := outbuf d\<rparr>"
  by (cases c; cases d) (simp add: same_slot_def)

lemma same_slot_fields:
  assumes "same_slot c d"
  shows "ClientSocket d = ClientSocket c" "todc d = todc c" "isAuth d = isAuth c"
    "lastHeartBeat d = lastHeartBeat c" "snddata d = snddata c"
    "connection_index d = connection_index c" "rcvread d = rcvread c"
    "packetsize d = packetsize c" "hassize d = hassize c" "rcvbuf d = rcvbuf c"
    "sndbuf d = sndbuf c" "key d = key c" "iv d = iv c" "sendQueue d = sendQueue c"
  using assms by (cases c; cases d; simp add: same_slot_def)+

lemma handler_inv_start: "wf_packet (inbuf c) \<Longrightarrow> wf_packet (outbuf c) \<Longrightarrow> cl s = c \<Longrightarrow> handler_inv c s"
  by (simp add: handler_inv_def same_slot_def same_request_def)

lemma same_request_wf: "same_request p q \<Longrightarrow> wf_packet p \<Longrightarrow> wf_packet q"
  by (simp add: same_request_def wf_packet_def)

lemma handler_inv_in:
  assumes "handler_inv c s" "same_request (inbuf (cl s)) p"
  shows "handler_inv c (s\<lparr>cl := (cl s)\<lparr>inbuf := p\<rparr>\<rparr>)"
  using assms same_request_wf [OF assms(2)]
  by (simp add: handler_inv_def same_slot_def same_request_def)

lemma handler_inv_out:
  "handler_inv c s \<Longrightarrow> wf_packet p \<Longrightarrow> handler_inv c (s\<lparr>cl := (cl s)\<lparr>outbuf := p\<rparr>\<rparr>)"
  by (simp add: handler_inv_def same_slot_def)

lemma handler_inv_wf: "handler_inv c s \<Longrightarrow> wf_packet (inbuf (cl s)) \<and> wf_packet (outbuf (cl s))"
  by (simp add: handler_inv_def)

lemma keeps_on_in:
  assumes same: "\<And>p. same_request p (snd (f p))"
  shows "keeps (handler_inv c) (on_in f)"
proof (rule keepsI)
  fix s x t assume h: "handler_inv c s" and r: "on_in f s = Inr (x, t)"
  have "t = s\<lparr>cl := (cl s)\<lparr>inbuf := snd (f (inbuf (cl s)))\<rparr>\<rparr>"
    using r by (simp add: on_in_def case_prod_beta Let_def)
  then show "handler_inv c t" using handler_inv_in [OF h same] by simp
qed

lemma keeps_on_in_fault:
  assumes same: "\<And>p x q. f p = Inr (x, q) \<Longrightarrow> same_request p q"
  shows "keeps (handler_inv c) (on_in_fault f)"
proof (rule keepsI)
  fix s x t assume h: "handler_inv c s" and r: "on_in_fault f s = Inr (x, t)"
  then obtain p where "f (inbuf (cl s)) = Inr (x, p)" "t = s\<lparr>cl := (cl s)\<lparr>inbuf := p\<rparr>\<rparr>"
    by (auto simp: on_in_fault_def split: sum.splits prod.splits)
  then show "handler_inv c t" using handler_inv_in [OF h same] by simp
qed

lemma same_request_gets:
  "same_request p (setOffset n p)" "same_request p (snd (get_bytes m p))"
  "same_request p (snd (get_u8 p))" "same_request p (snd (get_u16 p))"
  "same_request p (snd (get_u32 p))" "same_request p (snd (get_u64 p))"
  by (simp_all add: same_request_def setOffset_def get_bytes_def get_u8_def get_u16_def get_u32_def
      get_u64_def)

lemma same_request_arrays:
  "getArray n p = Inr (r, q) \<Longrightarrow> same_request p q"
  "getStringA n p = Inr (t, q) \<Longrightarrow> same_request p q"
  by (auto simp: same_request_def getArray_def getStringA_def split: if_splits sum.splits)

lemma keeps_out:
  assumes wf: "\<And>p. wf_packet p \<Longrightarrow> wf_packet (f p)"
  shows "keeps (handler_inv c) (out f)"
  unfolding out_def
proof (rule keeps_modify)
  fix s :: "'a session" assume h: "handler_inv c s"
  then show "handler_inv c (s\<lparr>cl := (cl s)\<lparr>outbuf := f (outbuf (cl s))\<rparr>\<rparr>)"
    using handler_inv_wf [OF h] by (intro handler_inv_out wf) simp_all
qed

lemma keeps_out_fault:
  assumes wf: "\<And>p q. wf_packet p \<Longrightarrow> f p = Inr q \<Longrightarrow> wf_packet q"
  shows "keeps (handler_inv c) (out_fault f)"
proof (rule keepsI)
  fix s x t assume h: "handler_inv c s" and r: "out_fault f s = Inr (x, t)"
  then obtain p where "f (outbuf (cl s)) = Inr p" "t = s\<lparr>cl := (cl s)\<lparr>outbuf := p\<rparr>\<rparr>"
    by (auto simp: out_fault_def split: sum.splits)
  moreover from this have "wf_packet p" using wf handler_inv_wf [OF h] by blast
  ultimately show "handler_inv c t" using handler_inv_out [OF h] by simp
qed

lemma keeps_on_db [keeps_rules]: "keeps (handler_inv c) (on_db m)"
  by (rule keepsI) (auto simp: on_db_def handler_inv_def split: sum.splits)

lemma keeps_reads [keeps_rules]:
  "keeps (handler_inv c) (in_offset n)" "keeps (handler_inv c) in_u8" "keeps (handler_inv c) in_u16"
  "keeps (handler_inv c) in_u32" "keeps (handler_inv c) in_u64"
  unfolding in_offset_def in_u8_def in_u16_def in_u32_def in_u64_def
  by (rule keeps_on_in, simp add: same_request_gets)+

lemma keeps_in_string [keeps_rules]: "keeps (handler_inv c) (in_string n)"
  unfolding in_string_def by (rule keeps_on_in_fault) (rule same_request_arrays)

lemma keeps_in_array [keeps_rules]: "keeps (handler_inv c) (in_array n)"
  unfolding in_array_def by (rule keeps_on_in_fault) (rule same_request_arrays)

lemma keeps_reads_at [keeps_rules]:
  "keeps (handler_inv c) (in_u32_at n)" "keeps (handler_inv c) (in_string_at n sz)"
  unfolding in_u32_at_def in_string_at_def
  by (rule keepsI, simp split: sum.splits)+

lemma keeps_writes [keeps_rules]:
  "keeps (handler_inv c) (out_u8 b)" "keeps (handler_inv c) (out_u32 w)"
  "keeps (handler_inv c) (out_u64 d)" "keeps (handler_inv c) (out_string t n)"
  "keeps (handler_inv c) (out_skip n)" "keeps (handler_inv c) (start_reply ty sub)"
  unfolding out_u8_def out_u32_def out_u64_def out_string_def out_skip_def start_reply_def
  by (rule keeps_out, simp add: packet_wf_simps)+

lemma keeps_out_array [keeps_rules]:
  "keeps (handler_inv c) (out_array bs n)" "keeps (handler_inv c) (out_set_array bs n)"
  unfolding out_array_def out_set_array_def
  by (rule keeps_out_fault, erule (1) wf_appendArray wf_setArray)+

lemma keeps_db [keeps_rules]:
  "keeps (handler_inv c) (db_open E)" "keeps (handler_inv c) (db_exec E q)"
  "keeps (handler_inv c) (db_blob_of E q)" "keeps (handler_inv c) (db_close E)"
  unfolding db_open_def db_exec_def db_blob_of_def db_close_def by (rule keeps_on_db)+

lemma keeps_db_value [keeps_rules]: "keeps (handler_inv c) (db_value r col)"
  unfolding db_value_def by (intro keeps_rules)

lemma keeps_values [keeps_rules]:
  "keeps (handler_inv c) (hex_of mem n)" "keeps (handler_inv c) (hex_of_string t)"
  "keeps (handler_inv c) (stoulP t)" "keeps (handler_inv c) (stoullP t)"
  unfolding hex_of_def hex_of_string_def stoulP_def stoullP_def by (rule keeps_lift)+

end
