(* ===== verification/Server_State.thy ===== *)
theory Server_State
  imports Client Database
begin

text \<open>
  The class \<open>Server\<close> (server.h, server.cpp): its state, the flags of its life cycle, and the table
  of connections. The slots are allocated once by \<open>Initialize\<close>; a slot is free while its
  \<open>ClientSocket\<close> is negative. \<open>serverConnections\<close> lists the slots in use, in the order they were
  taken, in its first \<open>serverNumConnections\<close> entries. \<open>logpath\<close> is the member of the logger. The title of the console window is not part
  of the state.
\<close>

record 'd server =
  connections :: "client list"
  db :: "'d database option"
  ServerSocket :: int
  TempSocket :: int
  serverConnections :: "u32 list"
  serverNumConnections :: u32
  running :: bool
  paused :: bool
  isService :: bool
  databasetype :: u32
  databaseusername :: cppstring
  databasepassword :: cppstring
  databasehost :: cppstring
  databasename :: cppstring
  databaseport :: u16
  webserver :: bool
  serverport :: u16
  webserverport :: u16
  serverClientLimit :: u32
  logpath :: cppstring

section \<open>Life cycle\<close>

text \<open>The constructor does not set \<open>db\<close>: \<open>None\<close> is a pointer that must not be used.\<close>

definition new_Server :: "bool \<Rightarrow> 'd server" where
  "new_Server type =
     \<lparr>connections = [], db = None, ServerSocket = - 1, TempSocket = - 1, serverConnections = [],
      serverNumConnections = 0, running = False, paused = False, isService = type,
      databasetype = DBTYPE_SQLITE, databaseusername = [], databasepassword = [],
      databasehost = [], databasename = [], databaseport = 3306, webserver = True,
      serverport = 7946, webserverport = 8080, serverClientLimit = 10,
      logpath = ''.'' @ CHR 0x5C # ''log''\<rparr>"

text \<open>
  \<open>resize\<close> keeps what is there and adds zeros; then every slot is a new object. The list \<open>flags\<close>
  has what the memory of each new slot held in \<open>hassize\<close> and \<open>packetready\<close>.
\<close>

definition Initialize_server :: "(nat \<Rightarrow> bool \<times> bool) \<Rightarrow> 'd server \<Rightarrow> 'd server" where
  "Initialize_server flags s =
     (let n = unat (serverClientLimit s)
      in s\<lparr>connections := map (\<lambda>i. new_CLIENT (fst (flags i)) (snd (flags i))) [0..<n],
           serverConnections := replicate n 0\<rparr>)"

definition IsRunning :: "'d server \<Rightarrow> bool" where
  "IsRunning s = running s"

definition Stop :: "'d server \<Rightarrow> int \<times> 'd server" where
  "Stop s = (if running s = False then (1, s) else (0, s\<lparr>running := False\<rparr>))"

definition Pause :: "'d server \<Rightarrow> int \<times> 'd server" where
  "Pause s = (if paused s = True then (1, s) else (0, s\<lparr>paused := True\<rparr>))"

definition Unpause :: "'d server \<Rightarrow> int \<times> 'd server" where
  "Unpause s = (if paused s = False then (1, s) else (0, s\<lparr>paused := False\<rparr>))"

lemma pause_unpause:
  "\<not> paused s \<Longrightarrow> Pause s = (0, s\<lparr>paused := True\<rparr>) \<and> Unpause (snd (Pause s)) = (0, s)"
  by (cases s) (simp add: Pause_def Unpause_def)

section \<open>Slots\<close>

definition slot_used :: "client \<Rightarrow> bool" where
  "slot_used c \<longleftrightarrow> 0 \<le> ClientSocket c"

fun free_from :: "nat \<Rightarrow> client list \<Rightarrow> int" where
  "free_from fc [] = - 1"
| "free_from fc (c # cs) = (if ClientSocket c < 0 then int fc else free_from (Suc fc) cs)"

definition FreeConnection :: "'d server \<Rightarrow> int" where
  "FreeConnection s = free_from 0 (connections s)"

fun count_used :: "u32 \<Rightarrow> client list \<Rightarrow> u32" where
  "count_used n [] = n"
| "count_used n (c # cs) = count_used (if 0 \<le> ClientSocket c then n + 1 else n) cs"

definition GetClientCount :: "'d server \<Rightarrow> u32" where
  "GetClientCount s = count_used 0 (connections s)"

text \<open>
  The loop of \<open>InitializeConnection\<close> that takes one number out of \<open>serverConnections\<close> by moving
  the others down; its result is the number of entries that remain.
\<close>

fun compact :: "u32 \<Rightarrow> nat \<Rightarrow> nat list \<Rightarrow> u32 list \<Rightarrow> nat \<times> u32 list" where
  "compact index j [] sc = (j, sc)"
| "compact index j (i # is) sc =
     (if sc ! i \<noteq> index then compact index (Suc j) is (sc[j := sc ! i]) else compact index j is sc)"

definition InitializeConnection :: "nat \<Rightarrow> 'd server \<Rightarrow> fault + 'd server" where
  "InitializeConnection k s =
     (let c = connections s ! k; n = unat (serverNumConnections s)
      in if 0 \<le> ClientSocket c
         then if length (serverConnections s) < n then Inl OutOfBounds
              else let (j, sc) = compact (connection_index c) 0 [0..<n] (serverConnections s)
                   in Inr (s\<lparr>serverConnections := sc, serverNumConnections := word_of_nat j,
                             connections := (connections s)[k := Initialize c]\<rparr>)
         else Inr (s\<lparr>connections := (connections s)[k := Initialize c]\<rparr>))"

text \<open>
  A connection the listening socket has ready: the socket \<open>accept\<close> returns, the peer's address in
  text and in binary.
\<close>

record incoming =
  in_fd :: int
  in_text :: "byte list"
  in_addr :: "byte list"

text \<open>
  \<open>AcceptConnection\<close> on the connections that are ready, which it consumes: it takes the first for
  the first free slot. With no free slot it goes on accepting, and drops what it accepts, until
  nothing is ready.
\<close>

definition take_slot :: "nat \<Rightarrow> incoming \<Rightarrow> 'd server \<Rightarrow> fault + 'd server" where
  "take_slot k a s =
     (let n = unat (serverNumConnections s)
      in if length (serverConnections s) \<le> n then Inl OutOfBounds
         else Inr (s\<lparr>serverConnections := (serverConnections s)[n := word_of_nat k],
                     serverNumConnections := serverNumConnections s + 1,
                     connections := (connections s)[k := (connections s ! k)
                       \<lparr>connection_index := word_of_nat k, ClientSocket := in_fd a,
                        IP_Address := overwrite 0 (in_text a) (IP_Address (connections s ! k)),
                        ipaddr := in_addr a\<rparr>]\<rparr>))"

fun AcceptConnection ::
  "incoming list \<Rightarrow> 'd server \<Rightarrow> fault + (bool \<times> incoming list \<times> 'd server)" where
  "AcceptConnection [] s = Inr (False, [], s\<lparr>TempSocket := - 1\<rparr>)"
| "AcceptConnection (a # as) s =
     (let s1 = s\<lparr>TempSocket := in_fd a\<rparr>; k = FreeConnection s1
      in if k \<noteq> - 1
         then (case take_slot (nat k) a s1 of Inl e \<Rightarrow> Inl e | Inr s2 \<Rightarrow> Inr (True, as, s2))
         else AcceptConnection as s1)"

section \<open>Broadcast\<close>

text \<open>
  \<open>SendToAll(src)\<close>: every slot in use queues the packet. The packet goes from one \<open>Send\<close> to the
  next as the last one left it; it is the \<open>outbuf\<close> of the slot \<open>k\<close> whose packet is being handled.
\<close>

fun send_each :: "packet \<Rightarrow> client list \<Rightarrow> fault + (packet \<times> client list)" where
  "send_each src [] = Inr (src, [])"
| "send_each src (c # cs) =
     (if 0 \<le> ClientSocket c
      then (case Send_packet src c of
              Inl e \<Rightarrow> Inl e
            | Inr (src1, c1) \<Rightarrow>
                (case send_each src1 cs of Inl e \<Rightarrow> Inl e | Inr (src2, cs1) \<Rightarrow> Inr (src2, c1 # cs1)))
      else (case send_each src cs of Inl e \<Rightarrow> Inl e | Inr (src2, cs1) \<Rightarrow> Inr (src2, c # cs1)))"

definition SendToAll :: "nat \<Rightarrow> 'd server \<Rightarrow> fault + 'd server" where
  "SendToAll k s =
     (case send_each (outbuf (connections s ! k)) (connections s) of
        Inl e \<Rightarrow> Inl e
      | Inr (src, cs) \<Rightarrow> Inr (s\<lparr>connections := cs[k := (cs ! k)\<lparr>outbuf := src\<rparr>]\<rparr>))"

section \<open>The connection table\<close>

lemma free_from_None: "free_from n cs = - 1 \<longleftrightarrow> list_all slot_used cs"
  by (induction cs arbitrary: n) (auto simp: slot_used_def not_less)

lemma free_from_Some:
  "free_from n cs = int m \<Longrightarrow> n \<le> m \<and> m - n < length cs \<and> \<not> slot_used (cs ! (m - n)) \<and>
     (\<forall>i < m - n. slot_used (cs ! i))"
proof (induction cs arbitrary: n)
  case (Cons c cs)
  show ?case
  proof (cases "ClientSocket c < 0")
    case True
    with Cons.prems show ?thesis by (auto simp: slot_used_def)
  next
    case False
    then have "Suc n \<le> m \<and> m - Suc n < length cs \<and> \<not> slot_used (cs ! (m - Suc n)) \<and>
        (\<forall>i < m - Suc n. slot_used (cs ! i))"
      using Cons.IH [of "Suc n"] Cons.prems by simp
    moreover from this have "m - n = Suc (m - Suc n)" by arith
    ultimately show ?thesis using False by (auto simp: slot_used_def nth_Cons split: nat.splits)
  qed
qed simp

text \<open>The loop is a filter of the listed part; what lies behind is not touched.\<close>

lemma compact_filter:
  assumes "j \<le> i" "i + m \<le> length sc"
  shows "compact index j [i..<i + m] sc =
    (let kept = filter (\<lambda>x. x \<noteq> index) (take m (drop i sc))
     in (j + length kept, overwrite j kept sc))"
  using assms
proof (induction m arbitrary: i j sc)
  case (Suc m)
  have i: "i < length sc" using Suc.prems by simp
  have ij: "[i..<i + Suc m] = i # [Suc i..<Suc i + m]" by (simp add: upt_conv_Cons)
  have t: "take (Suc m) (drop i sc) = sc ! i # take m (drop (Suc i) sc)"
    using i by (simp add: Cons_nth_drop_Suc [symmetric])
  show ?case
  proof (cases "sc ! i = index")
    case True
    then show ?thesis using Suc.prems Suc.IH [of j "Suc i" sc] unfolding ij t by (simp add: Let_def del: upt_Suc)
  next
    case False
    let ?kept = "filter (\<lambda>x. x \<noteq> index) (take m (drop (Suc i) sc))"
    have "sc[j := sc ! i] = overwrite j [sc ! i] sc"
      using i Suc.prems(1) by (simp add: overwrite_def upd_conv_take_nth_drop)
    moreover have "drop (Suc i) (sc[j := sc ! i]) = drop (Suc i) sc"
      using Suc.prems(1) by simp
    moreover have "overwrite (Suc j) ?kept (overwrite j [sc ! i] sc) = overwrite j (sc ! i # ?kept) sc"
    proof -
      have "length ?kept \<le> m" by (rule le_trans [OF length_filter_le]) simp
      then show ?thesis
        using overwrite_append [of j "[sc ! i]" ?kept sc] Suc.prems by simp
    qed
    ultimately show ?thesis
      using False Suc.prems Suc.IH [of "Suc j" "Suc i" "sc[j := sc ! i]"]
      unfolding ij t by (simp add: Let_def del: upt_Suc)
  qed
qed (simp add: Let_def)

definition listed :: "'d server \<Rightarrow> u32 list" where
  "listed s = take (unat (serverNumConnections s)) (serverConnections s)"

text \<open>
  The table invariant: the list has one entry per slot in use, its number, once; and a slot in use
  knows its number.
\<close>

definition slots_in_use :: "client list \<Rightarrow> nat set" where
  "slots_in_use cs = {i. i < length cs \<and> slot_used (cs ! i)}"

definition table_ok :: "'d server \<Rightarrow> bool" where
  "table_ok s \<longleftrightarrow>
     length (connections s) < 2 ^ 32 \<and> length (serverConnections s) = length (connections s) \<and>
     unat (serverNumConnections s) \<le> length (serverConnections s) \<and>
     distinct (listed s) \<and> unat ` set (listed s) = slots_in_use (connections s) \<and>
     (\<forall>i \<in> slots_in_use (connections s). unat (connection_index (connections s ! i)) = i)"

lemma table_ok_cong:
  assumes "table_ok s" "serverConnections t = serverConnections s"
    and "serverNumConnections t = serverNumConnections s"
    and "length (connections t) = length (connections s)"
    and "\<And>i. i < length (connections s) \<Longrightarrow>
      ClientSocket (connections t ! i) = ClientSocket (connections s ! i) \<and>
      connection_index (connections t ! i) = connection_index (connections s ! i)"
  shows "table_ok t"
proof -
  have "slots_in_use (connections t) = slots_in_use (connections s)"
    using assms(4,5) by (auto simp: slots_in_use_def slot_used_def)
  moreover have "listed t = listed s" using assms(2,3) by (simp add: listed_def)
  ultimately show ?thesis
    using assms by (auto simp: table_ok_def slots_in_use_def)
qed

lemma inj_unat: "inj_on unat (A :: 'a::len word set)"
  by (rule inj_onI) (simp add: word_unat_eq_iff)

lemma listed_length:
  assumes "table_ok s"
  shows "length (listed s) = unat (serverNumConnections s)"
    and "unat (serverNumConnections s) = card (slots_in_use (connections s))"
proof -
  show l: "length (listed s) = unat (serverNumConnections s)"
    using assms by (simp add: table_ok_def listed_def)
  have "card (unat ` set (listed s)) = card (set (listed s))"
    by (rule card_image) (rule inj_unat)
  then show "unat (serverNumConnections s) = card (slots_in_use (connections s))"
    using assms l by (simp add: table_ok_def distinct_card)
qed

lemma finite_slots: "finite (slots_in_use cs)"
  by (simp add: slots_in_use_def)

text \<open>A free slot means that the list has room.\<close>

lemma room_for_slot:
  assumes "table_ok s" "k < length (connections s)" "\<not> slot_used (connections s ! k)"
  shows "unat (serverNumConnections s) < length (connections s)"
proof -
  have "slots_in_use (connections s) \<subset> {..<length (connections s)}"
    using assms(2,3) by (auto simp: slots_in_use_def)
  then have "card (slots_in_use (connections s)) < card {..<length (connections s)}"
    by (intro psubset_card_mono) simp_all
  then show ?thesis using listed_length(2) [OF assms(1)] by simp
qed

lemma slots_update:
  assumes "k < length cs"
  shows "slots_in_use (cs[k := c]) =
    (if slot_used c then insert k (slots_in_use cs) else slots_in_use cs - {k})"
  using assms by (auto simp: slots_in_use_def nth_list_update)

lemma take_slot_ok:
  assumes "table_ok s" "k < length (connections s)" "\<not> slot_used (connections s ! k)" "0 \<le> in_fd a"
  shows "\<exists>t. take_slot k a s = Inr t \<and> table_ok t \<and>
    slots_in_use (connections t) = insert k (slots_in_use (connections s))"
proof -
  let ?n = "unat (serverNumConnections s)"
  let ?c = "(connections s ! k)\<lparr>connection_index := word_of_nat k, ClientSocket := in_fd a,
    IP_Address := overwrite 0 (in_text a) (IP_Address (connections s ! k)), ipaddr := in_addr a\<rparr>"
  let ?t = "s\<lparr>serverConnections := (serverConnections s)[?n := word_of_nat k],
    serverNumConnections := serverNumConnections s + 1, connections := (connections s)[k := ?c]\<rparr>"
  have ok: "length (connections s) < 2 ^ 32" "length (serverConnections s) = length (connections s)"
    "distinct (listed s)" "unat ` set (listed s) = slots_in_use (connections s)"
    using assms(1) by (simp_all add: table_ok_def)
  have n: "?n < length (connections s)" by (rule room_for_slot [OF assms(1-3)])
  have k: "unat (word_of_nat k :: u32) = k" using assms(2) ok(1) by (simp add: unat_of_nat)
  have used: "slot_used ?c" using assms(4) by (simp add: slot_used_def)
  have suc: "unat (serverNumConnections s + 1) = Suc ?n"
    using n ok(1) by (simp add: unat_word_ariths)
  have lst: "listed ?t = listed s @ [word_of_nat k]"
    using n ok(2) by (simp add: listed_def suc take_Suc_conv_app_nth)
  have "k \<notin> slots_in_use (connections s)" using assms(3) by (simp add: slots_in_use_def)
  then have "distinct (listed ?t)" using ok(3,4) k unfolding lst by (metis distinct_append
      distinct_singleton disjoint_insert(1) empty_set image_eqI inf_bot_right list.simps(15))
  moreover have slots: "slots_in_use (connections ?t) = insert k (slots_in_use (connections s))"
    using slots_update [OF assms(2), of ?c] used by simp
  moreover have "unat ` set (listed ?t) = slots_in_use (connections ?t)"
    unfolding slots unfolding lst using ok(4) k by simp
  moreover have "\<forall>i \<in> slots_in_use (connections ?t). unat (connection_index (connections ?t ! i)) = i"
    using assms(1,2) k unfolding slots by (auto simp: table_ok_def nth_list_update)
  ultimately have "table_ok ?t"
    using n ok(1,2) suc by (simp add: table_ok_def)
  moreover have "take_slot k a s = Inr ?t" using n ok(2) by (simp add: take_slot_def Let_def)
  ultimately show ?thesis using slots by blast
qed

lemma FreeConnection_Some:
  assumes "FreeConnection s \<noteq> - 1"
  shows "nat (FreeConnection s) < length (connections s) \<and>
    \<not> slot_used (connections s ! nat (FreeConnection s))"
proof -
  have "free_from n cs = - 1 \<or> 0 \<le> free_from n cs" for n cs
    by (induction cs arbitrary: n) auto
  then have "FreeConnection s = int (nat (FreeConnection s))"
    using assms by (auto simp: FreeConnection_def)
  then show ?thesis
    using free_from_Some [of 0 "connections s" "nat (FreeConnection s)"] by (simp add: FreeConnection_def)
qed

lemma table_ok_TempSocket [simp]: "table_ok (s\<lparr>TempSocket := n\<rparr>) = table_ok s"
  by (simp add: table_ok_def listed_def)

lemma AcceptConnection_full:
  "FreeConnection s = - 1 \<Longrightarrow> AcceptConnection as s = Inr (False, [], s\<lparr>TempSocket := - 1\<rparr>)"
proof (induction as arbitrary: s)
  case (Cons a as)
  have "FreeConnection (s\<lparr>TempSocket := in_fd a\<rparr>) = - 1" using Cons.prems by (simp add: FreeConnection_def)
  with Cons.IH [OF this] show ?case by (simp add: Let_def)
qed simp

lemma AcceptConnection_ok:
  assumes "table_ok s" "\<forall>a \<in> set as. 0 \<le> in_fd a"
  shows "\<exists>b rest t. AcceptConnection as s = Inr (b, rest, t) \<and> table_ok t"
proof (cases as)
  case (Cons a as')
  let ?s = "s\<lparr>TempSocket := in_fd a\<rparr>"
  show ?thesis
  proof (cases "FreeConnection ?s = - 1")
    case True
    then show ?thesis using assms(1) AcceptConnection_full [OF True] by (auto simp: Cons Let_def)
  next
    case False
    then obtain t where "take_slot (nat (FreeConnection ?s)) a ?s = Inr t" "table_ok t"
      using FreeConnection_Some [OF False] take_slot_ok [of ?s "nat (FreeConnection ?s)" a] assms
      by (auto simp: Cons)
    with False show ?thesis by (auto simp: Cons Let_def)
  qed
qed (auto simp: assms(1))

lemma compact_run:
  assumes "n \<le> length sc"
  shows "compact index 0 [0..<n] sc =
    (length (filter (\<lambda>x. x \<noteq> index) (take n sc)), overwrite 0 (filter (\<lambda>x. x \<noteq> index) (take n sc)) sc)"
  using compact_filter [of 0 0 n sc index] assms by (simp add: Let_def)

lemma take_overwrite_0: "length ys \<le> length xs \<Longrightarrow> take (length ys) (overwrite 0 ys xs) = ys"
  by (simp add: overwrite_def)

lemma Initialize_free: "\<not> slot_used (Initialize c)"
  by (simp add: Initialize_def ClearSendQueue_def slot_used_def)

text \<open>Freeing a slot takes exactly its number out of the list.\<close>

lemma InitializeConnection_ok:
  assumes "table_ok s" "k < length (connections s)"
  shows "\<exists>t. InitializeConnection k s = Inr t \<and> table_ok t \<and>
    slots_in_use (connections t) = slots_in_use (connections s) - {k} \<and>
    length (connections t) = length (connections s)"
proof (cases "slot_used (connections s ! k)")
  case False
  let ?t = "s\<lparr>connections := (connections s)[k := Initialize (connections s ! k)]\<rparr>"
  have slots: "slots_in_use (connections ?t) = slots_in_use (connections s)"
    using slots_update [OF assms(2), of "Initialize (connections s ! k)"] False Initialize_free
    by (auto simp: slots_in_use_def)
  have "table_ok ?t"
    using assms False unfolding table_ok_def slots
    by (auto simp: listed_def slots_in_use_def nth_list_update)
  then show ?thesis
    using False slots by (auto simp: InitializeConnection_def slot_used_def Let_def slots_in_use_def)
next
  case True
  let ?n = "unat (serverNumConnections s)" and ?w = "connection_index (connections s ! k)"
  let ?kept = "filter (\<lambda>x. x \<noteq> ?w) (listed s)"
  let ?t = "s\<lparr>serverConnections := overwrite 0 ?kept (serverConnections s),
    serverNumConnections := word_of_nat (length ?kept),
    connections := (connections s)[k := Initialize (connections s ! k)]\<rparr>"
  have ok: "length (connections s) < 2 ^ 32" "length (serverConnections s) = length (connections s)"
    "?n \<le> length (serverConnections s)" "distinct (listed s)"
    "unat ` set (listed s) = slots_in_use (connections s)"
    using assms(1) by (simp_all add: table_ok_def)
  have k: "k \<in> slots_in_use (connections s)" using assms(2) True by (simp add: slots_in_use_def)
  then have w: "unat ?w = k" using assms(1) by (simp add: table_ok_def)
  have len: "length ?kept \<le> length (serverConnections s)" "length ?kept < 2 ^ 32"
  proof -
    have "length ?kept \<le> length (listed s)" by (rule length_filter_le)
    also have "\<dots> \<le> length (serverConnections s)" using ok(3) by (simp add: listed_def)
    finally show "length ?kept \<le> length (serverConnections s)" .
    then show "length ?kept < 2 ^ 32" using ok(1,2) by simp
  qed
  have num: "unat (word_of_nat (length ?kept) :: u32) = length ?kept"
    using len(2) by (simp add: unat_of_nat)
  have lst: "listed ?t = ?kept"
    using take_overwrite_0 [OF len(1)] num by (simp add: listed_def)
  have slots: "slots_in_use (connections ?t) = slots_in_use (connections s) - {k}"
    using slots_update [OF assms(2), of "Initialize (connections s ! k)"] Initialize_free by simp
  have "unat ` set ?kept = slots_in_use (connections s) - {k}"
  proof -
    have "unat ` set ?kept = unat ` (set (listed s) - {?w})" by (simp add: set_diff_eq)
    also have "\<dots> = unat ` set (listed s) - unat ` {?w}"
      by (rule inj_on_image_set_diff [OF inj_unat [of UNIV]]) auto
    finally show ?thesis using ok(5) w by simp
  qed
  then have "table_ok ?t"
    using ok len num assms(1) unfolding table_ok_def slots unfolding lst
    by (auto simp: slots_in_use_def nth_list_update)
  moreover have "InitializeConnection k s = Inr ?t"
    using True ok(3) compact_run [of ?n "serverConnections s" ?w]
    by (simp add: InitializeConnection_def slot_used_def Let_def listed_def)
  ultimately show ?thesis using slots by (intro exI [of _ ?t]) (simp del: listed_def)
qed

end
