(* ===== verification/Server_Auth.thy ===== *)
theory Server_Auth
  imports Session Server_State
begin

text \<open>
  \<open>ServerAuth\<close> (ServerAuthPackets.cpp): a game server proves that it holds a key of the table
  \<open>server_keys\<close> by sending its initialisation vector, and may send heartbeats. The handler looks
  at all connections, given as \<open>conns\<close>; their keys do not change while it does.
\<close>

definition on_slot :: "(client \<Rightarrow> client) \<Rightarrow> ('d session, unit) prog" where
  "on_slot f = modify (\<lambda>s. s\<lparr>cl := f (cl s)\<rparr>)"

definition on_slot_fault :: "(client \<Rightarrow> fault + client) \<Rightarrow> ('d session, unit) prog" where
  "on_slot_fault f = (\<lambda>s. case f (cl s) of Inl e \<Rightarrow> Inl e | Inr c \<Rightarrow> Inr ((), s\<lparr>cl := c\<rparr>))"

text \<open>
  The first \<open>n\<close> bytes at \<open>s.c_str()\<close>: the characters and one NUL may be read.
\<close>

definition c_str_mem :: "nat \<Rightarrow> cppstring \<Rightarrow> fault + byte list" where
  "c_str_mem n s = (if length s + 1 < n then Inl OutOfBounds else Inr (take n (bytes_of s @ [0])))"

text \<open>Is there a connection whose vector and key are the ones found? The key is only looked at when
  the vector is equal.\<close>

fun already_connected :: "cppstring \<Rightarrow> cppstring \<Rightarrow> client list \<Rightarrow> fault + bool" where
  "already_connected v k [] = Inr False"
| "already_connected v k (o' # os) =
     (case c_str_mem BLOCK_SIZE v of
        Inl e \<Rightarrow> Inl e
      | Inr vm \<Rightarrow>
          if take BLOCK_SIZE (iv o') = vm
          then (case c_str_mem KEY_SIZE k of
                  Inl e \<Rightarrow> Inl e
                | Inr km \<Rightarrow> if take KEY_SIZE (key o') = km then Inr True else already_connected v k os)
          else already_connected v k os)"

definition key_sql :: "cppstring \<Rightarrow> cppstring" where
  "key_sql ivStr = sql [''SELECT * FROM server_keys WHERE iv = '', xlit ivStr]"

text \<open>A key was found: its row is read by column number.\<close>

definition accept_key :: "'d env \<Rightarrow> client list \<Rightarrow> ('d session, bool) prog" where
  "accept_key E conns =
     bnd (gets (\<lambda>s. results (sdb s))) (\<lambda>rs.
     bnd (lift (GetValue rs 0 0)) (\<lambda>v.
     bnd (lift (GetValue rs 0 1)) (\<lambda>k.
     bnd (lift (already_connected v k conns)) (\<lambda>connected.
     if connected
     then stm (steps [on_slot Disconnect, stm (db_close E) (ret ())]) (ret False)
     else bnd (lift (c_str_mem BLOCK_SIZE v)) (\<lambda>vm.
          bnd (lift (c_str_mem KEY_SIZE k)) (\<lambda>km.
          stm (steps
            [on_slot (\<lambda>c. c\<lparr>iv := overwrite 0 vm (iv c)\<rparr>),
             on_slot (\<lambda>c. c\<lparr>key := overwrite 0 km (key c)\<rparr>),
             on_slot SetAuth,
             on_slot_fault (sendAuth (rand_value E))])
          (ret True)))))))"

definition key_check :: "'d env \<Rightarrow> client list \<Rightarrow> ('d session, unit) prog" where
  "key_check E conns =
     bnd (gets (\<lambda>s. getArray_at 16 6 (inbuf (cl s)))) (\<lambda>r.
     bnd (lift r) (\<lambda>ivBytes.
     bnd (db_open E) (\<lambda>res.
     whenP (res = DB_OK)
       (bnd (hex_of (case ivBytes of None \<Rightarrow> [] | Some b \<Rightarrow> b) 16) (\<lambda>ivStr.
        bnd (db_exec E (key_sql ivStr)) (\<lambda>res.
        bnd (if res \<noteq> 0 then accept_key E conns else stm (on_slot Disconnect) (ret True)) (\<lambda>go.
        whenP go (stm (db_close E) (ret ())))))))))"

definition heartbeat_received :: "'d env \<Rightarrow> ('d session, unit) prog" where
  "heartbeat_received E =
     on_slot (\<lambda>c. c\<lparr>lastHeartBeat := uint (timeGetTime E + word_of_int HEARTBEAT_TIME)\<rparr>)"

definition ServerAuth :: "'d env \<Rightarrow> client list \<Rightarrow> ('d session, after) prog" where
  "ServerAuth E conns =
     bnd (gets cl) (\<lambda>c.
     let t = getSubType (inbuf c) in
     stm (if t = 0 then whenP (isAuth c = False \<and> pSize (inbuf c) = 0x20) (key_check E conns)
          else if t = 1 then heartbeat_received E
          else ret ())
     (ret Return))"

end
