(* ===== verification/Client_Requests.thy ===== *)
theory Client_Requests
  imports Session
begin

text \<open>
  The requests of a game server that store a player's data (ClientRequestsPackets.cpp, subtypes 0
  to 2): save the client data, swap or move a car in the garage, remove a car. None of them
  replies.
\<close>

section \<open>Records of the save request\<close>

record CAR =
  carID :: u32
  KMs :: u32
  engineCondition :: u32
  bay :: u32
  cardata :: "byte list"

text \<open>\<open>RIVAL_STATUS rivalStatus[100]\<close> is used as 1200 bytes of memory only.\<close>

definition sizeof_rivalStatus :: nat where "sizeof_rivalStatus = 100 * (8 + 4)"
definition sizeof_cardata :: nat where "sizeof_cardata = 96 + 91"
definition sizeof_sign :: nat where "sizeof_sign = 54"

lemmas sizeofs = sizeof_rivalStatus_def sizeof_cardata_def sizeof_sign_def

record save_data =
  sv_license :: u32
  sv_handle :: cppstring
  sv_CP :: u64
  sv_level :: u32
  sv_points :: u32
  sv_playerWin :: u32
  sv_playerLose :: u32
  sv_rivalWin :: u32
  sv_rivalLose :: u32
  sv_rivalStatus :: "byte list"
  sv_activeCar :: u32
  sv_privileges :: u32
  sv_notBeginner :: u32
  sv_teamId :: u32
  sv_garages :: "byte list"
  sv_cars :: "CAR list"
  sv_items :: "u16 list"
  sv_sign :: "byte list"

section \<open>Reading the save request\<close>

text \<open>\<open>static_cast<uint32_t>(get<uint8_t>())\<close>.\<close>

definition in_u8_wide :: "('d session, u32) prog" where
  "in_u8_wide = bnd in_u8 (\<lambda>b. ret (ucast b))"

definition indices :: "u32 \<Rightarrow> nat list" where
  "indices n = [0..<unat n]"

text \<open>\<open>getArray\<close> into a local array: what the array held stays when the guard fails.\<close>

definition in_array_into :: "nat \<Rightarrow> byte list \<Rightarrow> ('d session, byte list) prog" where
  "in_array_into n old =
     bnd (in_array (word_of_nat n)) (\<lambda>r.
     ret (case r of None \<Rightarrow> old | Some bs \<Rightarrow> bs))"

definition read_car :: "('d session, CAR) prog" where
  "read_car =
     bnd in_u32 (\<lambda>cid.
     bnd in_u32 (\<lambda>km.
     bnd (in_array_into sizeof_cardata (replicate sizeof_cardata 0)) (\<lambda>dat.
     bnd in_u32 (\<lambda>cond.
     bnd in_u32 (\<lambda>b.
     ret \<lparr>carID = cid, KMs = km, engineCondition = cond, bay = b, cardata = dat\<rparr>)))))"

text \<open>
  \<open>garageCount\<close>, \<open>carsInGarage\<close> and \<open>itemCount\<close> are the lengths of the vectors they fill. The
  arrays \<open>rivalStatus\<close> and \<open>sign\<close> are not initialised: they hold what the stack held.
\<close>

definition read_save :: "'d env \<Rightarrow> ('d session, save_data) prog" where
  "read_save E =
     bnd in_u32 (\<lambda>license.
     bnd (in_string 0x10) (\<lambda>handle.
     bnd in_u64 (\<lambda>CP.
     bnd in_u8_wide (\<lambda>level.
     bnd in_u32 (\<lambda>points.
     bnd in_u32 (\<lambda>playerWin.
     bnd in_u32 (\<lambda>playerLose.
     bnd in_u32 (\<lambda>rivalWin.
     bnd in_u32 (\<lambda>rivalLose.
     bnd (in_array_into sizeof_rivalStatus (stack_rival E)) (\<lambda>rivalStatus.
     bnd in_u8_wide (\<lambda>activeCar.
     bnd in_u8_wide (\<lambda>privileges.
     bnd in_u8_wide (\<lambda>notBeginner.
     bnd in_u32 (\<lambda>teamId.
     bnd in_u8_wide (\<lambda>garageCount.
     bnd (collect (indices garageCount) (\<lambda>_. in_u8)) (\<lambda>garages.
     bnd in_u8_wide (\<lambda>carsInGarage.
     bnd (collect (indices carsInGarage) (\<lambda>_. read_car)) (\<lambda>cars.
     bnd in_u32 (\<lambda>itemCount.
     bnd (collect (indices itemCount) (\<lambda>_. in_u16)) (\<lambda>items.
     bnd (in_array_into sizeof_sign (stack_sign E)) (\<lambda>sign.
     ret \<lparr>sv_license = license, sv_handle = handle, sv_CP = CP, sv_level = level,
          sv_points = points, sv_playerWin = playerWin, sv_playerLose = playerLose,
          sv_rivalWin = rivalWin, sv_rivalLose = rivalLose, sv_rivalStatus = rivalStatus,
          sv_activeCar = activeCar, sv_privileges = privileges, sv_notBeginner = notBeginner,
          sv_teamId = teamId, sv_garages = garages, sv_cars = cars, sv_items = items,
          sv_sign = sign\<rparr>)))))))))))))))))))))"

section \<open>Storing it\<close>

text \<open>A statement whose row count is not looked at.\<close>

definition run_sql :: "'d env \<Rightarrow> cppstring list \<Rightarrow> ('d session, unit) prog" where
  "run_sql E q = stm (db_exec E (sql q)) (ret ())"

text \<open>A query that decides between an update and an insert.\<close>

definition upsert ::
  "'d env \<Rightarrow> cppstring list \<Rightarrow> cppstring list \<Rightarrow> cppstring list \<Rightarrow> ('d session, unit) prog" where
  "upsert E sel upd ins =
     bnd (db_exec E (sql sel)) (\<lambda>res. if res \<noteq> 0 then run_sql E upd else run_sql E ins)"

definition teamIDStr :: "u32 \<Rightarrow> cppstring" where
  "teamIDStr teamId = (if sint teamId < 0 then ''NULL'' else dec_int (sint teamId))"

definition save_account :: "'d env \<Rightarrow> save_data \<Rightarrow> ('d session, unit) prog" where
  "save_account E v = run_sql E
     [''UPDATE account_data SET '',
      ''handle = '', quoted (sv_handle v),
      '', cp = '', dec_word (sv_CP v),
      '', level = '', dec_word (sv_level v),
      '', points = '', dec_word (sv_points v),
      '', playerwin = '', dec_word (sv_playerWin v),
      '', playerlose = '', dec_word (sv_playerLose v),
      '', rivalwin = '', dec_word (sv_rivalWin v),
      '', rivallose = '', dec_word (sv_rivalLose v),
      '', activecar = '', dec_word (sv_activeCar v),
      '', privileges = '', dec_word (sv_privileges v),
      '', teamid = '', teamIDStr (sv_teamId v),
      '', beginner = '', dec_word (sv_notBeginner v),
      '', garagecount = '', dec (length (sv_garages v)),
      '' WHERE license = '', dec_word (sv_license v)]"

definition save_rivals :: "'d env \<Rightarrow> save_data \<Rightarrow> ('d session, unit) prog" where
  "save_rivals E v =
     bnd (hex_of (sv_rivalStatus v) (word_of_nat sizeof_rivalStatus)) (\<lambda>rivalStatusStr.
     upsert E
       [''SELECT * FROM rival_data WHERE license = '', dec_word (sv_license v)]
       [''UPDATE rival_data SET '', ''rivalstatus = '', xlit rivalStatusStr,
        '' WHERE license = '', dec_word (sv_license v)]
       [''INSERT INTO rival_data(license, rivalstatus) VALUES('', dec_word (sv_license v), '', '',
        xlit rivalStatusStr, '')''])"

definition save_garages :: "'d env \<Rightarrow> save_data \<Rightarrow> ('d session, unit) prog" where
  "save_garages E v = whenP (0 < length (sv_garages v))
     (bnd (hex_of (sv_garages v) (word_of_nat (length (sv_garages v)))) (\<lambda>garageDataStr.
      run_sql E
        [''UPDATE account_data SET '', ''garagedata = '', xlit garageDataStr,
         '' WHERE license = '', dec_word (sv_license v)]))"

definition save_car :: "'d env \<Rightarrow> u32 \<Rightarrow> CAR \<Rightarrow> ('d session, unit) prog" where
  "save_car E license car =
     bnd (hex_of (cardata car) (word_of_nat sizeof_cardata)) (\<lambda>carDataStr.
     upsert E
       [''SELECT * FROM garage_data WHERE license = '', dec_word license, '' AND bay = '',
        dec_word (bay car), '' AND impounded = 0'']
       [''UPDATE garage_data SET '', ''carID = '', dec_word (carID car),
        '', KMs = '', float_text E (KMs car),
        '', condition = '', dec_word (engineCondition car),
        '', carData = '', xlit carDataStr,
        '' WHERE license = '', dec_word license,
        '' AND bay = '', dec_word (bay car), '' AND impounded <> 1'']
       [''INSERT INTO garage_data(license, bay, carID, KMs, condition, carData) VALUES('',
        dec_word license, '', '', dec_word (bay car), '', '', dec_word (carID car), '', '',
        float_text E (KMs car), '', '', dec_word (engineCondition car), '', '',
        xlit carDataStr, '')''])"

text \<open>The items are printed as the memory of a vector of 16-bit numbers.\<close>

definition item_bytes :: "u16 list \<Rightarrow> byte list" where
  "item_bytes items = concat (map u16_bytes items)"

definition save_items :: "'d env \<Rightarrow> save_data \<Rightarrow> ('d session, unit) prog" where
  "save_items E v =
     bnd (if 0 < length (sv_items v)
          then hex_of (item_bytes (sv_items v)) (word_of_nat (length (sv_items v)) * 2)
          else ret ''0000'') (\<lambda>itemDataStr.
     upsert E
       [''SELECT * FROM item_data WHERE license = '', dec_word (sv_license v), '' AND blocked = 0'']
       [''UPDATE item_data SET '', ''itemcount = '', dec (length (sv_items v)),
        '', itemdata = '', xlit itemDataStr,
        '' WHERE license = '', dec_word (sv_license v), '' AND blocked = 0'']
       [''INSERT INTO item_data(license, itemcount, itemdata) VALUES('', dec_word (sv_license v),
        '', '', dec (length (sv_items v)), '', '', xlit itemDataStr, '')''])"

definition save_sign :: "'d env \<Rightarrow> save_data \<Rightarrow> ('d session, unit) prog" where
  "save_sign E v =
     bnd (hex_of (sv_sign v) 54) (\<lambda>signDataStr.
     upsert E
       [''SELECT * FROM sign_data WHERE license = '', dec_word (sv_license v)]
       [''UPDATE sign_data SET '', ''signdata = '', xlit signDataStr,
        '' WHERE license = '', dec_word (sv_license v)]
       [''INSERT INTO sign_data(license, signData) VALUES('', dec_word (sv_license v), '', '',
        xlit signDataStr, '')''])"

definition store_save :: "'d env \<Rightarrow> save_data \<Rightarrow> ('d session, unit) prog" where
  "store_save E v = steps
     [save_account E v, save_rivals E v, save_garages E v,
      for_each (sv_cars v) (save_car E (sv_license v)), save_items E v, save_sign E v]"

definition db_close_only :: "'d env \<Rightarrow> ('d session, unit) prog" where
  "db_close_only E = stm (db_close E) (ret ())"

text \<open>Case 0: the database is closed whether or not it could be opened.\<close>

definition save_client_data :: "'d env \<Rightarrow> ('d session, after) prog" where
  "save_client_data E =
     bnd (read_save E) (\<lambda>v.
     bnd (db_open E) (\<lambda>res.
     stm (steps [whenP (res = DB_OK) (store_save E v), db_close_only E])
     (ret Return)))"

section \<open>Cars of the garage\<close>

text \<open>Case 1.\<close>

definition swap_sql :: "u32 \<Rightarrow> u32 \<Rightarrow> u32 \<Rightarrow> cppstring list" where
  "swap_sql license fromBay toBay =
     [''UPDATE garage_data SET bay = CASE bay WHEN '', dec_word fromBay, '' THEN '', dec_word toBay,
      '' WHEN '', dec_word toBay, '' THEN '', dec_word fromBay, '' END '',
      ''WHERE (bay = '', dec_word fromBay, '' AND license = '', dec_word license,
      '') OR (bay = '', dec_word toBay, '' AND license = '', dec_word license, '')'']"

definition swap_car :: "'d env \<Rightarrow> ('d session, after) prog" where
  "swap_car E =
     bnd in_u32 (\<lambda>license.
     bnd in_u8 (\<lambda>isSwapping.
     bnd in_u32 (\<lambda>fromBay.
     bnd in_u32 (\<lambda>toBay.
     bnd (db_open E) (\<lambda>res.
     stm (whenP (res = DB_OK) (steps
       [if isSwapping \<noteq> 0 then run_sql E (swap_sql license fromBay toBay)
        else run_sql E
          [''UPDATE garage_data SET bay = '', dec_word toBay, '' WHERE bay = '', dec_word fromBay,
           '' AND license = '', dec_word license],
        db_close_only E]))
     (ret Return))))))"

text \<open>Case 2.\<close>

definition remove_car :: "'d env \<Rightarrow> ('d session, after) prog" where
  "remove_car E =
     bnd in_u32 (\<lambda>license.
     bnd in_u8_wide (\<lambda>bay.
     bnd (db_open E) (\<lambda>res.
     stm (whenP (res = DB_OK) (steps
       [run_sql E [''DELETE FROM garage_data WHERE bay = '', dec_word bay, '' AND license = '',
          dec_word license],
        db_close_only E]))
     (ret Return))))"

section \<open>What they keep\<close>

lemma keeps_reading [keeps_rules]:
  "keeps (handler_inv c) in_u8_wide" "keeps (handler_inv c) (in_array_into n old)"
  "keeps (handler_inv c) read_car" "keeps (handler_inv c) (read_save E)"
  unfolding in_u8_wide_def in_array_into_def read_car_def read_save_def
  by (intro keeps_rules)+

lemma keeps_statements [keeps_rules]:
  "keeps (handler_inv c) (run_sql E q)" "keeps (handler_inv c) (upsert E q1 q2 q3)"
  "keeps (handler_inv c) (db_close_only E)"
  unfolding run_sql_def upsert_def db_close_only_def by (intro keeps_rules)+

lemma keeps_store [keeps_rules]: "keeps (handler_inv c) (store_save E v)"
  unfolding store_save_def save_account_def save_rivals_def save_garages_def save_car_def
    save_items_def save_sign_def
  by (intro keeps_rules)

lemma keeps_save_requests [keeps_rules]:
  "keeps (handler_inv c) (save_client_data E)" "keeps (handler_inv c) (swap_car E)"
  "keeps (handler_inv c) (remove_car E)"
  unfolding save_client_data_def swap_car_def remove_car_def by (intro keeps_rules)+

end
