(* ===== verification/Team_Requests.thy ===== *)
theory Team_Requests
  imports Client_Requests
begin

text \<open>
  The team requests of a game server (ClientRequestsPackets.cpp, subtypes 3 to 9) and the switch
  of \<open>ClientRequests\<close>.
\<close>

section \<open>Queries the cases share\<close>

definition no_team_sql :: "u32 \<Rightarrow> cppstring list" where
  "no_team_sql license =
     [''SELECT teamid FROM account_data WHERE license = '', dec_word license,
      '' AND (teamid IS NULL OR teamid == '', quoted [], '')'']"

definition in_team_sql :: "u32 \<Rightarrow> cppstring list" where
  "in_team_sql license =
     [''SELECT teamid FROM account_data WHERE license = '', dec_word license,
      '' AND teamid IS NOT NULL AND teamid <> '', quoted []]"

definition account_in_team_sql :: "u32 \<Rightarrow> cppstring list" where
  "account_in_team_sql license =
     [''SELECT * FROM account_data WHERE license = '', dec_word license,
      '' AND teamid IS NOT NULL AND teamid <> '', quoted []]"

definition leads_sql :: "cppstring \<Rightarrow> u32 \<Rightarrow> cppstring list" where
  "leads_sql teamid license =
     [''SELECT * FROM team_data WHERE teamid = '', teamid, '' AND leader = '', dec_word license]"

definition member_sql :: "u32 \<Rightarrow> cppstring \<Rightarrow> cppstring list" where
  "member_sql memberID teamid =
     [''SELECT * FROM account_data WHERE license = '', dec_word memberID, '' AND teamid = '', teamid]"

definition out_stoul :: "cppstring \<Rightarrow> ('d session, unit) prog" where
  "out_stoul s = bnd (stoulP s) out_u32"

section \<open>Creating a team\<close>

text \<open>
  The inner declaration of \<open>teamid\<close> hides the outer one, so the reply always carries the text 0
  as the team's number.
\<close>

definition insert_team :: "'d env \<Rightarrow> u32 \<Rightarrow> cppstring \<Rightarrow> ('d session, byte) prog" where
  "insert_team E license teamName =
     bnd (hex_of_string teamName) (\<lambda>teamNameHex.
     stm (run_sql E
       [''INSERT INTO team_data(leader, teamname) VALUES('', dec_word license, '', '',
        xlit teamNameHex, '')''])
     (bnd (db_exec E (sql [''SELECT teamid FROM team_data WHERE teamname = '', xlit teamNameHex])) (\<lambda>res.
      if res \<noteq> 0
      then bnd (db_value 0 ''teamid'') (\<lambda>teamid.
           stm (run_sql E
             [''UPDATE account_data SET '', ''teamid = '', teamid, '' WHERE license = '', dec_word license])
           (ret 0))
      else ret 1)))"

definition create_team :: "'d env \<Rightarrow> ('d session, after) prog" where
  "create_team E =
     bnd in_u32 (\<lambda>license.
     bnd (in_string 0x10) (\<lambda>teamName.
     bnd (hex_of_string (tolower teamName)) (\<lambda>teamNameHex.
     bnd (db_open E) (\<lambda>res.
     bnd (if res = DB_OK
          then bnd (db_exec E (sql (no_team_sql license))) (\<lambda>res.
               bnd (if res \<noteq> 0
                    then bnd (db_exec E (sql [''SELECT * FROM team_data WHERE HEX(LOWER(teamname)) = '',
                                quoted teamNameHex])) (\<lambda>res.
                         if res = 0 then insert_team E license teamName else ret 1)
                    else ret 2) (\<lambda>result.
               stm (db_close_only E) (ret result)))
          else ret 1) (\<lambda>result.
     stm (steps
       [start_reply 2 0, out_u32 license, out_stoul ''0'', out_u8 result, out_string teamName 0x10])
     (ret FallOut))))))"

section \<open>What a team leader may change\<close>

text \<open>
  Cases 4 to 6: find the team of the account, check that the account leads it, run the update
  \<open>body\<close>. The result is the team's number and the code of the reply: 0 done, 1 no database, 2 not
  in a team, 3 not its leader.
\<close>

definition as_leader ::
  "'d env \<Rightarrow> u32 \<Rightarrow> (cppstring \<Rightarrow> ('d session, unit) prog) \<Rightarrow> ('d session, cppstring \<times> byte) prog" where
  "as_leader E license body =
     bnd (db_open E) (\<lambda>res.
     if res = DB_OK
     then bnd (db_exec E (sql (in_team_sql license))) (\<lambda>res.
          bnd (if res \<noteq> 0
               then bnd (db_value 0 ''teamid'') (\<lambda>teamid.
                    bnd (db_exec E (sql (leads_sql teamid license))) (\<lambda>res.
                    if res \<noteq> 0 then stm (body teamid) (ret (teamid, 0)) else ret (teamid, 3)))
               else ret (''0'', 2)) (\<lambda>r.
          stm (db_close_only E) (ret r)))
     else ret (''0'', 1))"

text \<open>Case 4. The flags are read from the row of the team.\<close>

definition set_invite :: "'d env \<Rightarrow> u32 \<Rightarrow> byte \<Rightarrow> cppstring \<Rightarrow> ('d session, unit) prog" where
  "set_invite E license inviteStatus teamid =
     bnd (db_value 0 ''flags'') (\<lambda>flags.
     bnd (stoulP flags) (\<lambda>flag.
     run_sql E
       [''UPDATE team_data SET '', ''flags = '',
        dec_word ((flag AND NOT 1) OR ucast inviteStatus),
        '' WHERE leader = '', dec_word license]))"

definition update_invite :: "'d env \<Rightarrow> ('d session, after) prog" where
  "update_invite E =
     bnd in_u32 (\<lambda>license.
     bnd in_u8 (\<lambda>b.
     bnd (as_leader E license (set_invite E license (b AND 1))) (\<lambda>(teamid, result).
     stm (steps
       [start_reply 2 1, out_u32 license, out_stoul teamid, out_u8 result, out_u8 (b AND 1)])
     (ret FallOut))))"

text \<open>Case 5.\<close>

definition update_comment :: "'d env \<Rightarrow> ('d session, after) prog" where
  "update_comment E =
     bnd in_u32 (\<lambda>license.
     bnd (in_string 0x28) (\<lambda>teamComment.
     bnd (hex_of_string teamComment) (\<lambda>teamCommentHex.
     bnd (as_leader E license (\<lambda>teamid. run_sql E
       [''UPDATE team_data SET '', ''teamcomment = '', xlit teamCommentHex,
        '' WHERE leader = '', dec_word license])) (\<lambda>(teamid, result).
     stm (steps
       [start_reply 2 2, out_u32 license, out_stoul teamid, out_u8 result,
        out_string teamComment 0x28])
     (ret FallOut)))))"

text \<open>Case 6.\<close>

definition drop_team :: "'d env \<Rightarrow> cppstring \<Rightarrow> ('d session, unit) prog" where
  "drop_team E teamid = steps
     [run_sql E [''DELETE FROM team_data WHERE teamid = '', teamid],
      run_sql E [''UPDATE account_data SET '', ''teamid = NULL AND teamarea = 0 WHERE teamid = '', teamid]]"

definition delete_team :: "'d env \<Rightarrow> ('d session, after) prog" where
  "delete_team E =
     bnd in_u32 (\<lambda>license.
     bnd (as_leader E license (drop_team E)) (\<lambda>(teamid, result).
     stm (steps [start_reply 2 3, out_u32 license, out_stoul teamid, out_u8 result])
     (ret FallOut)))"

section \<open>Team data\<close>

definition or_zero :: "cppstring \<Rightarrow> cppstring" where
  "or_zero s = (if s = ''NULL'' \<or> s = [] then ''0'' else s)"

text \<open>Case 7, for an account without a team.\<close>

definition no_team_reply :: "u32 \<Rightarrow> ('d session, unit) prog" where
  "no_team_reply license = steps
     [start_reply 2 4, out_u32 license, out_u32 0xFFFFFFFF, out_u32 0,
      out_string [] 0x10, out_string [] 0x10, out_string [] 0x28,
      out_u32 0, out_u32 0, out_u32 0, out_u32 0, out_u8 0]"

definition member_entry :: "cppstring \<Rightarrow> nat \<Rightarrow> ('d session, unit) prog" where
  "member_entry leader i =
     bnd (db_value i ''license'') (\<lambda>memberLicense.
     bnd (db_value i ''handle'') (\<lambda>memberName.
     bnd (db_value i ''rank'') (\<lambda>memberRank.
     bnd (db_value i ''teamarea'') (\<lambda>memberArea.
     steps
       [out_stoul (or_zero memberLicense), out_string memberName 0x10,
        out_stoul (or_zero memberRank),
        out_u8 (if leader = or_zero memberLicense then 1 else 0),
        bnd (stoulP (or_zero memberArea)) (\<lambda>a. out_u8 (ucast a))]))))"

definition team_reply :: "'d env \<Rightarrow> u32 \<Rightarrow> cppstring \<Rightarrow> cppstring \<Rightarrow> ('d session, unit) prog" where
  "team_reply E license teamid teamarea =
     bnd (db_value 0 ''leader'') (\<lambda>leader.
     bnd (db_value 0 ''teamname'') (\<lambda>teamname.
     bnd (db_value 0 ''teamcomment'') (\<lambda>comment.
     bnd (db_value 0 ''survivalwin'') (\<lambda>survivalwin.
     bnd (db_value 0 ''survivallose'') (\<lambda>survivallose.
     bnd (db_value 0 ''flags'') (\<lambda>flags.
     bnd (db_exec E (sql [''SELECT handle FROM account_data WHERE license = '', leader])) (\<lambda>res.
     bnd (if res \<noteq> 0 then db_value 0 ''handle'' else ret ''UNKNOWN'') (\<lambda>leaderName.
     bnd (db_exec E (sql [''SELECT * FROM account_data WHERE teamid = '', teamid])) (\<lambda>res.
     let teamCount = word_of_int res :: u32 in
     steps
       [start_reply 2 4, out_u32 license, out_stoul teamid, out_stoul leader,
        out_string leaderName 0x10, out_string teamname 0x10, out_string comment 0x28,
        out_stoul survivalwin, out_stoul survivallose, out_u32 teamCount, out_stoul flags,
        for_each (indices teamCount) (member_entry leader),
        bnd (stoulP teamarea) (\<lambda>a. out_u8 (ucast a))])))))))))"

text \<open>The two broadcasts leave the database open.\<close>

definition get_team_data :: "'d env \<Rightarrow> ('d session, after) prog" where
  "get_team_data E =
     bnd in_u32 (\<lambda>license.
     bnd (db_open E) (\<lambda>res.
     if res = DB_OK
     then bnd (db_exec E (sql [''SELECT * FROM account_data WHERE license = '', dec_word license])) (\<lambda>res.
          if res \<noteq> 0
          then bnd (db_value 0 ''teamid'') (\<lambda>teamid.
               bnd (db_value 0 ''teamarea'') (\<lambda>teamarea.
               if teamid = ''NULL'' \<or> teamid = []
               then stm (no_team_reply license) (ret BroadcastReturn)
               else bnd (db_exec E (sql [''SELECT * FROM team_data WHERE teamid = '', teamid])) (\<lambda>res.
                    if res \<noteq> 0
                    then stm (team_reply E license teamid (or_zero teamarea)) (ret BroadcastReturn)
                    else stm (db_close_only E) (ret Return))))
          else stm (db_close_only E) (ret Return))
     else ret FallOut))"

section \<open>Members\<close>

text \<open>Case 8.\<close>

definition adjust_team_area :: "'d env \<Rightarrow> ('d session, after) prog" where
  "adjust_team_area E =
     bnd in_u32 (\<lambda>license.
     bnd in_u32 (\<lambda>memberID.
     bnd in_u8_wide (\<lambda>access.
     bnd (db_open E) (\<lambda>res.
     stm (whenP (res = DB_OK) (steps
       [bnd (db_exec E (sql (account_in_team_sql license))) (\<lambda>res. whenP (res \<noteq> 0)
          (bnd (db_value 0 ''teamid'') (\<lambda>teamid.
           bnd (db_exec E (sql (leads_sql teamid license))) (\<lambda>res. whenP (res \<noteq> 0)
             (bnd (db_exec E (sql (member_sql memberID teamid))) (\<lambda>res. whenP (res \<noteq> 0)
                (run_sql E [''UPDATE account_data SET '', ''teamarea = '', dec_word access,
                   '' WHERE license = '', dec_word memberID]))))))),
        db_close_only E]))
     (ret Return)))))"

text \<open>Case 9.\<close>

definition recount_team :: "'d env \<Rightarrow> cppstring \<Rightarrow> ('d session, unit) prog" where
  "recount_team E teamid =
     bnd (db_exec E (sql [''SELECT * FROM account_data WHERE teamid = '', teamid])) (\<lambda>res.
     let teamcount = word_of_int res :: u32 in
     whenP (teamcount \<noteq> 0)
       (run_sql E [''UPDATE team_data SET '', ''teamcount = '',
          dec_word (if 1 < teamcount then teamcount - 1 else teamcount),
          '' WHERE teamid = '', teamid]))"

definition take_member :: "'d env \<Rightarrow> u32 \<Rightarrow> u32 \<Rightarrow> ('d session, byte) prog" where
  "take_member E license memberID =
     bnd (db_exec E (sql (account_in_team_sql license))) (\<lambda>res.
     if res \<noteq> 0
     then bnd (db_value 0 ''teamid'') (\<lambda>teamid.
          bnd (db_exec E (sql (leads_sql teamid license))) (\<lambda>res.
          if res \<noteq> 0
          then bnd (db_exec E (sql (member_sql memberID teamid))) (\<lambda>res.
               if res \<noteq> 0
               then stm (steps
                 [run_sql E [''UPDATE account_data SET '',
                    ''teamid = NULL AND teamarea = 0 WHERE license = '', dec_word memberID],
                  recount_team E teamid]) (ret 0)
               else ret 1)
          else ret 1))
     else ret 1)"

definition remove_member :: "'d env \<Rightarrow> ('d session, after) prog" where
  "remove_member E =
     bnd in_u32 (\<lambda>license.
     bnd in_u32 (\<lambda>memberID.
     bnd (db_open E) (\<lambda>res.
     bnd (if res = DB_OK \<and> license \<noteq> memberID
          then bnd (take_member E license memberID) (\<lambda>result.
               stm (db_close_only E) (ret result))
          else ret 1) (\<lambda>result.
     stm (steps [start_reply 2 5, out_u32 license, out_u8 result])
     (ret FallOut)))))"

section \<open>The switch\<close>

text \<open>An unknown subtype falls out of the switch.\<close>

definition ClientRequests :: "'d env \<Rightarrow> ('d session, after) prog" where
  "ClientRequests E =
     stm (in_offset 6)
     (bnd (gets (\<lambda>s. getSubType (inbuf (cl s)))) (\<lambda>t.
      if t = 0 then save_client_data E
      else if t = 1 then swap_car E
      else if t = 2 then remove_car E
      else if t = 3 then create_team E
      else if t = 4 then update_invite E
      else if t = 5 then update_comment E
      else if t = 6 then delete_team E
      else if t = 7 then get_team_data E
      else if t = 8 then adjust_team_area E
      else if t = 9 then remove_member E
      else ret FallOut))"

section \<open>What they keep\<close>

lemma keeps_out_stoul [keeps_rules]: "keeps (handler_inv c) (out_stoul t)"
  unfolding out_stoul_def by (intro keeps_rules)

lemma keeps_as_leader [keeps_rules]:
  "(\<And>t. keeps (handler_inv c) (body t)) \<Longrightarrow> keeps (handler_inv c) (as_leader E license body)"
  unfolding as_leader_def by (intro keeps_rules)

lemma keeps_team_requests [keeps_rules]:
  "keeps (handler_inv c) (create_team E)" "keeps (handler_inv c) (update_invite E)"
  "keeps (handler_inv c) (update_comment E)" "keeps (handler_inv c) (delete_team E)"
  "keeps (handler_inv c) (get_team_data E)" "keeps (handler_inv c) (adjust_team_area E)"
  "keeps (handler_inv c) (remove_member E)"
  unfolding create_team_def insert_team_def update_invite_def set_invite_def update_comment_def
    delete_team_def drop_team_def get_team_data_def no_team_reply_def team_reply_def
    member_entry_def adjust_team_area_def remove_member_def take_member_def recount_team_def
  by (intro keeps_rules)+

lemma keeps_ClientRequests [keeps_rules]: "keeps (handler_inv c) (ClientRequests E)"
  unfolding ClientRequests_def by (intro keeps_rules)

end
