(* ===== verification/Passwords.thy ===== *)
theory Passwords
  imports Session
begin

text \<open>
  How a password is stored and compared: \<open>Server::GetHash\<close> (server.cpp) and the lines that
  \<open>ClientAuth\<close>, \<open>CreateAccount\<close> and \<open>SetPassword\<close> share, which hash the secret of the server, a
  full stop and the password, and print the digest as 64 hexadecimal characters.
\<close>

definition HASH_SECRET :: cppstring where
  "HASH_SECRET = ''GENKIWHYYOUDOTHIS?''"

definition SHA256_DIGEST_LENGTH :: nat where
  "SHA256_DIGEST_LENGTH = 32"

text \<open>
  \<open>GetHash(src, dst, length)\<close>: when one of the three calls of OpenSSL fails, \<open>dst\<close> keeps what it
  held and the result is false.
\<close>

definition GetHash :: "'d env \<Rightarrow> byte list \<Rightarrow> byte list \<Rightarrow> bool \<times> byte list" where
  "GetHash E src dst = (case SHA256 E src of None \<Rightarrow> (False, dst) | Some d \<Rightarrow> (True, d))"

text \<open>No caller looks at the result of \<open>GetHash\<close>.\<close>

definition password_hash :: "'d env \<Rightarrow> cppstring \<Rightarrow> fault + cppstring" where
  "password_hash E password =
     (let finalPassword = HASH_SECRET @ ''.'' @ password;
          cryptoPW = snd (GetHash E (bytes_of finalPassword) (replicate SHA256_DIGEST_LENGTH 0))
      in HexString_to [] (SHA256_DIGEST_LENGTH * 2 + 1) (Some cryptoPW)
           (word_of_nat SHA256_DIGEST_LENGTH))"

text \<open>OpenSSL's digests have 32 bytes.\<close>

definition sha_ok :: "'d env \<Rightarrow> bool" where
  "sha_ok E \<longleftrightarrow> (\<forall>src d. SHA256 E src = Some d \<longrightarrow> length d = 32)"

lemma length_GetHash: "sha_ok E \<Longrightarrow> length dst = 32 \<Longrightarrow> length (snd (GetHash E src dst)) = 32"
  by (auto simp: GetHash_def sha_ok_def split: option.splits)

lemma password_hash_hex:
  assumes "sha_ok E"
  shows "password_hash E password =
    Inr (hex (snd (GetHash E (bytes_of (HASH_SECRET @ ''.'' @ password)) (replicate 32 0))))"
  using length_GetHash [OF assms, of "replicate 32 0"]
  by (simp add: password_hash_def SHA256_DIGEST_LENGTH_def HexString_to_len)

text \<open>
  The stored text is made of 64 hexadecimal digits, whatever the password, and two passwords are
  stored alike only if their digests are equal.
\<close>

lemma password_hash_inject:
  assumes "sha_ok E" "SHA256 E (bytes_of (HASH_SECRET @ ''.'' @ p)) = Some a"
    and "SHA256 E (bytes_of (HASH_SECRET @ ''.'' @ q)) = Some b"
  shows "password_hash E p = password_hash E q \<longleftrightarrow> a = b"
  using assms by (auto simp: password_hash_hex GetHash_def hex_inject)

text \<open>When hashing fails, every password is stored as 64 zeros.\<close>

lemma password_hash_failed:
  assumes "\<And>src. SHA256 E src = None"
  shows "password_hash E p = Inr (hex (replicate 32 0))"
  using assms password_hash_hex [of E p] by (simp add: sha_ok_def GetHash_def)

end
