(* ===== verification/Client_Auth.thy ===== *)
theory Client_Auth
  imports Team_Requests Passwords
begin

text \<open>
  \<open>ClientAuth\<close> (ClientAuthPackets.cpp): the login of a player, whose reply carries everything the
  game server needs of the account, and the check whether a handle is taken.
\<close>

section \<open>The account row\<close>

record account_row =
  ac_license :: cppstring
  ac_handle :: cppstring
  ac_cp :: cppstring
  ac_level :: cppstring
  ac_points :: cppstring
  ac_playerwin :: cppstring
  ac_playerlose :: cppstring
  ac_rivalwin :: cppstring
  ac_rivallose :: cppstring
  ac_activecar :: cppstring
  ac_privileges :: cppstring
  ac_teamid :: cppstring
  ac_teamarea :: cppstring
  ac_state :: cppstring
  ac_notbeginner :: cppstring
  ac_garagecount :: cppstring

definition read_account :: "('d session, account_row) prog" where
  "read_account =
     bnd (db_value 0 ''license'') (\<lambda>licenseNo.
     bnd (db_value 0 ''handle'') (\<lambda>handle.
     bnd (db_value 0 ''cp'') (\<lambda>cp.
     bnd (db_value 0 ''level'') (\<lambda>level.
     bnd (db_value 0 ''points'') (\<lambda>points.
     bnd (db_value 0 ''playerwin'') (\<lambda>playerwin.
     bnd (db_value 0 ''playerlose'') (\<lambda>playerlose.
     bnd (db_value 0 ''rivalwin'') (\<lambda>rivalwin.
     bnd (db_value 0 ''rivallose'') (\<lambda>rivallose.
     bnd (db_value 0 ''activecar'') (\<lambda>activecar.
     bnd (db_value 0 ''privileges'') (\<lambda>privileges.
     bnd (db_value 0 ''teamid'') (\<lambda>teamid.
     bnd (db_value 0 ''teamarea'') (\<lambda>teamarea.
     bnd (db_value 0 ''state'') (\<lambda>state.
     bnd (db_value 0 ''beginner'') (\<lambda>notbeginner.
     bnd (db_value 0 ''garagecount'') (\<lambda>garagecount.
     ret \<lparr>ac_license = licenseNo, ac_handle = handle, ac_cp = cp, ac_level = level,
          ac_points = points, ac_playerwin = playerwin, ac_playerlose = playerlose,
          ac_rivalwin = rivalwin, ac_rivallose = rivallose, ac_activecar = activecar,
          ac_privileges = privileges, ac_teamid = teamid, ac_teamarea = teamarea,
          ac_state = state, ac_notbeginner = notbeginner,
          ac_garagecount = garagecount\<rparr>))))))))))))))))"

text \<open>
  The defaults, in the order of the source. The test for \<open>teamarea\<close> looks at \<open>teamid\<close>, which has
  its default by then: an empty \<open>teamarea\<close> stays empty.
\<close>

definition if_empty :: "cppstring \<Rightarrow> cppstring \<Rightarrow> cppstring" where
  "if_empty d s = (if s = [] then d else s)"

definition if_null_or_empty :: "cppstring \<Rightarrow> cppstring \<Rightarrow> cppstring" where
  "if_null_or_empty d s = (if s = ''NULL'' \<or> s = [] then d else s)"

definition account_defaults :: "account_row \<Rightarrow> account_row" where
  "account_defaults a =
     (let teamid = if_null_or_empty ''-1'' (ac_teamid a)
      in \<lparr>ac_license = if_empty ''-1'' (ac_license a),
          ac_handle = (if ac_handle a = ''NULL'' then [] else ac_handle a),
          ac_cp = if_empty ''0'' (ac_cp a), ac_level = if_empty ''0'' (ac_level a),
          ac_points = if_empty ''0'' (ac_points a),
          ac_playerwin = if_empty ''0'' (ac_playerwin a),
          ac_playerlose = if_empty ''0'' (ac_playerlose a),
          ac_rivalwin = if_empty ''0'' (ac_rivalwin a),
          ac_rivallose = if_empty ''0'' (ac_rivallose a),
          ac_activecar = if_null_or_empty ''-1'' (ac_activecar a),
          ac_privileges = if_empty ''0'' (ac_privileges a),
          ac_teamid = teamid,
          ac_teamarea = (if ac_teamarea a = ''NULL'' \<or> teamid = [] then ''0'' else ac_teamarea a),
          ac_state = if_empty ''0'' (ac_state a),
          ac_notbeginner = if_empty ''0'' (ac_notbeginner a),
          ac_garagecount = if_null_or_empty ''0'' (ac_garagecount a)\<rparr>)"

section \<open>The login reply\<close>

definition out_stoul8 :: "cppstring \<Rightarrow> ('d session, unit) prog" where
  "out_stoul8 s = bnd (stoulP s) (\<lambda>w. out_u8 (ucast w))"

definition out_stoull :: "cppstring \<Rightarrow> ('d session, unit) prog" where
  "out_stoull s = bnd (stoullP s) out_u64"

text \<open>\<open>setOffset(getOffset() + n); setSize(getSize() + n)\<close>, narrowed to 16 bits.\<close>

definition out_move :: "u32 \<Rightarrow> ('d session, unit) prog" where
  "out_move n = out (\<lambda>p. setSize (ucast (ucast (pSize p) + n)) (setOffset (ucast (ucast (pOffset p) + n)) p))"

definition already_logged_in :: "u32 \<Rightarrow> account_row \<Rightarrow> ('d session, unit) prog" where
  "already_logged_in clientSocket a = steps
     [start_reply 1 0, out_u32 clientSocket, out_stoul (ac_license a), out_u8 1]"

definition login_failed :: "u32 \<Rightarrow> ('d session, unit) prog" where
  "login_failed clientSocket = steps
     [start_reply 1 0, out_u32 clientSocket, out_u32 0xFFFFFFFF]"

definition player_details :: "u32 \<Rightarrow> account_row \<Rightarrow> db_blob \<Rightarrow> ('d session, unit) prog" where
  "player_details clientSocket a rivalStatus = steps
     [start_reply 1 0, out_u32 clientSocket, out_stoul (ac_license a), out_u8 0,
      out_set_array (bytes_of (ac_handle a) @ [0]) (word_of_nat (length (ac_handle a))),
      out_move 16,
      out_stoull (ac_cp a), out_stoul8 (ac_level a), out_stoul (ac_points a),
      out_stoul (ac_playerwin a), out_stoul (ac_playerlose a), out_stoul (ac_rivalwin a),
      out_stoul (ac_rivallose a),
      if blob_size rivalStatus \<noteq> 0x4B0 then out_skip 0x4B0
      else out_array (blob_data rivalStatus) (blob_size rivalStatus),
      out_stoul8 (ac_activecar a), out_stoul8 (ac_privileges a), out_stoul8 (ac_notbeginner a),
      out_stoul (ac_teamid a), out_stoul (ac_state a)]"

text \<open>The rank is the position of the account in the list ordered by score, 1 when it is not there.\<close>

fun find_rank :: "cppstring \<Rightarrow> nat \<Rightarrow> nat list \<Rightarrow> ('d session, nat) prog" where
  "find_rank licenseNo dflt [] = ret dflt"
| "find_rank licenseNo dflt (i # is) =
     bnd (db_value i ''license'') (\<lambda>l.
     if licenseNo = l then ret (i + 1) else find_rank licenseNo dflt is)"

definition ranking :: "'d env \<Rightarrow> account_row \<Rightarrow> ('d session, unit) prog" where
  "ranking E a =
     bnd (db_exec E (sql
       [''SELECT license, playerwin - playerlose AS Score FROM account_data ORDER BY Score DESC''])) (\<lambda>res.
     if res \<noteq> 0
     then bnd (gets (\<lambda>s. length (results (sdb s)))) (\<lambda>n.
          bnd (find_rank (ac_license a) 1 [0..<n]) (\<lambda>rank.
          steps
            [out_u32 (word_of_nat rank),
             run_sql E [''UPDATE account_data SET rank = '', dec rank, '' WHERE license = '', ac_license a]]))
     else out_u32 1)"

text \<open>The parts that can take the \<open>goto failed\<close> return whether they did not.\<close>

definition garage_list :: "'d env \<Rightarrow> account_row \<Rightarrow> ('d session, bool) prog" where
  "garage_list E a =
     bnd (stoulP (ac_garagecount a)) (\<lambda>count.
     stm (out_u8 (ucast count))
     (if 0 < count
      then bnd (db_blob_of E (sql [''SELECT garagedata FROM account_data WHERE license = '', ac_license a])) (\<lambda>g.
           if blob_size g = 0 then ret False
           else stm (for_each (indices count) (\<lambda>i.
                  if unat (blob_size g) \<le> i then out_u8 0 else out_u8 (blob_data g ! i))) (ret True))
      else ret True))"

text \<open>
  One car. The data is copied into 187 zeroed bytes, then as many bytes as the blob has are
  appended from there.
\<close>

definition garage_sql :: "cppstring \<Rightarrow> cppstring" where
  "garage_sql licenseNo =
     sql [''SELECT * FROM garage_data WHERE license = '', licenseNo, '' AND impounded = 0'']"

definition car_entry :: "'d env \<Rightarrow> cppstring \<Rightarrow> nat \<Rightarrow> ('d session, bool) prog" where
  "car_entry E licenseNo i =
     stm (db_exec E (garage_sql licenseNo))
     (bnd (db_value i ''bay'') (\<lambda>bay.
      bnd (db_value i ''carID'') (\<lambda>carID.
      bnd (db_value i ''KMs'') (\<lambda>KMs.
      bnd (db_value i ''condition'') (\<lambda>condition.
      bnd (db_blob_of E (sql [''SELECT carData FROM garage_data WHERE license = '', licenseNo,
             '' AND bay = '', bay, '' AND impounded = 0''])) (\<lambda>carData.
      if blob_size carData = 0 then ret False
      else let dat = take (min (unat (blob_size carData)) sizeof_cardata) (blob_data carData);
               copy = dat @ replicate (sizeof_cardata - length dat) 0
           in stm (steps
                [out_stoul8 bay, out_stoul carID,
                 bnd (lift (case stof_bits E KMs of None \<Rightarrow> Inl Uncaught | Some w \<Rightarrow> Inr w)) out_u32,
                 out_array copy (blob_size carData), out_stoul condition])
              (ret True)))))))"

definition car_list :: "'d env \<Rightarrow> account_row \<Rightarrow> ('d session, bool) prog" where
  "car_list E a =
     bnd (db_exec E (garage_sql (ac_license a))) (\<lambda>res.
     let carCount = word_of_int res :: u32 in
     stm (out_u8 (ucast carCount))
     (if 0 < carCount then all_of (indices carCount) (car_entry E (ac_license a))
      else stm (out_u8 0) (ret True)))"

definition item_list :: "'d env \<Rightarrow> account_row \<Rightarrow> ('d session, unit) prog" where
  "item_list E a =
     bnd (db_exec E (sql [''SELECT itemcount FROM item_data WHERE license = '', ac_license a,
            '' AND blocked = 0''])) (\<lambda>res.
     if res \<noteq> 0
     then bnd (db_value 0 ''itemcount'') (\<lambda>itemcount.
          bnd (stoulP itemcount) (\<lambda>itemCountVal.
          bnd (db_blob_of E (sql [''SELECT itemData FROM item_data WHERE license = '', ac_license a,
                 '' AND blocked = 0''])) (\<lambda>itemdata.
          steps
            [out_u32 itemCountVal,
             if blob_size itemdata < itemCountVal * 2 then out_skip (itemCountVal * 2)
             else out_array (blob_data itemdata) (itemCountVal * 2)])))
     else out_u32 0)"

definition sign_part :: "'d env \<Rightarrow> account_row \<Rightarrow> ('d session, unit) prog" where
  "sign_part E a =
     bnd (db_exec E (sql [''SELECT * FROM sign_data WHERE license = '', ac_license a])) (\<lambda>res.
     if res \<noteq> 0
     then bnd (db_blob_of E (sql [''SELECT signData FROM sign_data WHERE license = '', ac_license a])) (\<lambda>signdata.
          if blob_size signdata < 54 then out_skip 54 else out_array (blob_data signdata) 54)
     else out_skip 54)"

text \<open>
  The team. When the account's team does not exist, the error message is formatted with a
  \<open>std::string\<close> object in place of the wide string that \<open>%s\<close> expects: its characters are read
  as a pointer.
\<close>

definition team_found :: "'d env \<Rightarrow> u32 \<Rightarrow> ('d session, unit) prog" where
  "team_found E teamID =
     bnd (db_value 0 ''leader'') (\<lambda>leader.
     bnd (db_value 0 ''teamname'') (\<lambda>teamname.
     bnd (db_value 0 ''teamcomment'') (\<lambda>comment.
     bnd (db_value 0 ''survivalwin'') (\<lambda>survivalwin.
     bnd (db_value 0 ''survivallose'') (\<lambda>survivallose.
     bnd (db_value 0 ''flags'') (\<lambda>flags.
     bnd (db_exec E (sql [''SELECT handle FROM account_data WHERE license = '', leader])) (\<lambda>res.
     bnd (if res \<noteq> 0 then db_value 0 ''handle'' else ret ''UNKNOWN'') (\<lambda>leaderName.
     bnd (db_exec E (sql [''SELECT * FROM account_data WHERE teamid = '', dec_word teamID])) (\<lambda>res.
     let teamCount = word_of_int res :: u32 in
     steps
       [out_u8 1, out_u32 teamID, out_stoul leader, out_string leaderName 0x10,
        out_string teamname 0x10, out_string comment 0x28, out_stoul survivalwin,
        out_stoul survivallose, out_u32 teamCount, out_stoul flags,
        for_each (indices teamCount) (member_entry leader)])))))))))"

definition team_part :: "'d env \<Rightarrow> account_row \<Rightarrow> ('d session, unit) prog" where
  "team_part E a = steps
     [if ac_teamid a \<noteq> ''-1''
      then bnd (stoulP (ac_teamid a)) (\<lambda>teamID.
           bnd (db_exec E (sql [''SELECT * FROM team_data WHERE teamid = '', dec_word teamID])) (\<lambda>res.
           if res \<noteq> 0 then team_found E teamID else raise OutOfBounds))
      else out_u8 0,
      out_stoul8 (ac_teamarea a)]"

text \<open>An account that has no handle yet gets a reply that ends with the garages.\<close>

definition player_data :: "'d env \<Rightarrow> u32 \<Rightarrow> account_row \<Rightarrow> db_blob \<Rightarrow> ('d session, bool) prog" where
  "player_data E clientSocket a rivalStatus =
     stm (steps [player_details clientSocket a rivalStatus, ranking E a])
     (both (garage_list E a)
        (if ac_handle a \<noteq> []
         then both (car_list E a) (stm (steps [item_list E a, sign_part E a, team_part E a]) (ret True))
         else ret True))"

section \<open>Login\<close>

definition login_sql :: "cppstring \<Rightarrow> cppstring \<Rightarrow> cppstring" where
  "login_sql usernameStr cryptoPWHEX =
     sql [''SELECT * FROM account_data WHERE HEX(LOWER(username)) = '', quoted usernameStr,
          '' AND password = '', quoted cryptoPWHEX]"

definition login_account :: "'d env \<Rightarrow> u32 \<Rightarrow> ('d session, bool) prog" where
  "login_account E clientSocket =
     bnd read_account (\<lambda>raw.
     bnd (db_blob_of E (sql [''SELECT rivalstatus FROM rival_data WHERE license = '', ac_license raw])) (\<lambda>rivalStatus.
     let a = account_defaults raw in
     bnd (stoulP (ac_state a)) (\<lambda>state.
     if state AND 0x80000000 \<noteq> 0 then stm (already_logged_in clientSocket a) (ret True)
     else player_data E clientSocket a rivalStatus)))"

text \<open>The test of the account and the password, with the database open.\<close>

definition login_check :: "'d env \<Rightarrow> u32 \<Rightarrow> cppstring \<Rightarrow> cppstring option \<Rightarrow> ('d session, unit) prog" where
  "login_check E clientSocket username password =
     bnd (hex_of_string username) (\<lambda>usernameStr.
     bnd (lift (case password of None \<Rightarrow> Inl OutOfBounds | Some pw \<Rightarrow> password_hash E pw)) (\<lambda>cryptoPWHEX.
     stm (db_exec E (login_sql usernameStr cryptoPWHEX))
     (bnd (gets (\<lambda>s. length (results (sdb s)))) (\<lambda>n.
      bnd (if n = 1 then login_account E clientSocket else ret False) (\<lambda>good.
      if good then ret () else login_failed clientSocket)))))"

definition login :: "'d env \<Rightarrow> ('d session, after) prog" where
  "login E =
     stm (in_offset 6)
     (bnd in_u32 (\<lambda>clientSocket.
      bnd (in_string 0x14) (\<lambda>name.
      bnd (gets (\<lambda>s. ucast (pSize (inbuf (cl s))) - 30)) (\<lambda>rest.
      bnd (in_string rest) (\<lambda>protectedpassword.
      let password = AuthDataDecrypt E ''authgenki'' protectedpassword in
      bnd (db_open E) (\<lambda>res.
      stm (whenP (res = DB_OK)
             (steps [login_check E clientSocket (tolower name) password, db_close_only E]))
      (ret FallOut)))))))"

section \<open>Handle check\<close>

definition handle_sql :: "cppstring \<Rightarrow> cppstring" where
  "handle_sql h = sql [''SELECT handle FROM account_data WHERE hex(lower(handle)) = '', quoted h]"

definition handle_check :: "'d env \<Rightarrow> ('d session, after) prog" where
  "handle_check E =
     bnd (in_u32_at 0x06) (\<lambda>clientSocket.
     bnd (in_string_at 0x0A 0x10) (\<lambda>name.
     bnd (hex_of_string (tolower name)) (\<lambda>handle.
     stm (steps [start_reply 1 1, out_u32 clientSocket])
     (bnd (db_open E) (\<lambda>res.
      stm (whenP (res = DB_OK) (steps
        [bnd (db_exec E (handle_sql handle)) (\<lambda>res. if res \<noteq> 0 then out_u8 1 else out_u8 0),
         db_close_only E]))
      (ret FallOut))))))"

definition ClientAuth :: "'d env \<Rightarrow> ('d session, after) prog" where
  "ClientAuth E =
     bnd (gets (\<lambda>s. getSubType (inbuf (cl s)))) (\<lambda>t.
     if t = 0 then login E else if t = 1 then handle_check E else ret FallOut)"

section \<open>What they keep\<close>

lemma keeps_out_values [keeps_rules]:
  "keeps (handler_inv c) (out_stoul8 t)" "keeps (handler_inv c) (out_stoull t)"
  unfolding out_stoul8_def out_stoull_def by (intro keeps_rules)+

lemma keeps_out_move [keeps_rules]: "keeps (handler_inv c) (out_move n)"
  unfolding out_move_def by (rule keeps_out) (simp add: packet_wf_simps)

lemma keeps_find_rank [keeps_rules]: "keeps (handler_inv c) (find_rank l d is)"
  by (induction "is") (simp_all add: keeps_rules)

lemma keeps_login_parts [keeps_rules]:
  "keeps (handler_inv c) read_account" "keeps (handler_inv c) (already_logged_in k a)"
  "keeps (handler_inv c) (login_failed k)" "keeps (handler_inv c) (player_details k a b)"
  "keeps (handler_inv c) (ranking E a)" "keeps (handler_inv c) (garage_list E a)"
  "keeps (handler_inv c) (car_list E a)" "keeps (handler_inv c) (item_list E a)"
  "keeps (handler_inv c) (sign_part E a)"
  unfolding read_account_def already_logged_in_def login_failed_def player_details_def ranking_def
    garage_list_def car_list_def car_entry_def item_list_def sign_part_def
  by (intro keeps_rules)+

lemma keeps_member_entry [keeps_rules]: "keeps (handler_inv c) (member_entry l i)"
  unfolding member_entry_def by (intro keeps_rules)

lemma keeps_team_part [keeps_rules]: "keeps (handler_inv c) (team_part E a)"
  unfolding team_part_def team_found_def by (intro keeps_rules)

lemma keeps_ClientAuth [keeps_rules]: "keeps (handler_inv c) (ClientAuth E)"
  unfolding ClientAuth_def login_def login_check_def login_account_def player_data_def handle_check_def
  by (intro keeps_rules)

end
