(* ===== verification/Client_Operations.thy ===== *)
theory Client_Operations
  imports Session
begin

text \<open>
  Messages between players of different game servers (ClientOperationsPackets.cpp): each is read
  field by field, written again under type 4, and broadcast to every game server.
  \<open>ServerOperations\<close> (ServerOperationsPackets.cpp) is a stub of the source.
\<close>

text \<open>Subtype 0.\<close>

definition offline_chat :: "('d session, after) prog" where
  "offline_chat =
     bnd in_u8 (\<lambda>type.
     bnd (in_string 0x10) (\<lambda>fromHandle.
     bnd (in_string 0x10) (\<lambda>toHandle.
     bnd (in_string 0x4E) (\<lambda>message.
     stm (steps
       [start_reply 4 0, out_u8 type, out_string fromHandle 0x10, out_string toHandle 0x10,
        out_string message 0x4E])
     (ret BroadcastReturn)))))"

text \<open>Subtype 1.\<close>

definition inform_client :: "('d session, after) prog" where
  "inform_client =
     bnd (in_string 0x10) (\<lambda>toHandle.
     bnd (in_string 0x4E) (\<lambda>message.
     bnd in_u32 (\<lambda>colour.
     stm (steps
       [start_reply 4 1, out_string toHandle 0x10, out_string message 0x4E, out_u32 colour])
     (ret BroadcastReturn))))"

text \<open>Subtype 2.\<close>

definition team_chat :: "('d session, after) prog" where
  "team_chat =
     bnd (in_string 0x10) (\<lambda>fromHandle.
     bnd (in_string 0x4E) (\<lambda>message.
     bnd in_u32 (\<lambda>teamID.
     stm (steps
       [start_reply 4 2, out_string fromHandle 0x10, out_string message 0x4E, out_u32 teamID])
     (ret BroadcastReturn))))"

text \<open>An unknown subtype does nothing, and nothing is sent.\<close>

definition ClientOperations :: "('d session, after) prog" where
  "ClientOperations =
     stm (in_offset 6)
     (bnd (gets (\<lambda>s. getSubType (inbuf (cl s)))) (\<lambda>t.
      if t = 0 then offline_chat
      else if t = 1 then inform_client
      else if t = 2 then team_chat
      else ret Return))"

definition ServerOperations :: "('d session, after) prog" where
  "ServerOperations = ret Return"

lemma keeps_ClientOperations [keeps_rules]: "keeps (handler_inv c) ClientOperations"
  unfolding ClientOperations_def offline_chat_def inform_client_def team_chat_def
  by (intro keeps_rules)

end
