(* ===== verification/Dispatch.thy ===== *)
theory Dispatch
  imports Server_Auth Client_Auth Client_Operations
begin

text \<open>
  From a received frame to its handler: \<open>Server::CheckClientPackets\<close> (server.cpp),
  \<open>CLIENT::ProcessPacket\<close> (client.cpp) and the table \<open>MainPacketFunctions\<close> (packets.h). The state
  is the whole server; a handler runs on the slot of its client and on the database object, and
  what it does after its switch (\<open>after\<close>) is carried out here.
\<close>

section \<open>Running a handler on the server\<close>

text \<open>The handlers use \<open>server->db\<close> without a test.\<close>

definition run_handler ::
  "nat \<Rightarrow> ('d session, after) prog \<Rightarrow> 'd server \<Rightarrow> fault + (after \<times> 'd server)" where
  "run_handler k h s =
     (case db s of
        None \<Rightarrow> Inl OutOfBounds
      | Some d \<Rightarrow>
          (case h \<lparr>cl = connections s ! k, sdb = d\<rparr> of
             Inl e \<Rightarrow> Inl e
           | Inr (a, t) \<Rightarrow>
               Inr (a, s\<lparr>connections := (connections s)[k := cl t], db := Some (sdb t)\<rparr>)))"

definition Send_slot :: "nat \<Rightarrow> 'd server \<Rightarrow> fault + 'd server" where
  "Send_slot k s =
     (case Send_out (connections s ! k) of
        Inl e \<Rightarrow> Inl e | Inr c \<Rightarrow> Inr (s\<lparr>connections := (connections s)[k := c]\<rparr>))"

definition finish :: "nat \<Rightarrow> fault + (after \<times> 'd server) \<Rightarrow> fault + 'd server" where
  "finish k r =
     (case r of
        Inl e \<Rightarrow> Inl e
      | Inr (FallOut, s) \<Rightarrow> Send_slot k s
      | Inr (Return, s) \<Rightarrow> Inr s
      | Inr (BroadcastReturn, s) \<Rightarrow> SendToAll k s)"

text \<open>
  \<open>MainPacketFunctions[type](client)\<close>. The table has six entries; entry 3 does nothing. A type
  past the table reads whatever follows it as a function pointer.
\<close>

definition MainPacketFunctions :: "'d env \<Rightarrow> nat \<Rightarrow> nat \<Rightarrow> 'd server \<Rightarrow> fault + 'd server" where
  "MainPacketFunctions E k t s =
     (if t = 0 then finish k (run_handler k (ServerAuth E (connections s)) s)
      else if t = 1 then finish k (run_handler k (ClientAuth E) s)
      else if t = 2 then finish k (run_handler k (ClientRequests E) s)
      else if t = 3 then Inr s
      else if t = 4 then finish k (run_handler k ClientOperations s)
      else if t = 5 then finish k (run_handler k ServerOperations s)
      else Inl WildCall)"

text \<open>\<open>sizeof(MainPacketFunctions) / 4\<close>, the pointers having 4 bytes in the Win32 build.\<close>

definition packet_function_count :: nat where
  "packet_function_count = 6 * 4 div 4"

section \<open>ProcessPacket\<close>

text \<open>
  \<open>Decrypt(&inbuf.buffer[2], &inbuf.buffer[2], size)\<close> with a size of 16 bits, signed; \<open>None\<close> is
  the silent return for a size below 16.
\<close>

definition decrypt_in_place :: "client \<Rightarrow> fault + client option" where
  "decrypt_in_place c =
     (if isAuth c
      then (case Decrypt (drop 2 (buffer (inbuf c))) (sint (pSize (inbuf c))) of
              Inl e \<Rightarrow> Inl e
            | Inr (bs, n) \<Rightarrow>
                if n < 16 then Inr None
                else Inr (Some (c\<lparr>inbuf := setSize (word_of_int n)
                       ((inbuf c)\<lparr>buffer := overwrite 2 bs (buffer (inbuf c))\<rparr>)\<rparr>)))
      else Inr (Some c))"

definition refused :: "client \<Rightarrow> bool" where
  "refused c \<longleftrightarrow>
     packet_function_count < unat (getType (inbuf c)) \<or>
     isAuth c = False \<and> unat (getType (inbuf c)) \<noteq> packettype_val PACKETTYPE_AUTH"

definition ProcessPacket :: "'d env \<Rightarrow> nat \<Rightarrow> 'd server \<Rightarrow> fault + 'd server" where
  "ProcessPacket E k s =
     (let c = connections s ! k in
      if todc c then Inr s
      else (case decrypt_in_place c of
              Inl e \<Rightarrow> Inl e
            | Inr None \<Rightarrow> Inr s
            | Inr (Some c1) \<Rightarrow>
                if refused c1
                then Inr (s\<lparr>connections := (connections s)[k := Disconnect c1]\<rparr>)
                else MainPacketFunctions E k (unat (getType (inbuf c1)))
                       (s\<lparr>connections := (connections s)[k := c1]\<rparr>)))"

text \<open>
  \<open>CheckClientPackets(client, rcvcopy, tmprcv)\<close>. \<open>setArray\<close> copies nothing when \<open>rcvcopy\<close> is the
  full buffer size, and then the packet of the frame before is handled again.
\<close>

definition load_packet :: "u32 \<Rightarrow> byte list \<Rightarrow> client \<Rightarrow> fault + client" where
  "load_packet rcvcopy tmprcv c =
     (case setArray tmprcv rcvcopy 0 (inbuf c) of
        Inl e \<Rightarrow> Inl e | Inr p \<Rightarrow> Inr (c\<lparr>inbuf := setSize (getSizeFromBuffer p) p\<rparr>))"

definition CheckClientPackets ::
  "'d env \<Rightarrow> nat \<Rightarrow> u32 \<Rightarrow> byte list \<Rightarrow> 'd server \<Rightarrow> fault + 'd server" where
  "CheckClientPackets E k rcvcopy tmprcv s =
     (if 6 \<le> rcvcopy
      then (case load_packet rcvcopy tmprcv (connections s ! k) of
              Inl e \<Rightarrow> Inl e
            | Inr c \<Rightarrow>
                if CLIENT_BUFFER_SIZE < unat (pSize (inbuf c))
                then Inr (s\<lparr>connections := (connections s)[k := Disconnect c]\<rparr>)
                else ProcessPacket E k (s\<lparr>connections := (connections s)[k := c]\<rparr>))
      else Inr s)"

end
