(* ===== verification/Network.thy ===== *)
theory Network
  imports Dispatch
begin

text \<open>
  The socket side of a connection: \<open>Server::Send\<close>, \<open>Recv\<close>, \<open>ProcessRecv\<close> and \<open>RecvToProcess\<close>
  (server.cpp). What the sockets do is an argument of each step: how many bytes \<open>send\<close> took, which
  bytes \<open>recv\<close> delivered, or their error.
\<close>

section \<open>Sending\<close>

text \<open>The results of \<open>send\<close>: a count, or \<open>SOCKET_ERROR\<close> with or without \<open>WSAEWOULDBLOCK\<close>.\<close>

datatype send_result = Sent nat | SendWouldBlock | SendError

text \<open>
  A new frame is fetched when the last one is gone. Its size field is read as a signed 16-bit
  number.
\<close>

definition fetch_frame :: "client \<Rightarrow> client" where
  "fetch_frame c =
     (if snddata c \<le> 0
      then let (entry, c1) = GetFromSendQueue c
           in c1\<lparr>snddata := sint (bytes_u16 (take 2 entry)) + 2, sndbuf := entry\<rparr>
      else c)"

definition max_send :: "client \<Rightarrow> nat" where
  "max_send c = (if int CLIENT_BUFFER_SIZE < snddata c then CLIENT_BUFFER_SIZE else nat (snddata c))"

text \<open>What was not taken is moved to the front of \<open>sndbuf\<close>.\<close>

definition sent :: "nat \<Rightarrow> client \<Rightarrow> fault + client" where
  "sent n c =
     (let r = snddata c - int n; c1 = c\<lparr>snddata := r\<rparr>
      in if 0 < r
         then if length (sndbuf c) < n + nat r then Inl OutOfBounds
              else Inr (c1\<lparr>sndbuf := overwrite 0 (block n (nat r) (sndbuf c)) (sndbuf c)\<rparr>)
         else Inr c1)"

text \<open>\<open>Server::Send(client)\<close>, whose result is false on an error of the socket.\<close>

definition Server_Send :: "send_result \<Rightarrow> client \<Rightarrow> fault + (bool \<times> client)" where
  "Server_Send r c =
     (let (pending, c0) = (if 0 < snddata c then (1, c) else MessagesInSendQueue c) in
      if pending \<noteq> 0
      then (let c1 = fetch_frame c0 in
            case r of
              SendError \<Rightarrow> Inr (False, Disconnect c1)
            | SendWouldBlock \<Rightarrow> Inr (True, c1)
            | Sent n \<Rightarrow> (case sent n c1 of Inl e \<Rightarrow> Inl e | Inr c2 \<Rightarrow> Inr (True, c2)))
      else Inr (True, c0))"

section \<open>Receiving\<close>

text \<open>
  The results of \<open>recv\<close>: bytes (none when the peer has closed; the flag says whether
  \<open>WSAGetLastError\<close> then gives \<open>WSAECONNRESET\<close>), or an error.
\<close>

datatype recv_result = Received "byte list" bool | RecvWouldBlock | RecvError

definition store_received :: "byte list \<Rightarrow> client \<Rightarrow> client" where
  "store_received bs c = c\<lparr>rcvbuf := overwrite (unat (rcvread c)) bs (rcvbuf c)\<rparr>"

text \<open>\<open>ProcessRecv\<close> up to the packet: count the bytes, and read the size when two are there.\<close>

definition note_size :: "nat \<Rightarrow> client \<Rightarrow> client" where
  "note_size len c =
     (let c1 = c\<lparr>rcvread := rcvread c + word_of_nat len\<rparr>
      in if (hassize c1 = False \<or> packetsize c1 = 0) \<and> 2 \<le> rcvread c1
         then c1\<lparr>packetsize := bytes_u16 (take 2 (rcvbuf c1)) + 2, hassize := True\<rparr>
         else c1)"

definition frame_complete :: "client \<Rightarrow> bool" where
  "frame_complete c \<longleftrightarrow>
     hassize c = True \<and> ucast (packetsize c) \<le> rcvread c \<and> 6 \<le> packetsize c"

text \<open>Drop the frame from the receive buffer.\<close>

definition drop_frame :: "client \<Rightarrow> client" where
  "drop_frame c =
     (let n = unat (packetsize c)
      in c\<lparr>rcvbuf := overwrite 0 (block n (CLIENT_BUFFER_SIZE - n) (rcvbuf c)) (rcvbuf c),
           hassize := False, rcvread := rcvread c - ucast (packetsize c), packetsize := 0\<rparr>)"

definition ProcessRecv :: "'d env \<Rightarrow> nat \<Rightarrow> nat \<Rightarrow> 'd server \<Rightarrow> fault + (bool \<times> 'd server)" where
  "ProcessRecv E k len s =
     (let c = note_size len (connections s ! k); s1 = s\<lparr>connections := (connections s)[k := c]\<rparr> in
      if frame_complete c
      then if CLIENT_BUFFER_SIZE < unat (packetsize c) then Inl OutOfBounds
           else (case CheckClientPackets E k (ucast (packetsize c))
                        (take (unat (packetsize c)) (rcvbuf c)) s1 of
                   Inl e \<Rightarrow> Inl e
                 | Inr s2 \<Rightarrow>
                     Inr (True, s2\<lparr>connections :=
                       (connections s2)[k := drop_frame (connections s2 ! k)]\<rparr>))
      else Inr (False, s1))"

text \<open>
  \<open>Server::Recv(client)\<close>. With no new bytes but some left from before, the frames that are there
  go on being handled, one per call.
\<close>

definition Recv :: "'d env \<Rightarrow> nat \<Rightarrow> recv_result \<Rightarrow> 'd server \<Rightarrow> fault + (bool \<times> 'd server)" where
  "Recv E k r s =
     (let c = connections s ! k in
      case r of
        RecvError \<Rightarrow> Inr (False, s\<lparr>connections := (connections s)[k := Disconnect c]\<rparr>)
      | RecvWouldBlock \<Rightarrow>
          if rcvread c \<noteq> 0
          then (case ProcessRecv E k 0 s of Inl e \<Rightarrow> Inl e | Inr (_, s1) \<Rightarrow> Inr (True, s1))
          else Inr (True, s)
      | Received bs reset \<Rightarrow>
          if bs = [] \<and> reset then Inr (False, s)
          else (case ProcessRecv E k (length bs)
                       (s\<lparr>connections := (connections s)[k := store_received bs c]\<rparr>) of
                  Inl e \<Rightarrow> Inl e | Inr (_, s1) \<Rightarrow> Inr (True, s1)))"

definition RecvToProcess :: "client \<Rightarrow> bool" where
  "RecvToProcess c \<longleftrightarrow> (if todc c = True then False else rcvread c \<noteq> 0)"

end
