(* ===== verification/Config.thy ===== *)
theory Config
  imports Server_State
begin

text \<open>
  The configuration file: \<open>Server::LoadConfig\<close>, \<open>VerifyConfig\<close> and \<open>CloseDB\<close> (server.cpp). The
  JSON library is outside the repository; what it read from the file is the argument: the document,
  as far as the code asks for it. A key that is missing reads as null.
\<close>

section \<open>The document\<close>

datatype json_value = JString cppstring | JInteger int | JBoolean bool | JOther

datatype json_document =
    ParseError
  | EmptyDocument
  | NotAnObject
  | Object "cppstring \<Rightarrow> json_value"

text \<open>
  What happens on the disk: the file is missing or not, the default file can be written or not, the
  file can then be opened or not, and what it holds.
\<close>

record config_file =
  file_missing :: bool
  default_fails :: bool
  opened :: bool
  document :: json_document

section \<open>LoadConfig\<close>

text \<open>
  One stanza per key, on the server and the flag \<open>malformed\<close>. The \<open>parse_error\<close> handlers around
  \<open>get\<close> are never reached, as \<open>get\<close> does not parse. Numbers are narrowed to 16 bits.
\<close>

type_synonym 'd loading = "'d server \<times> bool"

definition load_databasetype :: "json_value \<Rightarrow> 'd loading \<Rightarrow> 'd loading" where
  "load_databasetype v = (\<lambda>(s, m). case v of
     JString t \<Rightarrow> (s\<lparr>databasetype := if t = ''mysql'' then DBTYPE_MYSQL else DBTYPE_SQLITE\<rparr>, m)
   | _ \<Rightarrow> (s, True))"

definition load_mysql_string ::
  "(cppstring \<Rightarrow> 'd server \<Rightarrow> 'd server) \<Rightarrow> json_value \<Rightarrow> 'd loading \<Rightarrow> 'd loading" where
  "load_mysql_string put v = (\<lambda>(s, m). case v of
     JString t \<Rightarrow> (if databasetype s = DBTYPE_MYSQL then (put t s, m) else (s, m))
   | _ \<Rightarrow> (s, m \<or> databasetype s = DBTYPE_MYSQL))"

definition load_string ::
  "(cppstring \<Rightarrow> 'd server \<Rightarrow> 'd server) \<Rightarrow> json_value \<Rightarrow> 'd loading \<Rightarrow> 'd loading" where
  "load_string put v = (\<lambda>(s, m). case v of JString t \<Rightarrow> (put t s, m) | _ \<Rightarrow> (s, True))"

text \<open>The value of \<open>databaseport\<close> goes to \<open>serverport\<close>.\<close>

definition load_databaseport :: "json_value \<Rightarrow> 'd loading \<Rightarrow> 'd loading" where
  "load_databaseport v = (\<lambda>(s, m). case v of
     JInteger i \<Rightarrow> (if databasetype s = DBTYPE_MYSQL then (s\<lparr>serverport := word_of_int i\<rparr>, m) else (s, m))
   | _ \<Rightarrow> (s, m \<or> databasetype s = DBTYPE_MYSQL))"

definition load_port ::
  "(u16 \<Rightarrow> 'd server \<Rightarrow> 'd server) \<Rightarrow> json_value \<Rightarrow> 'd loading \<Rightarrow> 'd loading" where
  "load_port put v = (\<lambda>(s, m). case v of JInteger i \<Rightarrow> (put (word_of_int i) s, m) | _ \<Rightarrow> (s, True))"

definition load_webserver :: "json_value \<Rightarrow> 'd loading \<Rightarrow> 'd loading" where
  "load_webserver v = (\<lambda>(s, m). case v of JBoolean b \<Rightarrow> (s\<lparr>webserver := b\<rparr>, m) | _ \<Rightarrow> (s, True))"

definition load_object :: "(cppstring \<Rightarrow> json_value) \<Rightarrow> 'd loading \<Rightarrow> 'd loading" where
  "load_object v =
     load_string (\<lambda>t s. s\<lparr>logpath := t\<rparr>) (v ''logpath'') \<circ>
     load_port (\<lambda>p s. s\<lparr>webserverport := p\<rparr>) (v ''webserverport'') \<circ>
     load_webserver (v ''webserver'') \<circ>
     load_port (\<lambda>p s. s\<lparr>serverport := p\<rparr>) (v ''serverport'') \<circ>
     load_databaseport (v ''databaseport'') \<circ>
     load_string (\<lambda>t s. s\<lparr>databasename := t\<rparr>) (v ''databasename'') \<circ>
     load_mysql_string (\<lambda>t s. s\<lparr>databasehost := t\<rparr>) (v ''databasehost'') \<circ>
     load_mysql_string (\<lambda>t s. s\<lparr>databasepassword := t\<rparr>) (v ''databasepassword'') \<circ>
     load_mysql_string (\<lambda>t s. s\<lparr>databaseusername := t\<rparr>) (v ''databaseusername'') \<circ>
     load_databasetype (v ''databasetype'')"

text \<open>A document that is neither empty nor an object makes \<open>in["databasetype"]\<close> throw.\<close>

definition LoadConfig :: "config_file \<Rightarrow> ('d server, int) prog" where
  "LoadConfig f = (\<lambda>s.
     if file_missing f \<and> default_fails f then Inr (1, s)
     else if \<not> opened f then Inr (1, s)
     else (case document f of
             ParseError \<Rightarrow> Inr (1, s)
           | EmptyDocument \<Rightarrow> Inr (1, s)
           | NotAnObject \<Rightarrow> Inl Uncaught
           | Object v \<Rightarrow> (let (s1, malformed) = load_object v (s, False)
                         in Inr (if malformed then 1 else 0, s1))))"

section \<open>VerifyConfig\<close>

text \<open>The values that make the switch of \<open>VerifyConfig\<close> return an error.\<close>

definition config_rejected :: "'d server \<Rightarrow> bool" where
  "config_rejected s \<longleftrightarrow>
     databasetype s = DBTYPE_SQLITE \<and>
       (databasename s = [] \<or> (webserverport s = 0 \<and> webserver s = True)) \<or>
     databasetype s = DBTYPE_MYSQL \<and>
       (databasename s = [] \<or> databaseusername s = [] \<or> databasepassword s = [] \<or>
        databasehost s = [] \<or> databaseport s = 0 \<or> serverport s = 0 \<or>
        (webserverport s = 0 \<and> webserver s = True))"

text \<open>\<open>d\<close> is the state of the database library. The strings go through \<open>c_str()\<close>.\<close>

definition VerifyConfig :: "config_file \<Rightarrow> 'd \<Rightarrow> ('d server, int) prog" where
  "VerifyConfig f d =
     bnd (LoadConfig f) (\<lambda>r.
     if r \<noteq> 0 then ret 1
     else (\<lambda>s.
       if config_rejected s then Inr (1, s)
       else Inr (0, s\<lparr>db := Some (new_Database (databasetype s) (c_str (databaseusername s))
                  (c_str (databasepassword s)) (c_str (databasehost s))
                  (c_str (databasename s)) (databaseport s) d)\<rparr>)))"

text \<open>A use of the database object. Before \<open>VerifyConfig\<close> has set it, the pointer is wild.\<close>

definition on_server_db :: "('d database, 'a) prog \<Rightarrow> ('d server, 'a) prog" where
  "on_server_db m = (\<lambda>s. case db s of
     None \<Rightarrow> Inl OutOfBounds
   | Some d \<Rightarrow> (case m d of Inl e \<Rightarrow> Inl e | Inr (x, d') \<Rightarrow> Inr (x, s\<lparr>db := Some d'\<rparr>)))"

definition CloseDB :: "'d dbapi \<Rightarrow> ('d server, unit) prog" where
  "CloseDB api = stm (on_server_db (Close api)) (ret ())"

section \<open>What a configuration does\<close>

text \<open>The default file of the source.\<close>

definition DEFAULT_JSON_CONFIG :: "cppstring \<Rightarrow> json_value" where
  "DEFAULT_JSON_CONFIG k =
     (case map_of
        [(''databasetype'', JString ''sqlite''), (''databasename'', JString ''sbol.db''),
         (''databasehost'', JString ''localhost''), (''databaseusername'', JString ''sbol''),
         (''databasepassword'', JString ''sbol''), (''databaseport'', JInteger 3306),
         (''serverport'', JInteger 7946), (''webserver'', JBoolean True),
         (''webserverport'', JInteger 8080), (''logpath'', JString (''.'' @ CHR 0x5C # ''log''))] k of
        None \<Rightarrow> JOther | Some v \<Rightarrow> v)"

text \<open>A field that no stanza stores into keeps its value.\<close>

lemma stanza_keeps:
  "(\<And>t s. f (s\<lparr>databasetype := t\<rparr>) = f s) \<Longrightarrow> f (fst (load_databasetype v x)) = f (fst x)"
  "(\<And>t s. f (put t s) = f s) \<Longrightarrow> f (fst (load_mysql_string put v x)) = f (fst x)"
  "(\<And>t s. f (put t s) = f s) \<Longrightarrow> f (fst (load_string put v x)) = f (fst x)"
  "(\<And>p s. f (s\<lparr>serverport := p\<rparr>) = f s) \<Longrightarrow> f (fst (load_databaseport v x)) = f (fst x)"
  "(\<And>p s. f (put' p s) = f s) \<Longrightarrow> f (fst (load_port put' v x)) = f (fst x)"
  "(\<And>b s. f (s\<lparr>webserver := b\<rparr>) = f s) \<Longrightarrow> f (fst (load_webserver v x)) = f (fst x)"
  by (cases v; cases x; simp add: load_databasetype_def load_mysql_string_def load_string_def
      load_databaseport_def load_port_def load_webserver_def)+

text \<open>No configuration sets the port of the database, or touches the connections.\<close>

lemma load_object_keeps:
  "databaseport (fst (load_object v x)) = databaseport (fst x)"
  "connections (fst (load_object v x)) = connections (fst x)"
  "db (fst (load_object v x)) = db (fst x)"
  by (simp_all add: load_object_def stanza_keeps)

lemma LoadConfig_keeps:
  assumes "LoadConfig f s = Inr (r, t)"
  shows "databaseport t = databaseport s" "connections t = connections s" "db t = db s"
proof -
  have "t = s \<or> (\<exists>v. t = fst (load_object v (s, False)))"
    using assms
    by (auto simp: LoadConfig_def split: if_splits json_document.splits prod.splits) (metis fst_conv)+
  then show "databaseport t = databaseport s" "connections t = connections s" "db t = db s"
    by (auto simp: load_object_keeps)
qed

end
