(* ===== verification/Schema.thy ===== *)
theory Schema
  imports Config
begin

text \<open>
  The tables of the database (SBOL DB Server.h) and \<open>Server::checkDB\<close> (server.cpp), which creates
  the tables that are missing and compares the others with the statement that would create them.
  The comparison is only reported in the log.
\<close>

section \<open>The statements\<close>

abbreviation TAB :: cppstring where "TAB \<equiv> [CHR 0x09]"

text \<open>Lines of text, with a newline between them.\<close>

fun sql_lines :: "cppstring list \<Rightarrow> cppstring" where
  "sql_lines [] = []"
| "sql_lines [l] = l"
| "sql_lines (l # ls) = l @ CHR 0x0A # sql_lines ls"

definition SQLITE_STATEMENT_ACCOUNT_DATA :: cppstring where
  "SQLITE_STATEMENT_ACCOUNT_DATA = sql_lines
     [''CREATE TABLE \"account_data\" ('',
      TAB @ ''`license`'' @ TAB @ ''INTEGER NOT NULL,'',
      TAB @ ''`username`'' @ TAB @ ''TEXT NOT NULL UNIQUE,'',
      TAB @ ''`password`'' @ TAB @ ''TEXT NOT NULL,'',
      TAB @ ''`email`'' @ TAB @ ''TEXT NOT NULL,'',
      TAB @ ''`joindate`'' @ TAB @ ''TEXT NOT NULL DEFAULT CURRENT_TIMESTAMP,'',
      TAB @ ''`handle`'' @ TAB @ ''TEXT,'',
      TAB @ ''`cp`'' @ TAB @ ''INTEGER DEFAULT 0,'',
      TAB @ ''`level`'' @ TAB @ ''INTEGER DEFAULT 1,'',
      TAB @ ''`points`'' @ TAB @ ''INTEGER NOT NULL DEFAULT 0,'',
      TAB @ ''`playerwin`'' @ TAB @ ''INTEGER NOT NULL DEFAULT 0,'',
      TAB @ ''`playerlose`'' @ TAB @ ''INTEGER NOT NULL DEFAULT 0,'',
      TAB @ ''`rivalwin`'' @ TAB @ ''INTEGER NOT NULL DEFAULT 0,'',
      TAB @ ''`rivallose`'' @ TAB @ ''INTEGER NOT NULL DEFAULT 0,'',
      TAB @ ''`activecar`'' @ TAB @ ''INTEGER,'',
      TAB @ ''`rank`'' @ TAB @ ''INTEGER DEFAULT 0,'',
      TAB @ ''`privileges`'' @ TAB @ ''INTEGER NOT NULL DEFAULT 0,'',
      TAB @ ''`teamid`'' @ TAB @ ''INTEGER,'',
      TAB @ ''`teamarea`'' @ TAB @ ''INTEGER DEFAULT 0,'',
      TAB @ ''`state`'' @ TAB @ ''INTEGER NOT NULL DEFAULT 0,'',
      TAB @ ''`beginner`'' @ TAB @ ''INTEGER DEFAULT 0,'',
      TAB @ ''`garagecount`'' @ TAB @ ''INTEGER DEFAULT 0,'',
      TAB @ ''`garagedata`'' @ TAB @ ''INTEGER,'',
      TAB @ ''PRIMARY KEY(`license`)'',
      '')'']"

definition SQLITE_STATEMENT_RIVAL_DATA :: cppstring where
  "SQLITE_STATEMENT_RIVAL_DATA = sql_lines
     [''CREATE TABLE \"rival_data\" ('',
      TAB @ ''`license`'' @ TAB @ ''INTEGER NOT NULL,'',
      TAB @ ''`rivalstatus`'' @ TAB @ ''BLOB'',
      '')'']"

definition SQLITE_STATEMENT_GARAGE_DATA :: cppstring where
  "SQLITE_STATEMENT_GARAGE_DATA = sql_lines
     [''CREATE TABLE \"garage_data\" ('',
      TAB @ ''`license`'' @ TAB @ ''INTEGER NOT NULL,'',
      TAB @ ''`bay`'' @ TAB @ ''INTEGER,'',
      TAB @ ''`carID`'' @ TAB @ ''INTEGER NOT NULL,'',
      TAB @ ''`KMs`'' @ TAB @ ''REAL NOT NULL DEFAULT 0.0,'',
      TAB @ ''`carData`'' @ TAB @ ''BLOB,'',
      TAB @ ''`condition`'' @ TAB @ ''INTEGER NOT NULL DEFAULT 0,'',
      TAB @ ''`impounded`'' @ TAB @ ''INTEGER NOT NULL DEFAULT 0'',
      '')'']"

definition SQLITE_STATEMENT_TEAMGARAGE_DATA :: cppstring where
  "SQLITE_STATEMENT_TEAMGARAGE_DATA = sql_lines
     [''CREATE TABLE \"teamgarage_data\" ('',
      TAB @ ''`teamid`'' @ TAB @ ''INTEGER NOT NULL,'',
      TAB @ ''`bay`'' @ TAB @ ''INTEGER,'',
      TAB @ ''`carID`'' @ TAB @ ''INTEGER NOT NULL,'',
      TAB @ ''`KMs`'' @ TAB @ ''REAL NOT NULL DEFAULT 0,'',
      TAB @ ''`carData`'' @ TAB @ ''BLOB,'',
      TAB @ ''`condition`'' @ TAB @ ''INTEGER NOT NULL DEFAULT 0,'',
      TAB @ ''`impounded`'' @ TAB @ ''INTEGER NOT NULL DEFAULT 0'',
      '')'']"

definition SQLITE_STATEMENT_ITEM_DATA :: cppstring where
  "SQLITE_STATEMENT_ITEM_DATA = sql_lines
     [''CREATE TABLE \"item_data\" ('',
      TAB @ ''`license`'' @ TAB @ ''INTEGER NOT NULL,'',
      TAB @ ''`itemcount`'' @ TAB @ ''INTEGER NOT NULL DEFAULT 0,'',
      TAB @ ''`itemData`'' @ TAB @ ''BLOB,'',
      TAB @ ''`blocked`'' @ TAB @ ''INTEGER NOT NULL DEFAULT 0'',
      '')'']"

definition SQLITE_STATEMENT_SIGN_DATA :: cppstring where
  "SQLITE_STATEMENT_SIGN_DATA = sql_lines
     [''CREATE TABLE \"sign_data\" ('',
      TAB @ ''`license`'' @ TAB @ ''INTEGER NOT NULL,'',
      TAB @ ''`signData`'' @ TAB @ ''BLOB'',
      '')'']"

definition SQLITE_STATEMENT_TEAM_DATA :: cppstring where
  "SQLITE_STATEMENT_TEAM_DATA = sql_lines
     [''CREATE TABLE \"team_data\" ('',
      TAB @ ''`teamid`'' @ TAB @ ''INTEGER NOT NULL PRIMARY KEY AUTOINCREMENT,'',
      TAB @ ''`leader`'' @ TAB @ ''INTEGER NOT NULL,'',
      TAB @ ''`teamname`'' @ TAB @ ''TEXT,'',
      TAB @ ''`teamcomment`'' @ TAB @ ''TEXT,'',
      TAB @ ''`survivalwin`'' @ TAB @ ''INTEGER NOT NULL DEFAULT 0,'',
      TAB @ ''`survivallose`'' @ TAB @ ''INTEGER NOT NULL DEFAULT 0,'',
      TAB @ ''`teamcount`'' @ TAB @ ''INTEGER NOT NULL DEFAULT 1,'',
      TAB @ ''`flags`'' @ TAB @ ''INTEGER NOT NULL DEFAULT 0'',
      '')'']"

definition SQLITE_STATEMENT_SERVER_KEYS :: cppstring where
  "SQLITE_STATEMENT_SERVER_KEYS = sql_lines
     [''CREATE TABLE \"server_keys\" ('',
      TAB @ ''`key`'' @ TAB @ ''BLOB,'',
      TAB @ ''`iv`'' @ TAB @ ''BLOB'',
      '')'']"

definition MYSQL_STATEMENT_ACCOUNT_DATA :: cppstring where
  "MYSQL_STATEMENT_ACCOUNT_DATA = sql_lines
     [''CREATE TABLE `account_data` ('',
      ''  `license` int(11) NOT NULL AUTO_INCREMENT,'',
      ''  `username` text NOT NULL,'',
      ''  `password` text NOT NULL,'',
      ''  `email` text NOT NULL,'',
      ''  `joindate` timestamp NOT NULL DEFAULT CURRENT_TIMESTAMP,'',
      ''  `handle` text,'',
      ''  `cp` bigint(20) DEFAULT '' @ quote @ ''0'' @ quote @ '','',
      ''  `level` int(11) DEFAULT '' @ quote @ ''1'' @ quote @ '','',
      ''  `points` int(11) NOT NULL DEFAULT '' @ quote @ ''0'' @ quote @ '','',
      ''  `playerwin` int(11) NOT NULL DEFAULT '' @ quote @ ''0'' @ quote @ '','',
      ''  `playerlose` int(11) NOT NULL DEFAULT '' @ quote @ ''0'' @ quote @ '','',
      ''  `rivalwin` int(11) NOT NULL DEFAULT '' @ quote @ ''0'' @ quote @ '','',
      ''  `rivallose` int(11) NOT NULL DEFAULT '' @ quote @ ''0'' @ quote @ '','',
      ''  `activecar` int(11) DEFAULT NULL,'',
      ''  `rank` int(11) NOT NULL DEFAULT '' @ quote @ ''0'' @ quote @ '','',
      ''  `privileges` int(11) NOT NULL DEFAULT '' @ quote @ ''0'' @ quote @ '','',
      ''  `teamid` int(11) DEFAULT NULL,'',
      ''  `teamarea` int(11) NOT NULL DEFAULT '' @ quote @ ''0'' @ quote @ '','',
      ''  `state` int(11) NOT NULL DEFAULT '' @ quote @ ''0'' @ quote @ '','',
      ''  `beginner` int(11) DEFAULT '' @ quote @ ''0'' @ quote @ '','',
      ''  `garagecount` int(11) DEFAULT '' @ quote @ ''0'' @ quote @ '','',
      ''  `garagedata` blob,'',
      ''  PRIMARY KEY (`license`)'',
      '') ENGINE=InnoDB DEFAULT CHARSET=latin1'']"

definition MYSQL_STATEMENT_RIVAL_DATA :: cppstring where
  "MYSQL_STATEMENT_RIVAL_DATA = sql_lines
     [''CREATE TABLE `rival_data` ('',
      ''  `license` int(11) NOT NULL,'',
      ''  `rivalstatus` blob'',
      '') ENGINE=InnoDB DEFAULT CHARSET=latin1'']"

definition MYSQL_STATEMENT_GARAGE_DATA :: cppstring where
  "MYSQL_STATEMENT_GARAGE_DATA = sql_lines
     [''CREATE TABLE `garage_data` ('',
      ''  `license` int(11) NOT NULL,'',
      ''  `bay` int(11) DEFAULT NULL,'',
      ''  `carID` int(11) NOT NULL,'',
      ''  `KMs` double NOT NULL DEFAULT '' @ quote @ ''0'' @ quote @ '','',
      ''  `carData` blob,'',
      ''  `condition` int(11) NOT NULL DEFAULT '' @ quote @ ''0'' @ quote @ '','',
      ''  `impounded` int(11) NOT NULL DEFAULT '' @ quote @ ''0'' @ quote,
      '') ENGINE=InnoDB DEFAULT CHARSET=latin1'']"

definition MYSQL_STATEMENT_TEAMGARAGE_DATA :: cppstring where
  "MYSQL_STATEMENT_TEAMGARAGE_DATA = sql_lines
     [''CREATE TABLE `teamgarage_data` ('',
      ''  `teamid` int(11) NOT NULL,'',
      ''  `bay` int(11) DEFAULT NULL,'',
      ''  `carID` int(11) NOT NULL,'',
      ''  `KMs` double NOT NULL DEFAULT '' @ quote @ ''0'' @ quote @ '','',
      ''  `carData` blob,'',
      ''  `condition` int(11) NOT NULL DEFAULT '' @ quote @ ''0'' @ quote @ '','',
      ''  `impounded` int(11) NOT NULL DEFAULT '' @ quote @ ''0'' @ quote,
      '') ENGINE=InnoDB DEFAULT CHARSET=latin1'']"

definition MYSQL_STATEMENT_ITEM_DATA :: cppstring where
  "MYSQL_STATEMENT_ITEM_DATA = sql_lines
     [''CREATE TABLE `item_data` ('',
      ''  `license` int(11) NOT NULL,'',
      ''  `itemcount` int(11) NOT NULL DEFAULT '' @ quote @ ''0'' @ quote @ '','',
      ''  `itemData` blob,'',
      ''  `blocked` int(11) NOT NULL DEFAULT '' @ quote @ ''0'' @ quote,
      '') ENGINE=InnoDB DEFAULT CHARSET=latin1'']"

definition MYSQL_STATEMENT_SIGN_DATA :: cppstring where
  "MYSQL_STATEMENT_SIGN_DATA = sql_lines
     [''CREATE TABLE `sign_data` ('',
      ''  `license` int(11) NOT NULL,'',
      ''  `signData` blob'',
      '') ENGINE=InnoDB DEFAULT CHARSET=latin1'']"

definition MYSQL_STATEMENT_TEAM_DATA :: cppstring where
  "MYSQL_STATEMENT_TEAM_DATA = sql_lines
     [''CREATE TABLE `team_data` ('',
      ''  `teamid` int(11) NOT NULL AUTO_INCREMENT,'',
      ''  `leader` int(11) NOT NULL,'',
      ''  `teamname` text,'',
      ''  `teamcomment` text,'',
      ''  `survivalwin` int(11) NOT NULL DEFAULT '' @ quote @ ''0'' @ quote @ '','',
      ''  `survivallose` int(11) NOT NULL DEFAULT '' @ quote @ ''0'' @ quote @ '','',
      ''  `teamcount` int(11) NOT NULL DEFAULT '' @ quote @ ''1'' @ quote @ '','',
      ''  `flags` int(11) NOT NULL DEFAULT '' @ quote @ ''0'' @ quote @ '','',
      ''  PRIMARY KEY (`teamid`)'',
      '') ENGINE=InnoDB DEFAULT CHARSET=latin1'']"

definition MYSQL_STATEMENT_SERVER_KEYS :: cppstring where
  "MYSQL_STATEMENT_SERVER_KEYS = sql_lines
     [''CREATE TABLE `server_keys` ('',
      ''  `key` blob,'',
      ''  `iv` blob'',
      '') ENGINE=InnoDB DEFAULT CHARSET=latin1'']"


text \<open>The tables in the order in which they are checked.\<close>

definition sqlite_tables :: "(cppstring \<times> cppstring) list" where
  "sqlite_tables =
     [(''account_data'', SQLITE_STATEMENT_ACCOUNT_DATA),
      (''rival_data'', SQLITE_STATEMENT_RIVAL_DATA),
      (''garage_data'', SQLITE_STATEMENT_GARAGE_DATA),
      (''teamgarage_data'', SQLITE_STATEMENT_TEAMGARAGE_DATA),
      (''item_data'', SQLITE_STATEMENT_ITEM_DATA),
      (''sign_data'', SQLITE_STATEMENT_SIGN_DATA),
      (''team_data'', SQLITE_STATEMENT_TEAM_DATA),
      (''server_keys'', SQLITE_STATEMENT_SERVER_KEYS)]"

definition mysql_tables :: "(cppstring \<times> cppstring) list" where
  "mysql_tables =
     [(''account_data'', MYSQL_STATEMENT_ACCOUNT_DATA),
      (''rival_data'', MYSQL_STATEMENT_RIVAL_DATA),
      (''garage_data'', MYSQL_STATEMENT_GARAGE_DATA),
      (''teamgarage_data'', MYSQL_STATEMENT_TEAMGARAGE_DATA),
      (''item_data'', MYSQL_STATEMENT_ITEM_DATA),
      (''sign_data'', MYSQL_STATEMENT_SIGN_DATA),
      (''team_data'', MYSQL_STATEMENT_TEAM_DATA),
      (''server_keys'', MYSQL_STATEMENT_SERVER_KEYS)]"

text \<open>The first account, stored when the table of accounts had to be created.\<close>

definition default_admin :: cppstring where
  "default_admin =
     concat [''INSERT INTO account_data (license, username, password, email, handle, privileges, state) VALUES (100000, '',
             quote, ''sboladmin'', quote, '', '', quote, ''changeme'', quote, '', '', quote, ''changeme'', quote,
             '', '', quote, ''sbgajp'', quote, '', 255, 128);'']"

definition add_default_admin :: "'d dbapi \<Rightarrow> cppstring \<Rightarrow> ('d database, unit) prog" where
  "add_default_admin api name =
     whenP (name = ''account_data'') (stm (Exec api default_admin) (ret ()))"

section \<open>SQLite\<close>

text \<open>
  One table. \<open>Exec\<close> returns a number of rows, so the comparison of its result with \<open>SQLITE_OK\<close> never
  sees an error. The value compared at the end is read without a test that there is a row.
\<close>

definition create_table_sqlite :: "'d dbapi \<Rightarrow> cppstring \<Rightarrow> cppstring \<Rightarrow> ('d database, bool) prog" where
  "create_table_sqlite api name statement =
     stm (Exec api (concat [''PRAGMA table_info('', name, '');'']))
     (bnd (gets results) (\<lambda>rs.
      if length rs = 0
      then bnd (Exec api statement) (\<lambda>res.
           if res \<noteq> SQLITE_OK then ret False
           else stm (add_default_admin api name) (ret True))
      else ret True))"

definition check_table_sqlite :: "'d dbapi \<Rightarrow> cppstring \<times> cppstring \<Rightarrow> ('d database, bool) prog" where
  "check_table_sqlite api table =
     both (create_table_sqlite api (fst table) (snd table))
     (stm (Exec api (concat [''SELECT sql FROM sqlite_master WHERE name = '', quote, fst table, quote, ''; '']))
      (bnd (gets results) (\<lambda>rs.
       bnd (lift (GetValue rs 0 0)) (\<lambda>_. ret True))))"

section \<open>MySQL\<close>

text \<open>
  Here the result is tested: when the table is still missing after its creation, the error of the
  library is fetched for the log and \<open>checkDB\<close> returns 1.
\<close>

definition show_create :: "cppstring \<Rightarrow> cppstring" where
  "show_create name = concat [''SHOW CREATE TABLE `'', name, ''`;'']"

definition create_table_mysql :: "'d dbapi \<Rightarrow> cppstring \<Rightarrow> cppstring \<Rightarrow> ('d database, bool) prog" where
  "create_table_mysql api name statement =
     bnd (Exec api (show_create name)) (\<lambda>res.
     if res = 0
     then stm (Exec api statement)
          (bnd (Exec api (show_create name)) (\<lambda>res.
           if res = 0 then stm (modify (\<lambda>d. snd (DbError api d))) (ret False)
           else stm (add_default_admin api name) (ret True)))
     else ret True)"

definition check_table_mysql :: "'d dbapi \<Rightarrow> cppstring \<times> cppstring \<Rightarrow> ('d database, bool) prog" where
  "check_table_mysql api table =
     both (create_table_mysql api (fst table) (snd table))
     (stm (Exec api (show_create (fst table)))
      (bnd (gets results) (\<lambda>rs.
       bnd (lift (GetValue rs 0 0)) (\<lambda>_. ret True))))"

section \<open>checkDB\<close>

text \<open>
  A table that cannot be created leaves the database open. When SQLite cannot open the file, the
  error message is formatted with a \<open>std::wstring\<close> object.
\<close>

definition checkDB_tables ::
  "'d dbapi \<Rightarrow> (cppstring \<times> cppstring) list \<Rightarrow> (cppstring \<times> cppstring \<Rightarrow> ('d database, bool) prog)
    \<Rightarrow> ('d database, int) prog" where
  "checkDB_tables api tables check =
     bnd (all_of tables check) (\<lambda>good.
     if good then stm (Close api) (ret 0) else ret 1)"

definition checkDB :: "'d dbapi \<Rightarrow> ('d server, int) prog" where
  "checkDB api =
     bnd (gets databasetype) (\<lambda>t.
     if t = DBTYPE_SQLITE
     then bnd (on_server_db (Open api)) (\<lambda>res.
          if res = SQLITE_OK
          then on_server_db (checkDB_tables api sqlite_tables (check_table_sqlite api))
          else raise OutOfBounds)
     else bnd (on_server_db (Open api)) (\<lambda>res.
          if res = DB_OK
          then on_server_db (checkDB_tables api mysql_tables (check_table_mysql api))
          else ret 1))"

section \<open>Column numbers\<close>

text \<open>
  A row is a map by column name, so a column number counts in the order of the names. In
  \<open>server_keys\<close>, which is declared as \<open>key\<close>, \<open>iv\<close>, column 0 is the vector and column 1 the key; in
  the answer to \<open>SHOW CREATE TABLE\<close>, column 0 is the statement.
\<close>

lemma server_keys_columns:
  "GetValue [row_of [(''key'', k), (''iv'', v)]] 0 0 = Inr v"
  "GetValue [row_of [(''key'', k), (''iv'', v)]] 0 1 = Inr k"
  "GetValue [row_of [(''Table'', t), (''Create Table'', c)]] 0 0 = Inr c"
  by (simp_all add: GetValue_def row_of_def list_less_def lexord_cons_cons less_char_def)

end
