(* ===== verification/Accounts.thy ===== *)
theory Accounts
  imports Schema Passwords
begin

text \<open>
  The commands of the administrator (server.cpp): \<open>Server::CreateAccount\<close>, \<open>SetPassword\<close> and
  \<open>CreateKey\<close>. Each reads the configuration and checks the tables first. Wide strings are lists of
  16-bit characters without a NUL.
\<close>

type_synonym wstr = "u16 list"

text \<open>\<open>VerifyConfig() || checkDB()\<close>.\<close>

definition not_ready :: "'d env \<Rightarrow> config_file \<Rightarrow> 'd \<Rightarrow> ('d server, bool) prog" where
  "not_ready E f d =
     bnd (VerifyConfig f d) (\<lambda>r.
     if r \<noteq> 0 then ret True else bnd (checkDB (api E)) (\<lambda>c. ret (c \<noteq> 0)))"

text \<open>\<open>HexString((uint8_t*)ToNarrow(w).c_str())\<close>, without a length.\<close>

definition hex_of_wide :: "wstr \<Rightarrow> ('s, cppstring) prog" where
  "hex_of_wide w = lift (HexString (bytes_of (ToNarrow w) @ [0]) 0)"

definition server_exec :: "'d env \<Rightarrow> cppstring list \<Rightarrow> ('d server, int) prog" where
  "server_exec E q = on_server_db (Exec (api E) (sql q))"

definition server_rows :: "('d server, nat) prog" where
  "server_rows = on_server_db (bnd (gets results) (\<lambda>rs. ret (length rs)))"

text \<open>
  The message for a database that cannot be opened is formatted with a \<open>std::wstring\<close> object where
  \<open>%s\<close> expects a wide string.
\<close>

definition cannot_connect :: "('d server, int) prog" where
  "cannot_connect = raise OutOfBounds"

section \<open>Accounts\<close>

definition create_account_sql :: "cppstring \<Rightarrow> cppstring \<Rightarrow> cppstring \<Rightarrow> byte \<Rightarrow> cppstring list" where
  "create_account_sql un cryptoPWHEX em priv =
     [''INSERT INTO account_data (username, password, email, privileges) VALUES ('', xlit un, '', '',
      quoted cryptoPWHEX, '', '', xlit em, '', '', dec_word priv, '');'']"

text \<open>\<open>uint8_t priv = min(_wtoi(privileges), 255)\<close>: a negative number wraps.\<close>

definition account_privileges :: "wstr \<Rightarrow> byte" where
  "account_privileges w = word_of_int (min (wtoi (ToNarrow w)) 255)"

definition CreateAccount ::
  "'d env \<Rightarrow> config_file \<Rightarrow> 'd \<Rightarrow> wstr \<Rightarrow> wstr \<Rightarrow> wstr \<Rightarrow> wstr \<Rightarrow> ('d server, int) prog" where
  "CreateAccount E f d username password email privileges =
     bnd (not_ready E f d) (\<lambda>bad.
     if bad then ret 1
     else bnd (on_server_db (Open (api E))) (\<lambda>res.
          if res = DB_OK
          then bnd (hex_of_wide username) (\<lambda>un.
               bnd (hex_of_wide email) (\<lambda>em.
               stm (server_exec E [''SELECT username FROM account_data WHERE username = '', xlit un])
               (bnd server_rows (\<lambda>n.
                if n = 0
                then bnd (lift (password_hash E (ToNarrow password))) (\<lambda>cryptoPWHEX.
                     stm (server_exec E
                            (create_account_sql un cryptoPWHEX em (account_privileges privileges)))
                     (bnd (on_server_db (Close (api E))) (\<lambda>res.
                      ret (if res \<noteq> DB_OK then 1 else 0))))
                else ret 1))))
          else cannot_connect))"

definition SetPassword ::
  "'d env \<Rightarrow> config_file \<Rightarrow> 'd \<Rightarrow> wstr \<Rightarrow> wstr \<Rightarrow> ('d server, int) prog" where
  "SetPassword E f d username password =
     bnd (not_ready E f d) (\<lambda>bad.
     if bad then ret 1
     else bnd (on_server_db (Open (api E))) (\<lambda>res.
          if res = DB_OK
          then stm (server_exec E
                 [''SELECT username FROM account_data WHERE username = '', quoted (ToNarrow username)])
               (bnd server_rows (\<lambda>n.
                if 0 < n
                then bnd (lift (password_hash E (ToNarrow password))) (\<lambda>cryptoPWHEX.
                     stm (server_exec E
                            [''UPDATE account_data SET password = '', quoted cryptoPWHEX,
                             '' WHERE username = '', quoted (ToNarrow username)])
                     (bnd (on_server_db (Close (api E))) (\<lambda>res.
                      ret (if res \<noteq> DB_OK then 1 else 0))))
                else ret 1))
          else cannot_connect))"

section \<open>Keys\<close>

text \<open>
  The random key and vector are arguments. The result carries what was written to
  \<open>serverkey.bin\<close>, if it could be opened: the key, then the vector.
\<close>

definition key_file :: "byte list \<Rightarrow> byte list \<Rightarrow> byte list" where
  "key_file k v =
     overwrite 32 (take BLOCK_SIZE v) (overwrite 0 (take KEY_SIZE k) (replicate 48 0))"

definition key_insert :: "cppstring \<Rightarrow> cppstring \<Rightarrow> cppstring list" where
  "key_insert k v =
     [''INSERT INTO server_keys (key, iv) VALUES ('', xlit k, '', '', xlit v, '')'']"

definition CreateKey ::
  "'d env \<Rightarrow> config_file \<Rightarrow> 'd \<Rightarrow> byte list \<Rightarrow> byte list \<Rightarrow> bool
    \<Rightarrow> ('d server, int \<times> byte list option) prog" where
  "CreateKey E f d rkey riv can_write =
     bnd (not_ready E f d) (\<lambda>bad.
     if bad then ret (1, None)
     else if \<not> can_write then ret (1, None)
     else bnd (on_server_db (Open (api E))) (\<lambda>res.
          if res = DB_OK
          then bnd (lift (HexString rkey (word_of_nat KEY_SIZE))) (\<lambda>k.
               bnd (lift (HexString riv (word_of_nat BLOCK_SIZE))) (\<lambda>v.
               bnd (server_exec E (key_insert k v)) (\<lambda>res.
               stm (on_server_db (Close (api E)))
               (ret (if res \<noteq> DB_OK then 1 else 0, Some (key_file rkey riv))))))
          else bnd cannot_connect (\<lambda>r. ret (r, Some (key_file rkey riv)))))"

section \<open>What is written\<close>

lemma key_file_layout:
  assumes "length k = 32" "length v = 16"
  shows "key_file k v = k @ v"
  using assms by (simp add: key_file_def BLOCK_SIZE_def KEY_SIZE_def overwrite_def)

text \<open>Numbers above 255 are cut down to it; a negative one becomes a large one.\<close>

lemma privileges_of_numbers:
  "account_privileges (ToWide ''255'') = 255" "account_privileges (ToWide ''1000'') = 255"
  "account_privileges (ToWide ''-1'') = 255" "account_privileges (ToWide ''admin'') = 0"
  unfolding account_privileges_def ToNarrow_ToWide
  by (simp_all add: wtoi_def is_space_def is_digit_def digits_val_def digit_val_def less_eq_char_def
      Let_def)

end
