(* ===== verification/Server_Loop.thy ===== *)
theory Server_Loop
  imports Network Accounts
begin

text \<open>
  The server's thread (\<open>Server::ServerThread\<close>, server.cpp) and its start: \<open>Start\<close>, the opening
  of the listening socket, the loop that accepts, sends, receives, disconnects and sends
  heartbeats. One round of the loop is a function of what the operating system does in it; the
  whole run is a step relation, with the calls of \<open>Pause\<close>, \<open>Unpause\<close> and \<open>Stop\<close> from other threads
  between the rounds.
\<close>

section \<open>What the operating system does\<close>

text \<open>The socket calls of \<open>TcpSockOpen\<close> and \<open>TcpListen\<close>.\<close>

record socket_calls =
  socket_fd :: int
  bind_result :: int
  listen_result :: int

definition TcpSockOpen :: "socket_calls \<Rightarrow> int" where
  "TcpSockOpen o' = (if socket_fd o' < 0 then - 1 else if bind_result o' < 0 then - 2 else socket_fd o')"

definition TcpListen :: "socket_calls \<Rightarrow> int" where
  "TcpListen o' = (if listen_result o' < 0 then 1 else 0)"

text \<open>
  One round: the connections that are ready on the listening socket when \<open>select\<close> says so, the
  sockets it reports as writable, what each \<open>send\<close> and \<open>recv\<close> does when asked for a number of bytes,
  and the clocks. All of it is per slot.
\<close>

record round_env =
  accept_ready :: bool
  pending :: "incoming list"
  writable :: "nat \<Rightarrow> bool"
  send_of :: "nat \<Rightarrow> nat \<Rightarrow> send_result"
  recv_of :: "nat \<Rightarrow> nat \<Rightarrow> recv_result"
  time_test :: "nat \<Rightarrow> int"
  time_set :: "nat \<Rightarrow> int"
  tick :: "nat \<Rightarrow> u32"

section \<open>One round\<close>

definition wants_write :: "client \<Rightarrow> bool" where
  "wants_write c \<longleftrightarrow>
     0 \<le> ClientSocket c \<and> (0 < snddata c \<or> fst (MessagesInSendQueue c) \<noteq> 0)"

definition act :: "('s \<Rightarrow> fault + 's) \<Rightarrow> ('s, unit) prog" where
  "act f = (\<lambda>s. case f s of Inl e \<Rightarrow> Inl e | Inr t \<Rightarrow> Inr ((), t))"

definition change_slot :: "nat \<Rightarrow> (client \<Rightarrow> client) \<Rightarrow> ('d server, unit) prog" where
  "change_slot k f = modify (\<lambda>s. s\<lparr>connections := (connections s)[k := f (connections s ! k)]\<rparr>)"

definition slot :: "nat \<Rightarrow> ('d server, client) prog" where
  "slot k = gets (\<lambda>s. connections s ! k)"

definition send_part :: "nat \<Rightarrow> (nat \<Rightarrow> send_result) \<Rightarrow> ('d server, unit) prog" where
  "send_part k os =
     bnd (slot k) (\<lambda>c.
     bnd (lift (Server_Send (os (max_send (fetch_frame c))) c)) (\<lambda>(good, c1).
     change_slot k (\<lambda>_. if good = False then Disconnect c1 else c1)))"

definition max_read :: "client \<Rightarrow> nat" where
  "max_read c = CLIENT_BUFFER_SIZE - unat (rcvread c)"

definition recv_part :: "'d env \<Rightarrow> nat \<Rightarrow> (nat \<Rightarrow> recv_result) \<Rightarrow> ('d server, unit) prog" where
  "recv_part E k os =
     bnd (slot k) (\<lambda>c.
     bnd (\<lambda>s. Recv E k (os (max_read c)) s) (\<lambda>good.
     whenP (good = False) (change_slot k Disconnect)))"

definition heartbeat_part :: "nat \<Rightarrow> round_env \<Rightarrow> ('d server, unit) prog" where
  "heartbeat_part k e =
     bnd (slot k) (\<lambda>c.
     whenP (lastHeartBeat c < time_test e k)
       (bnd (lift (SendHeartBeat (tick e k) (c\<lparr>lastHeartBeat := time_set e k + HEARTBEAT_TIME\<rparr>)))
         (\<lambda>c1. change_slot k (\<lambda>_. c1))))"

text \<open>The body of the loop over the slots; \<open>wr\<close> is what is left in \<open>WriteFDs\<close>.\<close>

definition service_slot :: "'d env \<Rightarrow> round_env \<Rightarrow> (nat \<Rightarrow> bool) \<Rightarrow> nat \<Rightarrow> ('d server, unit) prog" where
  "service_slot E e wr k =
     bnd (slot k) (\<lambda>c.
     whenP (0 \<le> ClientSocket c) (steps
       [whenP (wr k) (send_part k (send_of e k)),
        recv_part E k (recv_of e k),
        bnd (slot k) (\<lambda>c. whenP (todc c) (act (InitializeConnection k))),
        heartbeat_part k e]))"

definition accept_part :: "round_env \<Rightarrow> ('d server, unit) prog" where
  "accept_part e =
     whenP (accept_ready e) (act (\<lambda>s. case AcceptConnection (pending e) s of
       Inl f \<Rightarrow> Inl f | Inr (_, _, t) \<Rightarrow> Inr t))"

definition round_of_loop :: "'d env \<Rightarrow> round_env \<Rightarrow> ('d server, unit) prog" where
  "round_of_loop E e =
     bnd (gets connections) (\<lambda>cs.
     stm (accept_part e)
     (for_each [0..<length cs] (service_slot E e (\<lambda>k. wants_write (cs ! k) \<and> writable e k))))"

section \<open>Start\<close>

text \<open>\<open>Start()\<close>; the thread it starts is the next definition.\<close>

definition Start :: "'d env \<Rightarrow> config_file \<Rightarrow> 'd \<Rightarrow> (nat \<Rightarrow> bool \<times> bool) \<Rightarrow> ('d server, int) prog" where
  "Start E f d flags =
     bnd (not_ready E f d) (\<lambda>bad.
     if bad then ret 1
     else stm (modify (\<lambda>s. (Initialize_server flags s)\<lparr>running := True\<rparr>)) (ret 0))"

text \<open>
  \<open>ServerThread\<close> up to its loop: every slot is initialised, the socket opened. Without a socket the
  server is stopped; a failing \<open>listen\<close> is only logged.
\<close>

definition ServerThread_begin :: "socket_calls \<Rightarrow> ('d server, unit) prog" where
  "ServerThread_begin o' =
     bnd (gets (\<lambda>s. length (connections s))) (\<lambda>n.
     steps
       [for_each [0..<n] (\<lambda>k. act (InitializeConnection k)),
        modify (\<lambda>s. s\<lparr>ServerSocket := TcpSockOpen o'\<rparr>),
        modify (\<lambda>s. if ServerSocket s < 0 then snd (Stop s) else s\<lparr>running := True\<rparr>)])"

section \<open>The run\<close>

text \<open>
  What the operating system promises for a round: accepted sockets are not negative and their
  addresses have at most 16 characters, \<open>send\<close> takes no more than it is given, and \<open>recv\<close> delivers
  no more than it is asked for.
\<close>

definition round_ok :: "round_env \<Rightarrow> bool" where
  "round_ok e \<longleftrightarrow>
     (\<forall>a \<in> set (pending e). 0 \<le> in_fd a \<and> length (in_text a) \<le> 16) \<and>
     (\<forall>k m n. send_of e k m = Sent n \<longrightarrow> n \<le> m) \<and>
     (\<forall>k m bs r. recv_of e k m = Received bs r \<longrightarrow> length bs \<le> m)"

inductive server_step :: "'d env \<Rightarrow> 'd server \<Rightarrow> 'd server \<Rightarrow> bool" for E where
  Round: "running s \<Longrightarrow> \<not> paused s \<Longrightarrow> round_ok e \<Longrightarrow> round_of_loop E e s = Inr ((), t) \<Longrightarrow>
    server_step E s t"
| Pausing: "server_step E s (snd (Pause s))"
| Resuming: "server_step E s (snd (Unpause s))"
| Stopping: "server_step E s (snd (Stop s))"

inductive_cases server_stepE: "server_step E s t"

inductive reachable :: "'d env \<Rightarrow> 'd server \<Rightarrow> 'd server \<Rightarrow> bool" for E s0 where
  start: "reachable E s0 s0"
| step: "reachable E s0 s \<Longrightarrow> server_step E s t \<Longrightarrow> reachable E s0 t"

lemma reachable_invariant:
  assumes "reachable E s0 s" "I s0" "\<And>s t. I s \<Longrightarrow> server_step E s t \<Longrightarrow> I t"
  shows "I s"
  using assms(1) by induction (auto intro: assms(2,3))

end
