(* ===== verification/Logger.thy ===== *)
theory Logger
  imports HexString
begin

text \<open>
  The class \<open>Logger\<close> (Logger.h, Logger.cpp), as far as it computes: which messages also go to a
  file, the name of that file, and the text of a packet dump. Printing to the console and to the
  file, and the creation of the log directory, are not modelled. A wide string is given by its
  characters, all of which are ASCII here.
\<close>

section \<open>Messages\<close>

text \<open>\<open>LOGFILES\<close>: there is no name for \<open>LOGTYPE_NONE\<close>.\<close>

fun LOGFILES :: "LOGTYPE \<Rightarrow> cppstring option" where
  "LOGFILES LOGTYPE_NONE = None"
| "LOGFILES LOGTYPE_PACKET = Some ''packet''"
| "LOGFILES LOGTYPE_DATABASE = Some ''database''"
| "LOGFILES LOGTYPE_ERROR = Some ''error''"
| "LOGFILES LOGTYPE_DEBUG = Some ''debug''"
| "LOGFILES LOGTYPE_COMM = Some ''comm''"
| "LOGFILES LOGTYPE_SERVER = Some ''server''"

definition IsLogPathSet :: "cppstring \<Rightarrow> bool" where
  "IsLogPathSet path = (if 0 < length path then True else False)"

definition written_to_file :: "bool \<Rightarrow> cppstring \<Rightarrow> LOGTYPE \<Rightarrow> bool" where
  "written_to_file isDebug path type \<longleftrightarrow>
     (type = LOGTYPE_DATABASE \<or> type = LOGTYPE_ERROR \<or> type = LOGTYPE_PACKET \<or>
      type = LOGTYPE_SERVER \<or> (type = LOGTYPE_DEBUG \<and> isDebug)) \<and> 0 < length path"

text \<open>\<open>%02u\<close> and \<open>%04u\<close>: decimal with at least that many digits.\<close>

definition dec_pad :: "nat \<Rightarrow> nat \<Rightarrow> cppstring" where
  "dec_pad w n = replicate (w - length (dec n)) CHR ''0'' @ dec n"

record SYSTEMTIME =
  wYear :: nat
  wMonth :: nat
  wDay :: nat
  wHour :: nat
  wMinute :: nat
  wSecond :: nat

definition log_line :: "SYSTEMTIME \<Rightarrow> cppstring \<Rightarrow> cppstring" where
  "log_line t text = concat
     [''['', dec_pad 2 (wMonth t), ''-'', dec_pad 2 (wDay t), ''-'', dec (wYear t), '', '',
      dec_pad 2 (wHour t), '':'', dec_pad 2 (wMinute t), '':'', dec_pad 2 (wSecond t), ''] '',
      text, [CHR 0x0A]]"

text \<open>The name of the log file, for a type that has one.\<close>

definition log_file :: "cppstring \<Rightarrow> LOGTYPE \<Rightarrow> SYSTEMTIME \<Rightarrow> cppstring option" where
  "log_file path type t =
     map_option (\<lambda>name. concat [path, [CHR 0x5C], name, dec_pad 2 (wMonth t), dec_pad 2 (wDay t),
       dec_pad 4 (wYear t), ''.log'']) (LOGFILES type)"

text \<open>\<open>Log\<close> never asks for the name of a file that has none.\<close>

lemma logged_types_have_files:
  "written_to_file isDebug path type \<Longrightarrow> log_file path type t \<noteq> None"
  by (cases type) (simp_all add: written_to_file_def log_file_def)

section \<open>Packet dumps\<close>

definition printable :: "byte \<Rightarrow> bool" where
  "printable b \<longleftrightarrow> 0x20 \<le> b \<and> b < 0x7F"

definition dump_char :: "byte \<Rightarrow> cppstring" where
  "dump_char b = (if printable b then [char_of_byte b] else ''.'')"

text \<open>
  The loop over \<open>c\<close>. After every 16th byte comes the text of the last 16; after the last byte of
  an incomplete line come filler and the text of that line. \<open>buf\<close> holds at least \<open>len\<close> bytes.
\<close>

definition line_text :: "byte list \<Rightarrow> nat \<Rightarrow> nat \<Rightarrow> nat \<Rightarrow> cppstring" where
  "line_text buf len from n =
     concat (map (\<lambda>c2. if from + c2 < len then dump_char (buf ! (from + c2)) else []) [0..<n])"

definition dump_step :: "byte list \<Rightarrow> nat \<Rightarrow> nat \<Rightarrow> cppstring" where
  "dump_step buf len c = hex2 (buf ! c) @ '' '' @
     (if c \<noteq> 0 \<and> (c + 1) mod 16 = 0
      then ''  '' @ line_text buf len ((c + 1) - 16) 16 @ [CHR 0x0A]
      else if c = len - 1 \<and> (c + 1) mod 16 \<noteq> 0
      then let remaining = len mod 16
           in concat (replicate (16 - remaining) ''   '') @ ''  '' @
              line_text buf len ((c + 1) - remaining) remaining @ [CHR 0x0A]
      else [])"

definition PacketToText :: "byte list \<Rightarrow> nat \<Rightarrow> fault + cppstring" where
  "PacketToText buf len =
     (if CLIENT_BUFFER_SIZE < len then Inr []
      else if length buf < len then Inl OutOfBounds
      else Inr (CHR 0x0A # concat (map (dump_step buf len) [0..<len])))"

text \<open>Every line of the dump has 67 characters, the last one with its filler.\<close>

lemma length_dump_char [simp]: "length (dump_char b) = 1"
  by (simp add: dump_char_def)

lemma length_line_text: "from + n \<le> len \<Longrightarrow> length (line_text buf len from n) = n"
  unfolding line_text_def by (induction n) simp_all

lemma filler: "48 - (c mod 16 + c mod 16) = 3 * (16 - c mod 16) + c mod (16 :: nat)"
proof -
  have "r < 16 \<Longrightarrow> 48 - (r + r) = 3 * (16 - r) + r" for r :: nat by arith
  then show ?thesis by simp
qed

lemma length_dump_step:
  assumes "c < len"
  shows "length (dump_step buf len c) =
    3 + (if (c + 1) mod 16 = 0 then 19
         else if c + 1 = len then 3 * (16 - len mod 16) + 3 + len mod 16 else 0)"
proof (cases "(c + 1) mod 16 = 0")
  case True
  then have "16 dvd c + 1" by (simp only: mod_eq_0_iff_dvd)
  then have "16 \<le> c + 1" by (rule dvd_imp_le) simp
  with True assms length_line_text [of "c + 1 - 16" 16 len buf]
  show ?thesis by (simp add: dump_step_def hex2_def)
next
  case False
  show ?thesis
  proof (cases "c + 1 = len")
    case True
    have "len mod 16 \<le> len" by simp
    with True False length_line_text [of "c + 1 - len mod 16" "len mod 16" len buf]
    show ?thesis by (auto simp: dump_step_def hex2_def Let_def length_concat sum_list_replicate filler)
  next
    case False': False
    with False assms show ?thesis by (auto simp: dump_step_def hex2_def)
  qed
qed

end
