(* ===== verification/Main_Program.thy ===== *)
theory Main_Program
  imports Server_Loop Logger
begin

text \<open>
  The program itself (\<open>wmain\<close>, SBOL DB Server.cpp): the three commands of the administrator, the
  help text, and the start of the server. The icon and the title of the window are not modelled.
\<close>

text \<open>What a command line asks for.\<close>

datatype command =
    CmdSetPassword wstr wstr
  | CmdCreateAccount wstr wstr wstr wstr
  | CmdCreateKey
  | CmdUsage
  | CmdHelp
  | CmdServe

text \<open>\<open>_wcsicmp\<close> folds the letters A to Z.\<close>

definition wlower :: "u16 \<Rightarrow> u16" where
  "wlower w = (if 65 \<le> w \<and> w \<le> 90 then w + 32 else w)"

definition wcsicmp :: "wstr \<Rightarrow> wstr \<Rightarrow> int" where
  "wcsicmp a b = (if map wlower a = map wlower b then 0 else 1)"

text \<open>\<open>args\<close> is \<open>argv[1]\<close> to the last one, so \<open>argc\<close> is its length and one.\<close>

definition command_of :: "wstr list \<Rightarrow> command" where
  "command_of args =
     (case args of
        [] \<Rightarrow> CmdServe
      | opt # rest \<Rightarrow>
          if opt \<noteq> [] \<and> (hd opt = 0x2D \<or> hd opt = 0x2F)
          then if wcsicmp (ToWide ''setpassword'') (tl opt) = 0
               then (case rest of [u, p] \<Rightarrow> CmdSetPassword u p | _ \<Rightarrow> CmdUsage)
               else if wcsicmp (ToWide ''createaccount'') (tl opt) = 0
               then (case rest of [u, p, e, v] \<Rightarrow> CmdCreateAccount u p e v | _ \<Rightarrow> CmdUsage)
               else if wcsicmp (ToWide ''createkey'') (tl opt) = 0 then CmdCreateKey
               else CmdHelp
          else CmdServe)"

text \<open>The end of the process with an exit code, or a server that runs.\<close>

datatype outcome = Exit int | Serving

record program_env =
  config :: config_file
  random_key :: "byte list"
  random_iv :: "byte list"
  key_file_writable :: bool
  slot_flags :: "nat \<Rightarrow> bool \<times> bool"

definition with_close :: "'d env \<Rightarrow> int \<Rightarrow> ('d server, outcome) prog" where
  "with_close E r = stm (CloseDB (api E)) (ret (Exit (if r \<noteq> 0 then 1 else 0)))"

definition wmain :: "'d env \<Rightarrow> program_env \<Rightarrow> 'd \<Rightarrow> wstr list \<Rightarrow> ('d server, outcome) prog" where
  "wmain E P d args =
     (case command_of args of
        CmdSetPassword u p \<Rightarrow> bnd (SetPassword E (config P) d u p) (with_close E)
      | CmdCreateAccount u p e v \<Rightarrow> bnd (CreateAccount E (config P) d u p e v) (with_close E)
      | CmdCreateKey \<Rightarrow>
          bnd (CreateKey E (config P) d (random_key P) (random_iv P) (key_file_writable P)) (\<lambda>(r, _).
          ret (Exit (if r \<noteq> 0 then 1 else 0)))
      | CmdUsage \<Rightarrow> ret (Exit 0)
      | CmdHelp \<Rightarrow> ret (Exit 0)
      | CmdServe \<Rightarrow>
          bnd (Start E (config P) d (slot_flags P)) (\<lambda>r.
          if r \<noteq> 0 then stm (CloseDB (api E)) (ret (Exit 1)) else ret Serving))"

text \<open>When \<open>IsRunning\<close> turns false: the database is closed and the process ends.\<close>

definition shutdown :: "'d env \<Rightarrow> ('d server, outcome) prog" where
  "shutdown E = stm (CloseDB (api E)) (ret (Exit 0))"

text \<open>The options are found in any mixture of cases, after a minus sign or a slash.\<close>

lemma command_examples:
  "command_of [] = CmdServe" "command_of [ToWide ''-CreateKey''] = CmdCreateKey"
  "command_of [ToWide ''/?''] = CmdHelp" "command_of [ToWide ''-setpassword''] = CmdUsage"
  "command_of [ToWide ''start''] = CmdServe"
  by (simp_all add: command_of_def wcsicmp_def wlower_def ToWide_def byte_of_def)

text \<open>A file that cannot be read ends the process through the wild database pointer.\<close>

lemma bad_config_faults:
  assumes "document (config P) = ParseError" "opened (config P)" "\<not> file_missing (config P)"
    and "db s = None"
  shows "wmain E P d [] s = Inl OutOfBounds"
  using assms
  by (simp add: wmain_def command_of_def Start_def not_ready_def VerifyConfig_def LoadConfig_def
      CloseDB_def on_server_db_def prog_simps)

end
