(* ===== verification/Slots.thy ===== *)
theory Slots
  imports Server_Loop
begin

text \<open>
  The invariant of a slot, and that everything the network layer does to a slot keeps it: queueing
  a packet, sending part of a frame, storing received bytes, taking a frame out of the receive
  buffer. Together with the bounds on what the sockets deliver it excludes every fault of these
  operations.
\<close>

section \<open>The invariant\<close>

definition entry_size :: "byte list \<Rightarrow> nat" where
  "entry_size e = unat (bytes_u16 (take 2 e))"

definition queued :: "byte list \<Rightarrow> bool" where
  "queued e \<longleftrightarrow> length e = 8192 \<and> 32 \<le> entry_size e \<and> entry_size e \<le> 8176"

text \<open>
  The size that was announced is remembered while its frame is incomplete. A request is at most
  8190 bytes long, so that it can be decrypted in place behind its size.
\<close>

definition size_known :: "client \<Rightarrow> bool" where
  "size_known c \<longleftrightarrow> hassize c \<longrightarrow>
     packetsize c = 0 \<or> (2 \<le> rcvread c \<and> packetsize c = bytes_u16 (take 2 (rcvbuf c)) + 2)"

definition slot_ok :: "client \<Rightarrow> bool" where
  "slot_ok c \<longleftrightarrow>
     wf_packet (inbuf c) \<and> wf_packet (outbuf c) \<and> length (rcvbuf c) = 8192 \<and>
     length (sndbuf c) = 8192 \<and> length (key c) = 32 \<and> length (iv c) = 16 \<and>
     unat (rcvread c) \<le> 8192 \<and> snddata c \<le> 8178 \<and> list_all queued (sendQueue c) \<and>
     unat (getSizeFromBuffer (inbuf c)) \<le> 8190 \<and> unat (pSize (inbuf c)) \<le> 8190 \<and>
     size_known c \<and> (isAuth c \<longrightarrow> slot_used c)"

text \<open>What identifies the peer of a slot.\<close>

definition same_peer :: "client \<Rightarrow> client \<Rightarrow> bool" where
  "same_peer c d \<longleftrightarrow>
     ClientSocket d = ClientSocket c \<and> connection_index d = connection_index c \<and>
     isAuth d = isAuth c \<and> key d = key c \<and> iv d = iv c"

text \<open>The connection of a slot and what was received on it: the handlers leave this alone.\<close>

definition same_link :: "client \<Rightarrow> client \<Rightarrow> bool" where
  "same_link c d \<longleftrightarrow>
     ClientSocket d = ClientSocket c \<and> connection_index d = connection_index c \<and>
     rcvbuf d = rcvbuf c \<and> rcvread d = rcvread c \<and> packetsize d = packetsize c \<and>
     hassize d = hassize c"

lemma same_link_refl [simp]: "same_link c c"
  by (simp add: same_link_def)

lemma same_link_trans: "same_link a b \<Longrightarrow> same_link b c \<Longrightarrow> same_link a c"
  by (simp add: same_link_def)

lemma same_peer_refl [simp]: "same_peer c c"
  by (simp add: same_peer_def)

lemma same_peer_trans: "same_peer a b \<Longrightarrow> same_peer b c \<Longrightarrow> same_peer a c"
  by (simp add: same_peer_def)

lemma slot_ok_Initialize: "slot_ok (Initialize c)"
  by (simp add: slot_ok_def Initialize_def ClearSendQueue_def wf_clear size_known_def slot_used_def
      wf_packet_def clearBuffer_def getSizeFromBuffer_def block_def take_zero_buffer KEY_SIZE_def
      BLOCK_SIZE_def numeral_2_eq_2)

lemma slot_ok_outbuf: "slot_ok c \<Longrightarrow> wf_packet p \<Longrightarrow> slot_ok (c\<lparr>outbuf := p\<rparr>)"
  by (simp add: slot_ok_def size_known_def slot_used_def)

lemma slot_ok_Disconnect: "slot_ok c \<Longrightarrow> slot_ok (Disconnect c)"
  by (simp add: slot_ok_def size_known_def slot_used_def Disconnect_def)

lemma same_peer_Disconnect [simp]: "same_peer c (Disconnect d) = same_peer c d"
  by (simp add: same_peer_def Disconnect_def)

lemma slot_ok_queue: "slot_ok c \<Longrightarrow> queued e \<Longrightarrow> slot_ok (c\<lparr>sendQueue := sendQueue c @ [e]\<rparr>)"
  by (simp add: slot_ok_def size_known_def slot_used_def)

section \<open>Queueing a packet\<close>

lemma pad_loop_result:
  assumes "pad_loop p = Some q" "wf_packet p" "unat (pSize p) \<le> 8175"
  shows "wf_packet q \<and> unat (pSize q) = padded_size (unat (pSize p))"
proof -
  define N where "N = padded_size (unat (pSize p))"
  define P where "P = (\<lambda>r. wf_packet r \<and> unat (pSize r) \<le> 8176 \<and> padded_size (unat (pSize r)) = N)"
  have "P q"
  proof (rule while_option_rule [of P needs_padding "append_u8 0" p q])
    show "while_option needs_padding (append_u8 0) p = Some q"
      using assms(1) by (simp add: pad_loop_def)
    show "P p" using assms(2,3) by (simp add: P_def N_def)
    fix r assume r: "P r" "needs_padding r"
    then have n: "padded_size (unat (pSize r)) \<noteq> unat (pSize r)" "unat (pSize r) \<le> 8176"
      by (simp_all add: needs_padding_iff P_def)
    moreover have "padded_size 8176 = 8176" by (simp add: padded_size_fix)
    ultimately have lt: "unat (pSize r) < 8176" by (cases "unat (pSize r) = 8176") auto
    show "P (append_u8 0 r)"
    proof (cases "unat (pOffset r) + 1 < 8192")
      case True
      then have "unat (pSize (append_u8 0 r)) = unat (pSize r) + 1"
        using lt by (intro append_u8_cursor(2)) simp_all
      then show ?thesis using r(1) lt padded_size_Suc [OF n(1)] by (simp add: P_def wf_appends)
    next
      case False
      then have "append_u8 0 r = r" by (simp add: append_u8_def append_bytes_def)
      then show ?thesis using r(1) by simp
    qed
  qed
  moreover have "\<not> needs_padding q"
    using assms(1) unfolding pad_loop_def by (rule while_option_stop)
  ultimately have "wf_packet q" "padded_size (unat (pSize q)) = N"
    "padded_size (unat (pSize q)) = unat (pSize q)"
    by (simp_all add: P_def needs_padding_iff)
  then show ?thesis unfolding N_def by metis
qed

lemma queued_entry:
  assumes "wf_packet p" "32 \<le> unat (pSize p)" "unat (pSize p) \<le> 8176"
  shows "queued (queue_entry (p\<lparr>buffer := overwrite 0 (u16_bytes (pSize p)) (buffer p)\<rparr>))"
proof -
  let ?b = "overwrite 0 (u16_bytes (pSize p)) (buffer p)"
  let ?n = "min (unat (pSize p) + 2) 8190"
  have len: "length (buffer p) = 8192" using assms(1) by (rule wf_length)
  have "take 2 (overwrite 0 (take ?n ?b) zero_buffer) = take 2 (take ?n ?b)"
    using len assms(2) by (simp add: overwrite_def)
  also have "\<dots> = u16_bytes (pSize p)"
    using assms(2) by (simp add: overwrite_def)
  finally have "take 2 (queue_entry (p\<lparr>buffer := ?b\<rparr>)) = u16_bytes (pSize p)"
    by (simp add: queue_entry_def Let_def)
  moreover have "length (queue_entry (p\<lparr>buffer := ?b\<rparr>)) = 8192"
    using len by (simp add: queue_entry_def Let_def)
  ultimately show ?thesis using assms by (simp add: queued_def entry_size_def c16.dec_enc)
qed

lemma wf_size_field: "wf_packet p \<Longrightarrow> wf_packet (p\<lparr>buffer := overwrite 0 (u16_bytes n) (buffer p)\<rparr>)"
  by (rule wf_overwrite) simp_all

text \<open>Everything \<open>Send\<close> can do: nothing, a disconnect, or one frame at the end of the queue.\<close>

lemma Send_packet_cases:
  assumes "Send_packet p c = Inr (p', c')" "wf_packet p"
  shows "wf_packet p' \<and> (c' = c \<or> c' = Disconnect c \<or>
    (\<exists>e. queued e \<and> c' = c\<lparr>sendQueue := sendQueue c @ [e]\<rparr>))"
proof (cases "0 \<le> ClientSocket c \<and> 4 \<le> unat (pSize p) \<and> unat (pSize p) \<le> 8177")
  case False
  then have "p' = p \<and> (c' = c \<or> c' = Disconnect c)"
    using assms(1) Send_rejects [of c p]
    by (cases "ClientSocket c < 0"; cases "unat (pSize p) < 4") (auto simp: not_less not_le)
  with assms(2) show ?thesis by blast
next
  case True
  then have s: "sendable p" using assms(2) by (simp add: sendable_def)
  note sz = sendable_size [OF s]
  let ?q = "setSize (pSize p - 2) p"
  have wq: "wf_packet ?q" using assms(2) by (rule wf_cursor)
  have qs: "unat (pSize ?q) = unat (pSize p) - 2" using sz(1) by (simp add: setSize_def)
  then have qs8: "unat (pSize ?q) \<le> 8175" using True by linarith
  have range: "\<not> CLIENT_BUFFER_SIZE < unat (pSize p) + 15" "\<not> int (unat (pSize p)) - 4 < 0"
    "\<not> CLIENT_BUFFER_SIZE < unat (pSize p)" using True by (simp_all add: uint_less_numeral)
  show ?thesis
  proof (cases "pad_loop ?q")
    case None
    with assms(1) True range show ?thesis by (simp add: Send_packet_def uint_less_numeral)
  next
    case (Some r)
    then have r: "wf_packet r" "unat (pSize r) = padded_size (unat (pSize p) - 2)"
      using pad_loop_result [OF Some wq qs8] qs by simp_all
    then have rs: "32 \<le> unat (pSize r)" "unat (pSize r) \<le> 8176"
      using sz(3) padded_size_props(3) [of "unat (pSize p) - 2"] by simp_all
    note e = Encrypt_in_place [OF r(1), of "unat (pSize r)"]
    have "Send_packet p c = Inr (AddToSendQueue r c)"
      using True range Some rs e
      by (simp add: Send_packet_def BLOCK_SIZE_def Let_def uint_less_numeral)
    then show ?thesis
      using assms(1) queued_entry [OF r(1) rs] wf_size_field [OF r(1)]
      by (auto simp: AddToSendQueue_def Let_def)
  qed
qed

lemma Send_packet_ok:
  assumes "Send_packet p c = Inr (p', c')" "wf_packet p" "slot_ok c"
  shows "wf_packet p'" "slot_ok c'" "same_peer c c'" "same_link c c'"
proof -
  note cs = Send_packet_cases [OF assms(1,2)]
  then show "wf_packet p'" by blast
  show "slot_ok c'" using cs assms(3) slot_ok_Disconnect slot_ok_queue by blast
  show "same_peer c c'" "same_link c c'" using cs by (auto simp: same_peer_def same_link_def Disconnect_def)
qed

lemma Send_out_ok:
  assumes "Send_out c = Inr c'" "slot_ok c"
  shows "slot_ok c'" "same_peer c c'" "same_link c c'"
proof -
  obtain p d where r: "Send_packet (outbuf c) c = Inr (p, d)" "c' = d\<lparr>outbuf := p\<rparr>"
    using assms(1) by (auto simp: Send_out_def split: sum.splits)
  have "wf_packet (outbuf c)" using assms(2) by (simp add: slot_ok_def)
  note d = Send_packet_ok [OF r(1) this assms(2)]
  show "slot_ok c'" unfolding r(2) by (rule slot_ok_outbuf [OF d(2,1)])
  show "same_peer c c'" "same_link c c'" using d(3,4) by (simp_all add: r(2) same_peer_def same_link_def)
qed

text \<open>A heartbeat is a small packet: queueing it always ends.\<close>

lemma start_fresh: "fresh (reply_header t sub)"
  by (rule reply_header_fresh)

lemma SendHeartBeat_ok:
  assumes "slot_ok c"
  shows "\<exists>c'. SendHeartBeat n c = Inr c' \<and> slot_ok c' \<and> same_peer c c'"
proof -
  let ?p = "append_u32 n (setOffset 6 (setSize 6 (setSubType 1 (setType 0 (clearBuffer (outbuf c))))))"
  let ?h = "reply_header 0 1"
  have h: "setOffset 6 (setSize 6 (setSubType 1 (setType 0 (clearBuffer (outbuf c))))) = ?h"
    by (simp add: reply_header_def setSubType_def setType_def setOffset_def setSize_def clearBuffer_def)
  have o: "unat (pOffset ?h) = 6" using length_written [OF reply_header_fresh, of 0 1]
    by (simp add: reply_header_written)
  have f: "fresh ?p" unfolding h append_u32_def using o by (intro conjunct2 [OF append_fits] start_fresh) simp
  have "unat (pSize ?p) = 10"
    using o unfolding h by (simp add: append_u32_def append_bytes_def reply_header_def setSubType_def
        setType_def setOffset_def setSize_def)
  then have "\<exists>c'. SendHeartBeat n c = Inr c'"
    using Send_rejects(3) [of "c\<lparr>outbuf := ?p\<rparr>" ?p] Send_frame [of "c\<lparr>outbuf := ?p\<rparr>" ?p] f
    by (cases "0 \<le> ClientSocket c") (auto simp: SendHeartBeat_def Let_def Send_out_def)
  then obtain c' where r: "SendHeartBeat n c = Inr c'" by blast
  have "slot_ok (c\<lparr>outbuf := ?p\<rparr>)" using assms fresh_wf [OF f] by (rule slot_ok_outbuf)
  moreover have "same_peer c (c\<lparr>outbuf := ?p\<rparr>)" by (simp add: same_peer_def)
  ultimately show ?thesis
    using Send_out_ok [of "c\<lparr>outbuf := ?p\<rparr>" c'] r same_peer_trans
    by (auto simp: SendHeartBeat_def Let_def)
qed

section \<open>Sending\<close>

lemma sint_small:
  assumes "unat (w :: u16) < 32768"
  shows "sint w = int (unat w)"
proof -
  have "uint w < 32768" using assms by (simp add: uint_less_numeral)
  moreover have "- 32768 \<le> uint w" by (rule order_trans [of _ 0]) simp_all
  ultimately have "signed_take_bit 15 (uint w) = uint w"
    by (intro signed_take_bit_int_eq_self) simp_all
  then show ?thesis by (simp add: sint_uint)
qed

lemma unat_ucast_u32: "unat (ucast (w :: u16) :: u32) = unat w"
  using unat_less [of w] by (simp add: unsigned_ucast_eq take_bit_nat_eq_self)

lemma fetch_frame_ok:
  assumes "slot_ok c" "0 < snddata c \<or> sendQueue c \<noteq> []"
  shows "slot_ok (fetch_frame c) \<and> same_peer c (fetch_frame c) \<and> 0 < snddata (fetch_frame c)"
proof (cases "snddata c \<le> 0")
  case True
  then obtain e q where q: "sendQueue c = e # q" using assms(2) by (cases "sendQueue c") auto
  then have e: "queued e" "list_all queued q" using assms(1) by (simp_all add: slot_ok_def)
  then have n: "entry_size e \<le> 8176" "32 \<le> entry_size e" "length e = 8192"
    by (simp_all add: queued_def)
  then have "sint (bytes_u16 (take 2 e)) = int (entry_size e)"
    using sint_small [of "bytes_u16 (take 2 e)"] by (simp add: entry_size_def)
  then show ?thesis using True q e n assms(1)
    by (simp add: fetch_frame_def GetFromSendQueue_def slot_ok_def same_peer_def size_known_def
        slot_used_def)
qed (simp add: fetch_frame_def assms(1))

lemma sent_ok:
  assumes "slot_ok c" "0 < snddata c" "n \<le> max_send c"
  shows "\<exists>c'. sent n c = Inr c' \<and> slot_ok c' \<and> same_peer c c'"
proof -
  have len: "length (sndbuf c) = 8192" "snddata c \<le> 8178" using assms(1) by (simp_all add: slot_ok_def)
  then have n: "int n \<le> snddata c" using assms(2,3) by (simp add: max_send_def)
  then have room: "n + nat (snddata c - int n) \<le> 8192" using len by simp
  then have "length (overwrite 0 (block n (nat (snddata c - int n)) (sndbuf c)) (sndbuf c)) = 8192"
    using len by simp
  then show ?thesis
    using assms(1) room len
    by (auto simp: sent_def Let_def slot_ok_def same_peer_def size_known_def slot_used_def)
qed

lemma Server_Send_ok:
  assumes "slot_ok c" "\<And>n. r = Sent n \<Longrightarrow> n \<le> max_send (fetch_frame c)"
  shows "\<exists>b c'. Server_Send r c = Inr (b, c') \<and> slot_ok c' \<and> same_peer c c'"
proof (cases "0 < snddata c \<or> sendQueue c \<noteq> []")
  case False
  then show ?thesis using assms(1) by (auto simp: Server_Send_def MessagesInSendQueue_def)
next
  case True
  note f = fetch_frame_ok [OF assms(1) True]
  have "Server_Send r c = (case r of
      SendError \<Rightarrow> Inr (False, Disconnect (fetch_frame c))
    | SendWouldBlock \<Rightarrow> Inr (True, fetch_frame c)
    | Sent n \<Rightarrow> (case sent n (fetch_frame c) of Inl e \<Rightarrow> Inl e | Inr c2 \<Rightarrow> Inr (True, c2)))"
    using True by (auto simp: Server_Send_def MessagesInSendQueue_def Let_def)
  moreover have "\<exists>c'. sent n (fetch_frame c) = Inr c' \<and> slot_ok c' \<and> same_peer c c'" if "r = Sent n" for n
    using sent_ok [of "fetch_frame c" n] f assms(2) [OF that] same_peer_trans by blast
  ultimately show ?thesis
    using f slot_ok_Disconnect by (cases r) fastforce+
qed

section \<open>Receiving\<close>

lemma take_overwrite_after: "2 \<le> k \<Longrightarrow> k \<le> length xs \<Longrightarrow> take 2 (overwrite k ys xs) = take 2 xs"
  by (rule take_overwrite_before)

text \<open>
  Storing received bytes and counting them go together: in between, the size that was announced
  is not in question, since it is stored in the first two bytes.
\<close>

lemma received_ok:
  assumes "slot_ok c" "length bs + unat (rcvread c) \<le> 8192"
  shows "slot_ok (note_size (length bs) (store_received bs c))"
    and "same_peer c (note_size (length bs) (store_received bs c))"
    and "unat (rcvread (note_size (length bs) (store_received bs c))) = unat (rcvread c) + length bs"
proof -
  let ?c = "store_received bs c" and ?n = "note_size (length bs) (store_received bs c)"
  have r: "unat (rcvread c + word_of_nat (length bs)) = unat (rcvread c) + length bs"
    using assms(2) by (simp add: unat_word_ariths unat_of_nat)
  show count: "unat (rcvread ?n) = unat (rcvread c) + length bs"
    using r by (simp add: note_size_def store_received_def Let_def)
  show "same_peer c ?n" by (simp add: note_size_def store_received_def same_peer_def Let_def)
  have len: "length (rcvbuf c) = 8192" using assms(1) by (simp add: slot_ok_def)
  have "size_known ?n"
  proof (cases "2 \<le> unat (rcvread c)")
    case True
    then have "take 2 (rcvbuf ?c) = take 2 (rcvbuf c)"
      using assms len by (simp add: store_received_def take_overwrite_after)
    moreover have "2 \<le> rcvread c + word_of_nat (length bs)"
      using True r by (simp add: word_le_nat_alt)
    ultimately show ?thesis
      using assms(1)
      by (auto simp: note_size_def store_received_def size_known_def slot_ok_def Let_def)
  next
    case False
    then have "\<not> 2 \<le> rcvread c" by (simp add: word_le_nat_alt)
    then have "hassize c \<longrightarrow> packetsize c = 0" using assms(1) by (simp add: slot_ok_def size_known_def)
    then show ?thesis
      by (auto simp: note_size_def store_received_def size_known_def Let_def)
  qed
  moreover have "length (rcvbuf ?c) = 8192"
    using len assms(2) by (simp add: store_received_def)
  ultimately show "slot_ok ?n"
    using assms count
    by (simp add: slot_ok_def note_size_def store_received_def slot_used_def Let_def)
qed

lemma store_nothing [simp]: "store_received [] c = c"
  by (cases c) (simp add: store_received_def)

definition frame_fits :: "client \<Rightarrow> bool" where
  "frame_fits c \<longleftrightarrow> 6 \<le> unat (packetsize c) \<and> unat (packetsize c) \<le> unat (rcvread c) \<and>
     entry_size (rcvbuf c) = unat (packetsize c) - 2"

lemma frame_complete_fits:
  assumes "slot_ok c" "frame_complete c"
  shows "frame_fits c"
proof -
  have ge: "6 \<le> packetsize c" and h: "hassize c" and le: "ucast (packetsize c) \<le> rcvread c"
    using assms(2) by (simp_all add: frame_complete_def)
  have ge': "6 \<le> unat (packetsize c)" using ge by (simp add: word_le_nat_alt)
  then have "packetsize c \<noteq> 0" by auto
  then have "packetsize c = bytes_u16 (take 2 (rcvbuf c)) + 2"
    using assms(1) h by (simp add: slot_ok_def size_known_def)
  then have "bytes_u16 (take 2 (rcvbuf c)) = packetsize c - 2" by simp
  moreover have "unat (packetsize c - 2) = unat (packetsize c) - 2"
    using ge' by (subst unat_sub) (simp_all add: word_le_nat_alt)
  ultimately have "entry_size (rcvbuf c) = unat (packetsize c) - 2" by (simp add: entry_size_def)
  moreover have "unat (packetsize c) \<le> unat (rcvread c)"
    using le by (simp add: word_le_nat_alt unat_ucast_u32)
  ultimately show ?thesis using ge' by (simp add: frame_fits_def)
qed

lemma drop_frame_ok:
  assumes "slot_ok c" "unat (packetsize c) \<le> unat (rcvread c)"
  shows "slot_ok (drop_frame c) \<and> same_peer c (drop_frame c)"
proof -
  let ?n = "unat (packetsize c)"
  have "?n \<le> 8192" "length (rcvbuf c) = 8192" using assms by (simp_all add: slot_ok_def)
  then have "length (overwrite 0 (block ?n (8192 - ?n) (rcvbuf c)) (rcvbuf c)) = 8192" by simp
  moreover have "unat (rcvread c - ucast (packetsize c)) \<le> 8192"
  proof -
    have "ucast (packetsize c) \<le> rcvread c"
      using assms(2) by (simp add: word_le_nat_alt unat_ucast_u32)
    then have "unat (rcvread c - ucast (packetsize c)) \<le> unat (rcvread c)" by (simp add: unat_sub)
    then show ?thesis using assms(1) by (simp add: slot_ok_def)
  qed
  ultimately show ?thesis
    using assms(1)
    by (simp add: drop_frame_def Let_def slot_ok_def size_known_def slot_used_def same_peer_def)
qed

end
