(* ===== verification/Framing.thy ===== *)
theory Framing
  imports Slots
begin

text \<open>
  The two byte streams of a connection. Both directions of a slot are queues: what is put in comes
  out again in the same order, nothing is lost and nothing is invented, however the sockets cut the
  stream. The incoming stream is moreover cut into frames in a way that depends on its bytes only.
\<close>

section \<open>Queues of bytes\<close>

datatype ('e, 'r) event = Put 'e | Get 'r

locale byte_queue =
  fixes put :: "'e \<Rightarrow> 's \<Rightarrow> 's" and val :: "'e \<Rightarrow> byte list"
    and get :: "'r \<Rightarrow> 's \<Rightarrow> byte list \<times> 's" and content :: "'s \<Rightarrow> byte list"
    and ok :: "'s \<Rightarrow> bool" and may_put :: "'s \<Rightarrow> 'e \<Rightarrow> bool" and may_get :: "'s \<Rightarrow> 'r \<Rightarrow> bool"
  assumes put_ok: "ok s \<Longrightarrow> may_put s e \<Longrightarrow> ok (put e s)"
    and put_content: "ok s \<Longrightarrow> may_put s e \<Longrightarrow> content (put e s) = content s @ val e"
    and get_ok: "ok s \<Longrightarrow> may_get s r \<Longrightarrow> ok (snd (get r s))"
    and get_content: "ok s \<Longrightarrow> may_get s r \<Longrightarrow> fst (get r s) @ content (snd (get r s)) = content s"
begin

fun run :: "('e, 'r) event list \<Rightarrow> 's \<Rightarrow> byte list \<times> 's" where
  "run [] s = ([], s)"
| "run (Put e # es) s = run es (put e s)"
| "run (Get r # es) s =
     (let (bs, t) = get r s; (cs, u) = run es t in (bs @ cs, u))"

fun valid :: "('e, 'r) event list \<Rightarrow> 's \<Rightarrow> bool" where
  "valid [] s \<longleftrightarrow> True"
| "valid (Put e # es) s \<longleftrightarrow> may_put s e \<and> valid es (put e s)"
| "valid (Get r # es) s \<longleftrightarrow> may_get s r \<and> valid es (snd (get r s))"

fun put_in :: "('e, 'r) event list \<Rightarrow> byte list" where
  "put_in [] = []"
| "put_in (Put e # es) = val e @ put_in es"
| "put_in (Get r # es) = put_in es"

lemma run_ok: "ok s \<Longrightarrow> valid es s \<Longrightarrow> ok (snd (run es s))"
proof (induction es s rule: run.induct)
  case (3 r es s)
  then show ?case
    using "3.IH" [of "get r s" "fst (get r s)" "snd (get r s)"] get_ok
    by (simp add: case_prod_beta Let_def)
qed (simp_all add: put_ok)

text \<open>Everything that went in has come out or is still there, in order.\<close>

lemma conserved:
  "ok s \<Longrightarrow> valid es s \<Longrightarrow> fst (run es s) @ content (snd (run es s)) = content s @ put_in es"
proof (induction es s rule: run.induct)
  case (2 e es s)
  then show ?case using put_ok put_content by simp
next
  case (3 r es s)
  have ok: "ok (snd (get r s))" using "3.prems" get_ok by simp
  have "fst (run es (snd (get r s))) @ content (snd (run es (snd (get r s)))) =
      content (snd (get r s)) @ put_in es"
    using "3.IH" [of "get r s" "fst (get r s)" "snd (get r s)"] "3.prems" ok by simp
  moreover have "fst (get r s) @ content (snd (get r s)) = content s"
    using "3.prems" get_content by simp
  ultimately show ?case by (simp add: case_prod_beta Let_def)
qed simp

text \<open>What has come out is a prefix of what went in.\<close>

lemma output_prefix:
  assumes "ok s" "valid es s" "content s = []"
  shows "\<exists>rest. put_in es = fst (run es s) @ rest"
  using conserved [OF assms(1,2)] assms(3) by (metis append_Nil)

end

section \<open>The incoming stream\<close>

text \<open>The bytes received and not yet handled.\<close>

definition received :: "client \<Rightarrow> byte list" where
  "received c = take (unat (rcvread c)) (rcvbuf c)"

text \<open>One delivery of bytes, and the frame that is then taken out, if one is complete.\<close>

definition deliver :: "byte list \<Rightarrow> client \<Rightarrow> client" where
  "deliver bs c = note_size (length bs) (store_received bs c)"

definition take_frame :: "client \<Rightarrow> byte list \<times> client" where
  "take_frame c =
     (if frame_complete c then (take (unat (packetsize c)) (rcvbuf c), drop_frame c) else ([], c))"

text \<open>The frame at the head of a stream: a size, that many bytes; at least 6 in all.\<close>

definition next_frame :: "byte list \<Rightarrow> (byte list \<times> byte list) option" where
  "next_frame p =
     (let n = (entry_size p + 2) mod 65536
      in if 2 \<le> length p \<and> 6 \<le> n \<and> n \<le> length p then Some (take n p, drop n p) else None)"

definition room :: "client \<Rightarrow> byte list \<Rightarrow> bool" where
  "room c bs \<longleftrightarrow> length bs + length (received c) \<le> 8192"

lemma length_received: "slot_ok c \<Longrightarrow> length (received c) = unat (rcvread c)"
  by (simp add: received_def slot_ok_def)

lemma deliver_ok: "slot_ok c \<Longrightarrow> room c bs \<Longrightarrow> slot_ok (deliver bs c)"
  unfolding deliver_def room_def using received_ok(1) length_received by simp

lemma deliver_received:
  assumes "slot_ok c" "room c bs"
  shows "received (deliver bs c) = received c @ bs"
proof -
  let ?k = "unat (rcvread c)"
  have k: "length bs + ?k \<le> 8192" using assms length_received by (simp add: room_def)
  have len: "length (rcvbuf c) = 8192" using assms(1) by (simp add: slot_ok_def)
  have "rcvbuf (deliver bs c) = overwrite ?k bs (rcvbuf c)"
    by (simp add: deliver_def note_size_def store_received_def Let_def)
  moreover have "unat (rcvread (deliver bs c)) = ?k + length bs"
    unfolding deliver_def by (rule received_ok(3) [OF assms(1) k])
  ultimately show ?thesis using k len by (simp add: received_def overwrite_def)
qed

text \<open>After a delivery the size that is remembered is the one at the head of the stream.\<close>

lemma deliver_size:
  assumes "slot_ok c" "room c bs"
  shows "frame_complete (deliver bs c) \<longleftrightarrow> next_frame (received (deliver bs c)) \<noteq> None"
    and "next_frame (received (deliver bs c)) \<noteq> None \<Longrightarrow>
      unat (packetsize (deliver bs c)) = (entry_size (received (deliver bs c)) + 2) mod 65536"
proof -
  let ?d = "deliver bs c"
  have ok: "slot_ok ?d" using deliver_ok [OF assms] .
  then have len: "length (received ?d) = unat (rcvread ?d)" and rb: "length (rcvbuf ?d) = 8192"
    by (simp_all add: length_received slot_ok_def)
  have two: "2 \<le> rcvread ?d \<longleftrightarrow> 2 \<le> unat (rcvread ?d)" by (simp add: word_le_nat_alt)
  have known: "hassize ?d \<and> packetsize ?d = bytes_u16 (take 2 (rcvbuf ?d)) + 2" if "2 \<le> rcvread ?d"
  proof -
    define e where "e = (store_received bs c)\<lparr>rcvread := rcvread (store_received bs c) + word_of_nat (length bs)\<rparr>"
    have d: "?d = (if (hassize e = False \<or> packetsize e = 0) \<and> 2 \<le> rcvread e
         then e\<lparr>packetsize := bytes_u16 (take 2 (rcvbuf e)) + 2, hassize := True\<rparr> else e)"
      by (simp add: deliver_def note_size_def e_def Let_def)
    then show ?thesis
      using that ok by (auto simp: slot_ok_def size_known_def split: if_splits)
  qed
  have head: "take 2 (received ?d) = take 2 (rcvbuf ?d)" if "2 \<le> rcvread ?d"
    using that two by (simp add: received_def min_def)
  have n: "unat (packetsize ?d) = (entry_size (received ?d) + 2) mod 65536" if "2 \<le> rcvread ?d"
    using known [OF that] head [OF that] by (simp add: entry_size_def unat_word_ariths)
  have six: "6 \<le> packetsize ?d \<longleftrightarrow> 6 \<le> unat (packetsize ?d)" by (simp add: word_le_nat_alt)
  show "frame_complete ?d \<longleftrightarrow> next_frame (received ?d) \<noteq> None"
  proof (cases "2 \<le> rcvread ?d")
    case True
    then show ?thesis
      using known [OF True] n [OF True, symmetric] len two six
      by (simp add: frame_complete_def next_frame_def Let_def unat_ucast_u32 conj_commute
          word_le_nat_alt [of "ucast (bytes_u16 (take 2 (rcvbuf ?d)) + 2)"])
  next
    case False
    then have "hassize ?d \<longrightarrow> packetsize ?d = 0" using ok by (simp add: slot_ok_def size_known_def)
    then have "\<not> frame_complete ?d" by (auto simp: frame_complete_def)
    moreover have "next_frame (received ?d) = None"
      using False two len by (simp add: next_frame_def Let_def)
    ultimately show ?thesis by simp
  qed
  show "unat (packetsize ?d) = (entry_size (received ?d) + 2) mod 65536"
    if "next_frame (received ?d) \<noteq> None"
  proof -
    have "2 \<le> length (received ?d)" using that by (auto simp: next_frame_def Let_def split: if_splits)
    then show ?thesis using n two len by simp
  qed
qed

lemma drop_frame_received:
  assumes "slot_ok c" "unat (packetsize c) \<le> unat (rcvread c)"
  shows "received (drop_frame c) = drop (unat (packetsize c)) (received c)"
    and "take (unat (packetsize c)) (rcvbuf c) = take (unat (packetsize c)) (received c)"
proof -
  let ?n = "unat (packetsize c)" and ?r = "unat (rcvread c)"
  have len: "length (rcvbuf c) = 8192" "?r \<le> 8192" using assms(1) by (simp_all add: slot_ok_def)
  have "ucast (packetsize c) \<le> rcvread c" using assms(2) by (simp add: word_le_nat_alt unat_ucast_u32)
  then have r: "unat (rcvread c - ucast (packetsize c)) = ?r - ?n" by (simp add: unat_sub unat_ucast_u32)
  have "received (drop_frame c) =
      take (?r - ?n) (overwrite 0 (block ?n (8192 - ?n) (rcvbuf c)) (rcvbuf c))"
    by (simp add: received_def drop_frame_def Let_def r)
  also have "\<dots> = take (?r - ?n) (drop ?n (rcvbuf c))"
    using len assms(2) by (simp add: overwrite_def block_def)
  also have "\<dots> = drop ?n (received c)" by (simp add: received_def drop_take)
  finally show "received (drop_frame c) = drop ?n (received c)" .
  show "take ?n (rcvbuf c) = take ?n (received c)" using assms(2) by (simp add: received_def min_def)
qed

text \<open>The slot after a delivery and the attempt to take a frame, in terms of the stream.\<close>

definition recv_step :: "byte list \<Rightarrow> client \<Rightarrow> byte list option \<times> client" where
  "recv_step bs c =
     (let d = deliver bs c in
      if frame_complete d then (Some (take (unat (packetsize d)) (rcvbuf d)), drop_frame d) else (None, d))"

lemma recv_step_stream:
  assumes "slot_ok c" "room c bs"
  shows "slot_ok (snd (recv_step bs c))"
    and "next_frame (received c @ bs) = Some (f, rest) \<Longrightarrow>
      fst (recv_step bs c) = Some f \<and> received (snd (recv_step bs c)) = rest"
    and "next_frame (received c @ bs) = None \<Longrightarrow>
      fst (recv_step bs c) = None \<and> received (snd (recv_step bs c)) = received c @ bs"
proof -
  let ?d = "deliver bs c"
  have ok: "slot_ok ?d" using deliver_ok [OF assms] .
  have r: "received ?d = received c @ bs" using deliver_received [OF assms] .
  show "slot_ok (snd (recv_step bs c))"
  proof (cases "frame_complete ?d")
    case True
    then show ?thesis
      using ok drop_frame_ok [OF ok] frame_complete_fits [OF ok]
      by (simp add: recv_step_def Let_def frame_fits_def)
  qed (simp add: recv_step_def Let_def ok)
  show "fst (recv_step bs c) = None \<and> received (snd (recv_step bs c)) = received c @ bs"
    if "next_frame (received c @ bs) = None"
    using that deliver_size(1) [OF assms] r by (simp add: recv_step_def Let_def)
  show "fst (recv_step bs c) = Some f \<and> received (snd (recv_step bs c)) = rest"
    if nf: "next_frame (received c @ bs) = Some (f, rest)"
  proof -
    have fc: "frame_complete ?d" using nf deliver_size(1) [OF assms] r by simp
    have n: "unat (packetsize ?d) = (entry_size (received ?d) + 2) mod 65536"
      using nf deliver_size(2) [OF assms] r by simp
    have "unat (packetsize ?d) \<le> unat (rcvread ?d)"
      using frame_complete_fits [OF ok fc] by (simp add: frame_fits_def)
    note d = drop_frame_received [OF ok this]
    have "f = take (unat (packetsize ?d)) (received ?d)" "rest = drop (unat (packetsize ?d)) (received ?d)"
      using nf n r by (auto simp: next_frame_def Let_def split: if_splits)
    then show ?thesis using fc d by (simp add: recv_step_def Let_def)
  qed
qed

section \<open>Frames do not depend on the chunks\<close>

fun deliveries :: "byte list list \<Rightarrow> client \<Rightarrow> byte list list \<times> client" where
  "deliveries [] c = ([], c)"
| "deliveries (bs # bss) c =
     (let (f, d) = recv_step bs c; (fs, e) = deliveries bss d
      in (case f of None \<Rightarrow> fs | Some x \<Rightarrow> x # fs, e))"

fun rooms :: "byte list list \<Rightarrow> client \<Rightarrow> bool" where
  "rooms [] c \<longleftrightarrow> True"
| "rooms (bs # bss) c \<longleftrightarrow> room c bs \<and> rooms bss (snd (recv_step bs c))"

text \<open>All complete frames of a stream, and what is left behind them.\<close>

function split_frames :: "byte list \<Rightarrow> byte list list \<times> byte list" where
  "split_frames p =
     (case next_frame p of None \<Rightarrow> ([], p)
      | Some (f, rest) \<Rightarrow> (let (fs, r) = split_frames rest in (f # fs, r)))"
  by pat_completeness auto
termination
proof (relation "measure length")
  fix p x f rest assume "next_frame p = Some x" "(f, rest) = x"
  then show "(rest, p) \<in> measure length"
    by (auto simp: next_frame_def Let_def split: if_splits)
qed simp

declare split_frames.simps [simp del]

lemma next_frame_append:
  assumes "next_frame p = Some (f, rest)"
  shows "next_frame (p @ q) = Some (f, rest @ q)"
proof -
  have "2 \<le> length p" using assms by (auto simp: next_frame_def Let_def split: if_splits)
  then have "entry_size (p @ q) = entry_size p" by (simp add: entry_size_def)
  then show ?thesis using assms by (auto simp: next_frame_def Let_def split: if_splits)
qed

text \<open>Frames that are complete are complete whatever follows.\<close>

lemma split_frames_append:
  "split_frames (p @ q) =
    (let (fs, r) = split_frames p; (gs, t) = split_frames (r @ q) in (fs @ gs, t))"
proof (induction p rule: split_frames.induct)
  case (1 p)
  show ?case
  proof (cases "next_frame p")
    case None
    then show ?thesis by (simp add: split_frames.simps [of p] case_prod_beta Let_def)
  next
    case (Some fr)
    obtain f rest where fr: "fr = (f, rest)" by (cases fr)
    then show ?thesis
      using "1.IH" [OF Some fr [symmetric]] next_frame_append [of p f rest q] Some
      by (simp add: split_frames.simps [of p] split_frames.simps [of "p @ q"] case_prod_beta Let_def)
  qed
qed

lemma deliveries_frames:
  assumes "slot_ok c" "rooms bss c" "deliveries bss c = (fs, d)"
  shows "slot_ok d \<and>
    fs @ fst (split_frames (received d)) = fst (split_frames (received c @ concat bss)) \<and>
    snd (split_frames (received d)) = snd (split_frames (received c @ concat bss))"
  using assms
proof (induction bss arbitrary: c fs)
  case (Cons bs bss)
  let ?s = "recv_step bs c"
  define gs where "gs = fst (deliveries bss (snd ?s))"
  have gs: "deliveries bss (snd ?s) = (gs, d)"
    and fs: "fs = (case fst ?s of None \<Rightarrow> gs | Some x \<Rightarrow> x # gs)"
    using Cons.prems(3) unfolding gs_def by (simp_all add: case_prod_beta Let_def prod_eq_iff)
  have room: "room c bs" "rooms bss (snd ?s)" using Cons.prems(2) by simp_all
  note st = recv_step_stream [OF Cons.prems(1) room(1)]
  note IH = Cons.IH [OF st(1) room(2) gs]
  show ?case
  proof (cases "next_frame (received c @ bs)")
    case None
    then show ?thesis using IH st(3) fs by simp
  next
    case (Some fr)
    obtain f rest where fr: "fr = (f, rest)" by (cases fr)
    have "next_frame (received c @ bs @ concat bss) = Some (f, rest @ concat bss)"
      using next_frame_append [of "received c @ bs" f rest "concat bss"] Some fr by simp
    then have "split_frames (received c @ bs @ concat bss) =
        (f # fst (split_frames (rest @ concat bss)), snd (split_frames (rest @ concat bss)))"
      by (subst split_frames.simps) (simp add: case_prod_beta Let_def)
    then show ?thesis using IH st(2) [of f rest] Some fr fs by simp
  qed
qed simp

section \<open>Both directions are queues\<close>

lemma take_frame_ok: "slot_ok c \<Longrightarrow> slot_ok (snd (take_frame c))"
  using frame_complete_fits [of c] drop_frame_ok [of c] by (simp add: take_frame_def frame_fits_def)

lemma take_frame_received:
  "slot_ok c \<Longrightarrow> fst (take_frame c) @ received (snd (take_frame c)) = received c"
  using frame_complete_fits [of c] drop_frame_received [of c]
  by (simp add: take_frame_def frame_fits_def)

interpretation incoming: byte_queue deliver "\<lambda>bs. bs" "\<lambda>_. take_frame" received slot_ok room "\<lambda>_ _. True"
  by unfold_locales (simp_all add: deliver_ok deliver_received take_frame_ok take_frame_received)

text \<open>
  What a slot has still to put on the wire: the rest of the frame it is sending, then the frames of
  its queue. \<open>transmit\<close> is \<open>Server_Send\<close> together with the bytes the socket took.
\<close>

definition frame_bytes :: "byte list \<Rightarrow> byte list" where
  "frame_bytes e = take (entry_size e + 2) e"

definition unsent :: "client \<Rightarrow> byte list" where
  "unsent c = take (nat (snddata c)) (sndbuf c) @ concat (map frame_bytes (sendQueue c))"

definition has_output :: "client \<Rightarrow> bool" where
  "has_output c \<longleftrightarrow> 0 < snddata c \<or> sendQueue c \<noteq> []"

definition transmit :: "send_result \<Rightarrow> client \<Rightarrow> byte list \<times> client" where
  "transmit r c =
     (case Server_Send r c of
        Inl e \<Rightarrow> ([], c)
      | Inr (b, d) \<Rightarrow>
          (case r of Sent n \<Rightarrow> if has_output c then take n (sndbuf (fetch_frame c)) else [] | _ \<Rightarrow> [], d))"

definition socket_takes :: "client \<Rightarrow> send_result \<Rightarrow> bool" where
  "socket_takes c r \<longleftrightarrow> (case r of Sent n \<Rightarrow> n \<le> max_send (fetch_frame c) | _ \<Rightarrow> True)"

definition enqueue :: "byte list \<Rightarrow> client \<Rightarrow> client" where
  "enqueue e c = c\<lparr>sendQueue := sendQueue c @ [e]\<rparr>"

lemma unsent_Disconnect [simp]: "unsent (Disconnect c) = unsent c"
  by (simp add: unsent_def Disconnect_def)

lemma fetch_frame_unsent:
  assumes "slot_ok c" "has_output c"
  shows "unsent (fetch_frame c) = unsent c"
proof (cases "snddata c \<le> 0")
  case True
  then obtain e q where q: "sendQueue c = e # q" using assms(2) by (cases "sendQueue c") (auto simp: has_output_def)
  then have "queued e" using assms(1) by (simp add: slot_ok_def)
  then have "sint (bytes_u16 (take 2 e)) = int (entry_size e)"
    using sint_small [of "bytes_u16 (take 2 e)"] by (simp add: entry_size_def queued_def)
  then show ?thesis using True q
    by (simp add: unsent_def fetch_frame_def GetFromSendQueue_def frame_bytes_def nat_add_distrib)
qed (simp add: fetch_frame_def)

lemma sent_unsent:
  assumes "slot_ok c" "0 < snddata c" "n \<le> max_send c" "sent n c = Inr d"
  shows "take n (sndbuf c) @ unsent d = unsent c"
proof -
  define s where "s = nat (snddata c)"
  have len: "length (sndbuf c) = 8192" "s \<le> 8178" "snddata c = int s" "n \<le> s"
    using assms(1-3) by (auto simp: slot_ok_def s_def max_send_def split: if_splits)
  have cut: "take n b @ take (s - n) (overwrite 0 (block n (s - n) b) b) = take s b"
    if "length b = 8192" for b :: "byte list"
    using that len(2,4) by (simp add: overwrite_def block_def flip: take_add)
  show ?thesis
  proof (cases "n < s")
    case True
    then have "nat (int s - int n) = s - n" by simp
    then show ?thesis
      using assms(4) True len cut [of "sndbuf c"]
      by (auto simp: sent_def unsent_def Let_def split: if_splits)
  next
    case False
    then have "n = s" using len(4) by simp
    then show ?thesis using assms(4) len by (auto simp: sent_def unsent_def Let_def split: if_splits)
  qed
qed

lemma Server_Send_busy:
  assumes "has_output c"
  shows "Server_Send r c = (case r of
      SendError \<Rightarrow> Inr (False, Disconnect (fetch_frame c))
    | SendWouldBlock \<Rightarrow> Inr (True, fetch_frame c)
    | Sent n \<Rightarrow> (case sent n (fetch_frame c) of Inl e \<Rightarrow> Inl e | Inr c2 \<Rightarrow> Inr (True, c2)))"
  using assms by (auto simp: Server_Send_def MessagesInSendQueue_def Let_def has_output_def)

lemma Server_Send_idle: "\<not> has_output c \<Longrightarrow> Server_Send r c = Inr (True, c)"
  by (simp add: Server_Send_def MessagesInSendQueue_def has_output_def)

lemma transmit_ok:
  assumes "slot_ok c" "socket_takes c r"
  shows "slot_ok (snd (transmit r c))"
proof -
  have "n \<le> max_send (fetch_frame c)" if "r = Sent n" for n
    using that assms(2) by (simp add: socket_takes_def)
  from Server_Send_ok [of c r, OF assms(1) this] show ?thesis by (auto simp: transmit_def)
qed

lemma transmit_unsent:
  assumes "slot_ok c" "socket_takes c r"
  shows "fst (transmit r c) @ unsent (snd (transmit r c)) = unsent c"
proof (cases "has_output c")
  case False
  then show ?thesis by (cases r) (simp_all add: transmit_def Server_Send_idle)
next
  case True
  have f: "slot_ok (fetch_frame c)" "0 < snddata (fetch_frame c)"
    using fetch_frame_ok [OF assms(1)] True by (simp_all add: has_output_def)
  note u = fetch_frame_unsent [OF assms(1) True]
  show ?thesis
  proof (cases r)
    case (Sent n)
    then have n: "n \<le> max_send (fetch_frame c)" using assms(2) by (simp add: socket_takes_def)
    obtain d where d: "sent n (fetch_frame c) = Inr d" using sent_ok [OF f n] by blast
    then show ?thesis
      using sent_unsent [OF f n d] u Sent True by (simp add: transmit_def Server_Send_busy)
  qed (simp_all add: transmit_def Server_Send_busy True u)
qed

interpretation outgoing: byte_queue enqueue frame_bytes transmit unsent slot_ok "\<lambda>_. queued" socket_takes
  by unfold_locales
    (simp_all add: enqueue_def slot_ok_queue transmit_ok transmit_unsent, simp add: unsent_def)

end
