(* ===== verification/Invariants.thy ===== *)
theory Invariants
  imports Slots
begin

text \<open>
  The invariant of the running server: the connection table is consistent, every slot is
  well-formed, no two authenticated connections hold the same key, and the database object exists.
  Every handler, the dispatcher, and one round of the loop keep it; so it holds in every state the
  started server reaches.
\<close>

section \<open>The invariant\<close>

definition peer_key :: "client \<Rightarrow> byte list \<times> byte list" where
  "peer_key c = (iv c, key c)"

definition keys_distinct :: "client list \<Rightarrow> bool" where
  "keys_distinct cs \<longleftrightarrow>
     (\<forall>i < length cs. \<forall>j < length cs. i \<noteq> j \<longrightarrow> isAuth (cs ! i) \<longrightarrow> isAuth (cs ! j) \<longrightarrow>
        peer_key (cs ! i) \<noteq> peer_key (cs ! j))"

definition server_ok :: "'d server \<Rightarrow> bool" where
  "server_ok s \<longleftrightarrow>
     table_ok s \<and> list_all slot_ok (connections s) \<and> keys_distinct (connections s) \<and> db s \<noteq> None"

lemma server_ok_slot: "server_ok s \<Longrightarrow> k < length (connections s) \<Longrightarrow> slot_ok (connections s ! k)"
  by (simp add: server_ok_def list_all_length)

text \<open>A change of the slots that leaves every peer what it was.\<close>

definition same_peers :: "client list \<Rightarrow> client list \<Rightarrow> bool" where
  "same_peers cs ds \<longleftrightarrow> list_all2 same_peer cs ds"

lemma same_peers_refl [simp]: "same_peers cs cs"
  by (simp add: same_peers_def list_all2_refl)

lemma same_peers_update: "same_peer (cs ! k) c \<Longrightarrow> same_peers cs (cs[k := c])"
  by (cases "k < length cs") (auto simp: same_peers_def list_all2_conv_all_nth nth_list_update)

lemma same_peers_trans: "same_peers a b \<Longrightarrow> same_peers b c \<Longrightarrow> same_peers a c"
  unfolding same_peers_def by (rule list_all2_trans [OF same_peer_trans])

definition same_table :: "'d server \<Rightarrow> 'd server \<Rightarrow> bool" where
  "same_table s t \<longleftrightarrow>
     serverConnections t = serverConnections s \<and> serverNumConnections t = serverNumConnections s"

lemma server_ok_change:
  assumes "server_ok s" "same_table s t" "same_peers (connections s) (connections t)"
    and "list_all slot_ok (connections t)" "db t \<noteq> None"
  shows "server_ok t"
proof -
  have len: "length (connections t) = length (connections s)"
    and peer: "\<And>i. i < length (connections s) \<Longrightarrow> same_peer (connections s ! i) (connections t ! i)"
    using assms(3) by (auto simp: same_peers_def list_all2_conv_all_nth)
  have "table_ok t"
    using assms(1,2) len peer
    by (intro table_ok_cong [of s t]) (auto simp: server_ok_def same_table_def same_peer_def)
  moreover have "keys_distinct (connections t)"
    using assms(1) peer by (auto simp: server_ok_def keys_distinct_def len same_peer_def peer_key_def)
  ultimately show ?thesis using assms(4,5) by (simp add: server_ok_def)
qed

lemma server_ok_slot_change:
  assumes "server_ok s" "k < length (connections s)"
    and "slot_ok c" "same_peer (connections s ! k) c"
  shows "server_ok (s\<lparr>connections := (connections s)[k := c]\<rparr>)"
proof (rule server_ok_change [OF assms(1)])
  show "list_all slot_ok (connections (s\<lparr>connections := (connections s)[k := c]\<rparr>))"
    using assms by (auto simp: server_ok_def list_all_length nth_list_update)
qed (use assms in \<open>simp_all add: same_table_def same_peers_update server_ok_def\<close>)

text \<open>What handling a packet establishes: the invariant, and the links are what they were.\<close>

definition same_links :: "client list \<Rightarrow> client list \<Rightarrow> bool" where
  "same_links cs ds \<longleftrightarrow> list_all2 same_link cs ds"

lemma same_links_refl [simp]: "same_links cs cs"
  by (simp add: same_links_def list_all2_refl)

lemma same_links_update: "same_link (cs ! k) c \<Longrightarrow> same_links cs (cs[k := c])"
  by (cases "k < length cs") (auto simp: same_links_def list_all2_conv_all_nth nth_list_update)

lemma same_links_trans: "same_links a b \<Longrightarrow> same_links b c \<Longrightarrow> same_links a c"
  unfolding same_links_def by (rule list_all2_trans [OF same_link_trans])

lemma same_links_length: "same_links cs ds \<Longrightarrow> length ds = length cs"
  by (simp add: same_links_def list_all2_lengthD)

lemma same_links_nth: "same_links cs ds \<Longrightarrow> k < length cs \<Longrightarrow> same_link (cs ! k) (ds ! k)"
  by (simp add: same_links_def list_all2_nthD)

definition stays_ok :: "'d server \<Rightarrow> 'd server \<Rightarrow> bool" where
  "stays_ok s t \<longleftrightarrow> server_ok t \<and> same_links (connections s) (connections t)"

lemma stays_ok_refl: "server_ok s \<Longrightarrow> stays_ok s s"
  by (simp add: stays_ok_def)

lemma stays_ok_trans: "stays_ok s t \<Longrightarrow> stays_ok t u \<Longrightarrow> stays_ok s u"
  unfolding stays_ok_def using same_links_trans by blast

lemma stays_ok_length: "stays_ok s t \<Longrightarrow> length (connections t) = length (connections s)"
  by (simp add: stays_ok_def same_links_length)

lemma stays_ok_slot_change:
  assumes "server_ok s" "k < length (connections s)" "slot_ok c"
    and "same_peer (connections s ! k) c" "same_link (connections s ! k) c"
  shows "stays_ok s (s\<lparr>connections := (connections s)[k := c]\<rparr>)"
  using server_ok_slot_change [OF assms(1-4)] assms(5) by (simp add: stays_ok_def same_links_update)

section \<open>Broadcasts and replies\<close>

lemma send_each_ok:
  assumes "send_each p cs = Inr (q, ds)" "wf_packet p" "list_all slot_ok cs"
  shows "wf_packet q \<and> list_all slot_ok ds \<and> same_peers cs ds \<and> same_links cs ds"
  using assms
proof (induction cs arbitrary: p q ds)
  case (Cons c cs)
  show ?case
  proof (cases "0 \<le> ClientSocket c")
    case True
    then obtain p1 c1 ds1 where r: "Send_packet p c = Inr (p1, c1)" "send_each p1 cs = Inr (q, ds1)"
      "ds = c1 # ds1"
      using Cons.prems(1) by (auto split: sum.splits)
    have c: "slot_ok c" using Cons.prems(3) by simp
    note d = Send_packet_ok [OF r(1) Cons.prems(2) c]
    show ?thesis using Cons.IH [OF r(2) d(1)] Cons.prems(3) d r(3)
      by (simp add: same_peers_def same_links_def)
  next
    case False
    then obtain ds1 where r: "send_each p cs = Inr (q, ds1)" "ds = c # ds1"
      using Cons.prems(1) by (auto split: sum.splits)
    show ?thesis using Cons.IH [OF r(1) Cons.prems(2)] Cons.prems(3) r(2)
      by (simp add: same_peers_def same_links_def)
  qed
qed (simp add: same_peers_def same_links_def)

lemma SendToAll_ok:
  assumes "SendToAll k s = Inr t" "server_ok s" "k < length (connections s)"
  shows "stays_ok s t"
proof -
  obtain q ds where r: "send_each (outbuf (connections s ! k)) (connections s) = Inr (q, ds)"
    and t: "t = s\<lparr>connections := ds[k := (ds ! k)\<lparr>outbuf := q\<rparr>]\<rparr>"
    using assms(1) by (auto simp: SendToAll_def split: sum.splits)
  have "wf_packet (outbuf (connections s ! k))"
    using server_ok_slot [OF assms(2,3)] by (simp add: slot_ok_def)
  then have d: "wf_packet q" "list_all slot_ok ds" "same_peers (connections s) ds"
    "same_links (connections s) ds"
    using send_each_ok [OF r] assms(2) by (simp_all add: server_ok_def)
  then have len: "length ds = length (connections s)"
    by (simp add: same_peers_def list_all2_lengthD)
  let ?c = "(ds ! k)\<lparr>outbuf := q\<rparr>"
  have "same_peer (ds ! k) ?c" by (simp add: same_peer_def)
  then have "same_peers (connections s) (connections t)"
    using d(3) same_peers_trans same_peers_update by (fastforce simp: t)
  moreover have "list_all slot_ok (connections t)"
    using d(1,2) assms(3) len slot_ok_outbuf [of "ds ! k" q]
    by (auto simp: t list_all_length nth_list_update)
  ultimately have "server_ok t"
    using assms(2) by (intro server_ok_change [OF assms(2)]) (simp_all add: t same_table_def server_ok_def)
  moreover have "same_link (ds ! k) ?c" by (simp add: same_link_def)
  then have "same_links (connections s) (connections t)"
    using d(4) same_links_trans same_links_update by (fastforce simp: t)
  ultimately show ?thesis by (simp add: stays_ok_def)
qed

lemma Send_slot_ok:
  assumes "Send_slot k s = Inr t" "server_ok s" "k < length (connections s)"
  shows "stays_ok s t"
proof -
  obtain c where r: "Send_out (connections s ! k) = Inr c" "t = s\<lparr>connections := (connections s)[k := c]\<rparr>"
    using assms(1) by (auto simp: Send_slot_def split: sum.splits)
  note c = Send_out_ok [OF r(1) server_ok_slot [OF assms(2,3)]]
  show ?thesis unfolding r(2) using assms(2,3) c by (rule stays_ok_slot_change)
qed

section \<open>Handlers\<close>

text \<open>
  What a handler may leave behind, in terms of the server: the slot of its client with the same
  peer, or, for \<open>ServerAuth\<close>, with a key that no connection had.
\<close>

definition handled :: "nat \<Rightarrow> 'd server \<Rightarrow> 'd server \<Rightarrow> bool" where
  "handled k s t \<longleftrightarrow>
     (\<exists>c d. t = s\<lparr>connections := (connections s)[k := c], db := Some d\<rparr> \<and> slot_ok c \<and>
        same_link (connections s ! k) c \<and>
        (same_peer (connections s ! k) c \<or>
         (\<forall>o' \<in> set (connections s). peer_key o' \<noteq> peer_key c)))"

lemma handled_ok:
  assumes "handled k s t" "server_ok s" "k < length (connections s)"
  shows "stays_ok s t"
proof -
  obtain c d where t: "t = s\<lparr>connections := (connections s)[k := c], db := Some d\<rparr>"
    and c: "slot_ok c" "same_link (connections s ! k) c"
    and or: "same_peer (connections s ! k) c \<or> (\<forall>o' \<in> set (connections s). peer_key o' \<noteq> peer_key c)"
    using assms(1) unfolding handled_def by blast
  have "table_ok t"
    using assms(2,3) c(2)
    by (intro table_ok_cong [of s t]) (auto simp: server_ok_def t nth_list_update same_link_def)
  moreover have "list_all slot_ok (connections t)"
    using assms(2) c(1) assms(3) by (auto simp: t server_ok_def list_all_length nth_list_update)
  moreover have "keys_distinct (connections t)"
  proof (cases "same_peer (connections s ! k) c")
    case True
    then show ?thesis
      using assms(2,3)
      by (auto simp: t server_ok_def keys_distinct_def nth_list_update same_peer_def peer_key_def)
  next
    case False
    with or have "\<And>i. i < length (connections s) \<Longrightarrow> peer_key (connections s ! i) \<noteq> peer_key c"
      by auto
    then show ?thesis
      using assms(2,3)
      by (auto simp: t server_ok_def keys_distinct_def nth_list_update) metis
  qed
  ultimately show ?thesis using c(2) by (simp add: stays_ok_def server_ok_def t same_links_update)
qed

text \<open>A handler that keeps \<open>handler_inv\<close> changes the packets of its slot only.\<close>

lemma slot_ok_handler:
  assumes "slot_ok c" "handler_inv c s"
  shows "slot_ok (cl s) \<and> same_peer c (cl s) \<and> same_link c (cl s)"
proof -
  have f: "same_slot c (cl s)" and req: "same_request (inbuf c) (inbuf (cl s))"
    and wf: "wf_packet (inbuf (cl s))" "wf_packet (outbuf (cl s))"
    using assms(2) by (simp_all add: handler_inv_def)
  note same = same_slot_fields [OF f]
  show ?thesis
    using assms(1) wf req
    by (simp add: slot_ok_def same_peer_def same_link_def size_known_def slot_used_def same
        same_request_def getSizeFromBuffer_def)
qed

lemma run_handler_handled:
  assumes "keeps (handler_inv (connections s ! k)) h" "run_handler k h s = Inr (a, t)"
    and "slot_ok (connections s ! k)"
  shows "handled k s t"
proof -
  let ?c = "connections s ! k"
  obtain d u where d: "db s = Some d" and u: "h \<lparr>cl = ?c, sdb = d\<rparr> = Inr (a, u)"
    and t: "t = s\<lparr>connections := (connections s)[k := cl u], db := Some (sdb u)\<rparr>"
    using assms(2) by (auto simp: run_handler_def split: option.splits sum.splits prod.splits)
  have "handler_inv ?c \<lparr>cl = ?c, sdb = d\<rparr>"
    using assms(3) by (intro handler_inv_start) (simp_all add: slot_ok_def)
  then have "handler_inv ?c u" using keepsD [OF assms(1) _ u] by blast
  then have "slot_ok (cl u)" "same_peer ?c (cl u)" "same_link ?c (cl u)"
    using slot_ok_handler [OF assms(3)] by blast+
  then show ?thesis unfolding handled_def t by blast
qed

section \<open>Authentication\<close>

text \<open>What \<open>ServerAuth\<close> may do to the slot \<open>c\<close>, seen from the connections \<open>conns\<close>.\<close>

definition auth_change :: "client list \<Rightarrow> client \<Rightarrow> client \<Rightarrow> bool" where
  "auth_change conns c d \<longleftrightarrow>
     slot_ok d \<and> same_link c d \<and>
     (same_peer c d \<or> (\<forall>o' \<in> set conns. peer_key o' \<noteq> peer_key d))"

lemma auth_change_refl: "slot_ok c \<Longrightarrow> auth_change conns c c"
  by (simp add: auth_change_def)

lemma already_connected_False:
  assumes "already_connected v k conns = Inr False" "o' \<in> set conns"
    and "c_str_mem BLOCK_SIZE v = Inr vm" "c_str_mem KEY_SIZE k = Inr km"
  shows "\<not> (take BLOCK_SIZE (iv o') = vm \<and> take KEY_SIZE (key o') = km)"
  using assms by (induction conns) (auto split: if_splits)

lemma c_str_mem_length: "c_str_mem n v = Inr bs \<Longrightarrow> length bs = n"
  by (auto simp: c_str_mem_def min_def split: if_splits)

lemma on_db_run: "on_db m s = Inr (x, t) \<Longrightarrow> cl t = cl s"
  by (auto simp: on_db_def split: sum.splits)

lemma db_close_run: "db_close E s = Inr (x, t) \<Longrightarrow> cl t = cl s"
  unfolding db_close_def by (rule on_db_run)

lemma db_open_run: "db_open E s = Inr (x, t) \<Longrightarrow> cl t = cl s"
  unfolding db_open_def by (rule on_db_run)

lemma db_exec_run: "db_exec E q s = Inr (x, t) \<Longrightarrow> cl t = cl s"
  unfolding db_exec_def by (rule on_db_run)

lemma lift_result: "lift r s = Inr (x, t) \<longleftrightarrow> r = Inr x \<and> t = s"
  by (auto simp: lift_def split: sum.splits)

lemma slot_ok_with_key:
  assumes "slot_ok c" "slot_used c" "length vm = 16" "length km = 32"
  shows "slot_ok (SetAuth (c\<lparr>iv := overwrite 0 vm (iv c), key := overwrite 0 km (key c)\<rparr>))"
  using assms by (simp add: slot_ok_def size_known_def slot_used_def SetAuth_def)

lemma overwrite_all: "length ys = length xs \<Longrightarrow> overwrite 0 ys xs = ys"
  by (simp add: overwrite_def)

lemma sendAuth_ok:
  assumes "sendAuth r c = Inr d" "slot_ok c"
  shows "slot_ok d" "same_peer c d" "same_link c d"
proof -
  let ?p = "snd (appendString_as ''Tofuman'' 0x10 (append_u32 (r div 8) (append_u32 r
    (setOffset 6 (setSize 6 (setSubType 0 (setType 0 (clearBuffer (outbuf c)))))))))"
  have so: "Send_out (c\<lparr>outbuf := ?p\<rparr>) = Inr d" using assms(1) by (simp add: sendAuth_def Let_def)
  have "wf_packet ?p" by (intro wf_appendString wf_appends wf_cursor wf_setType wf_clear)
  then have "slot_ok (c\<lparr>outbuf := ?p\<rparr>)" using assms(2) by (intro slot_ok_outbuf)
  note d = Send_out_ok [OF so this]
  show "slot_ok d" by (rule d(1))
  show "same_peer c d" "same_link c d" using d(2,3) by (simp_all add: same_peer_def same_link_def)
qed

lemma accept_key_change:
  assumes "accept_key E conns s = Inr (b, t)" "slot_ok (cl s)" "slot_used (cl s)"
    and "list_all slot_ok conns"
  shows "auth_change conns (cl s) (cl t)"
proof -
  obtain v k g where g: "already_connected v k conns = Inr g"
    and rest: "(if g then stm (steps [on_slot Disconnect, stm (db_close E) (ret ())]) (ret False)
      else bnd (lift (c_str_mem BLOCK_SIZE v)) (\<lambda>vm.
          bnd (lift (c_str_mem KEY_SIZE k)) (\<lambda>km.
          stm (steps
            [on_slot (\<lambda>c. c\<lparr>iv := overwrite 0 vm (iv c)\<rparr>),
             on_slot (\<lambda>c. c\<lparr>key := overwrite 0 km (key c)\<rparr>),
             on_slot SetAuth,
             on_slot_fault (sendAuth (rand_value E))])
          (ret True)))) s = Inr (b, t)"
    using assms(1) by (auto simp: accept_key_def prog_simps lift_result split: sum.splits)
  show ?thesis
  proof (cases g)
    case True
    then have "cl t = Disconnect (cl s)"
      using rest by (auto simp: prog_simps on_slot_def dest!: db_close_run split: sum.splits)
    then show ?thesis using slot_ok_Disconnect [OF assms(2)] by (simp add: auth_change_def Disconnect_def same_peer_def same_link_def)
  next
    case False
    then obtain vm km where m: "c_str_mem BLOCK_SIZE v = Inr vm" "c_str_mem KEY_SIZE k = Inr km"
      and sa: "sendAuth (rand_value E) (SetAuth ((cl s)\<lparr>iv := overwrite 0 vm (iv (cl s)),
        key := overwrite 0 km (key (cl s))\<rparr>)) = Inr (cl t)"
      using rest
      by (auto simp: prog_simps lift_result on_slot_def on_slot_fault_def split: sum.splits)
    have len: "length vm = 16" "length km = 32"
      using c_str_mem_length [OF m(1)] c_str_mem_length [OF m(2)] by (simp_all add: BLOCK_SIZE_def KEY_SIZE_def)
    have full: "iv (cl s) = take 16 (iv (cl s))" "length (iv (cl s)) = 16" "length (key (cl s)) = 32"
      using assms(2) by (simp_all add: slot_ok_def)
    note d = sendAuth_ok [OF sa slot_ok_with_key [OF assms(2,3) len]]
    have pk: "peer_key (cl t) = (vm, km)"
      using d(2) len full by (simp add: peer_key_def same_peer_def SetAuth_def overwrite_all)
    have "peer_key o' \<noteq> (vm, km)" if o': "o' \<in> set conns" for o'
    proof -
      have "slot_ok o'" using assms(4) o' by (simp add: list_all_iff)
      then have "length (iv o') = 16" "length (key o') = 32" by (simp_all add: slot_ok_def)
      then show ?thesis
        using already_connected_False [of v k conns o' vm km] g False o' m
        by (simp add: peer_key_def BLOCK_SIZE_def KEY_SIZE_def)
    qed
    then show ?thesis using d by (simp add: auth_change_def pk same_link_def SetAuth_def)
  qed
qed

lemma key_check_change:
  assumes "key_check E conns s = Inr (x, t)" "slot_ok (cl s)" "slot_used (cl s)"
    and "list_all slot_ok conns"
  shows "auth_change conns (cl s) (cl t)"
proof -
  obtain r s1 ivB where o1: "db_open E s = Inr (r, s1)"
    and rest: "whenP (r = DB_OK)
       (bnd (hex_of (case ivB of None \<Rightarrow> [] | Some b \<Rightarrow> b) 16) (\<lambda>ivStr.
        bnd (db_exec E (key_sql ivStr)) (\<lambda>res.
        bnd (if res \<noteq> 0 then accept_key E conns else stm (on_slot Disconnect) (ret True)) (\<lambda>go.
        whenP go (stm (db_close E) (ret ())))))) s1 = Inr (x, t)"
    using assms(1) by (auto simp: key_check_def prog_simps lift_result split: sum.splits prod.splits)
  have c1: "cl s1 = cl s" using db_open_run [OF o1] .
  show ?thesis
  proof (cases "r = DB_OK")
    case False
    then show ?thesis using rest c1 assms(2) by (simp add: prog_simps auth_change_refl)
  next
    case True
    then obtain q n s2 g s3 where e: "db_exec E q s1 = Inr (n, s2)"
      and a: "(if n \<noteq> 0 then accept_key E conns else stm (on_slot Disconnect) (ret True)) s2 = Inr (g, s3)"
      and w: "whenP g (stm (db_close E) (ret ())) s3 = Inr (x, t)"
      using rest by (auto simp: prog_simps hex_of_def lift_result split: sum.splits prod.splits)
    have c2: "cl s2 = cl s" using db_exec_run [OF e] c1 by simp
    have c3: "cl t = cl s3"
      using w by (auto simp: prog_simps dest!: db_close_run split: if_splits sum.splits)
    show ?thesis
    proof (cases "n \<noteq> 0")
      case True
      then show ?thesis
        using accept_key_change [of E conns s2 g s3] a c2 c3 assms(2-4) by simp
    next
      case False
      then have "cl s3 = Disconnect (cl s)" using a c2 by (auto simp: prog_simps on_slot_def)
      then show ?thesis using c3 slot_ok_Disconnect [OF assms(2)]
        by (simp add: auth_change_def Disconnect_def same_peer_def same_link_def)
    qed
  qed
qed

lemma slot_ok_beat:
  "slot_ok c \<Longrightarrow> slot_ok (c\<lparr>lastHeartBeat := n\<rparr>) \<and> same_peer c (c\<lparr>lastHeartBeat := n\<rparr>)"
  by (simp add: slot_ok_def size_known_def slot_used_def same_peer_def)

lemma ServerAuth_change:
  assumes "ServerAuth E conns s = Inr (a, t)" "slot_ok (cl s)" "slot_used (cl s)"
    and "list_all slot_ok conns"
  shows "auth_change conns (cl s) (cl t) \<and> a = Return"
proof -
  have a: "a = Return"
    using assms(1) by (auto simp: ServerAuth_def Let_def prog_simps split: sum.splits)
  consider (key) x where "key_check E conns s = Inr (x, t)"
    | (beat) "heartbeat_received E s = Inr ((), t)" | (none) "t = s"
    using assms(1)
    by (auto simp: ServerAuth_def Let_def prog_simps split: sum.splits if_splits)
  then show ?thesis
  proof cases
    case key
    then show ?thesis using key_check_change assms(2-4) a by blast
  next
    case beat
    then obtain n where n: "cl t = (cl s)\<lparr>lastHeartBeat := n\<rparr>"
      by (auto simp: heartbeat_received_def on_slot_def prog_simps)
    then have "slot_ok (cl t) \<and> same_peer (cl s) (cl t)"
      using slot_ok_beat [OF assms(2)] by simp
    moreover have "same_link (cl s) (cl t)" using n by (simp add: same_link_def)
    ultimately show ?thesis using a by (simp add: auth_change_def)
  next
    case none
    then show ?thesis using a assms(2) by (simp add: auth_change_refl)
  qed
qed

section \<open>Dispatch\<close>

lemma ServerAuth_handled:
  assumes "run_handler k (ServerAuth E (connections s)) s = Inr (a, t)"
    and "server_ok s" "k < length (connections s)" "slot_used (connections s ! k)"
  shows "handled k s t"
proof -
  let ?c = "connections s ! k"
  obtain d u where u: "ServerAuth E (connections s) \<lparr>cl = ?c, sdb = d\<rparr> = Inr (a, u)"
    and t: "t = s\<lparr>connections := (connections s)[k := cl u], db := Some (sdb u)\<rparr>"
    using assms(1) by (auto simp: run_handler_def split: option.splits sum.splits prod.splits)
  have "auth_change (connections s) ?c (cl u)"
    using ServerAuth_change [OF u] server_ok_slot [OF assms(2,3)] assms(2,4)
    by (simp add: server_ok_def)
  then show ?thesis unfolding handled_def t auth_change_def by blast
qed

lemma finish_ok:
  assumes "finish k r = Inr u" "\<And>a t. r = Inr (a, t) \<Longrightarrow> handled k s t"
    and "server_ok s" "k < length (connections s)"
  shows "stays_ok s u"
proof -
  obtain a t where r: "r = Inr (a, t)" using assms(1) by (auto simp: finish_def split: sum.splits)
  have t: "stays_ok s t" by (rule handled_ok [OF assms(2) [OF r] assms(3,4)])
  then have "server_ok t" "k < length (connections t)"
    using assms(4) stays_ok_length [OF t] by (simp_all add: stays_ok_def)
  then have "stays_ok t u"
    using assms(1) Send_slot_ok [of k t u] SendToAll_ok [of k t u]
    by (cases a) (simp_all add: finish_def r stays_ok_refl)
  with t show ?thesis by (rule stays_ok_trans)
qed

lemma keeps_ServerOperations: "keeps P ServerOperations"
  by (simp add: ServerOperations_def keeps_ret)

lemma MainPacketFunctions_ok:
  assumes "MainPacketFunctions E k n s = Inr t"
    and "server_ok s" "k < length (connections s)" "slot_used (connections s ! k)"
  shows "stays_ok s t"
proof -
  have slot: "slot_ok (connections s ! k)" using assms(2,3) by (rule server_ok_slot)
  have h: "stays_ok s t"
    if f: "finish k (run_handler k h s) = Inr t" and kp: "keeps (handler_inv (connections s ! k)) h" for h
    by (rule finish_ok [OF f run_handler_handled [OF kp _ slot] assms(2,3)])
  consider "n = 0" "finish k (run_handler k (ServerAuth E (connections s)) s) = Inr t"
    | "finish k (run_handler k (ClientAuth E) s) = Inr t"
    | "finish k (run_handler k (ClientRequests E) s) = Inr t" | "t = s"
    | "finish k (run_handler k ClientOperations s) = Inr t"
    | "finish k (run_handler k ServerOperations s) = Inr t"
    using assms(1) unfolding MainPacketFunctions_def by (metis sum.distinct(1) sum.inject(2))
  then show ?thesis
  proof cases
    case 1
    then show ?thesis
      using ServerAuth_handled assms(2-4) by (intro finish_ok [OF 1(2)]) blast+
  qed (use h keeps_ClientAuth keeps_ClientRequests keeps_ClientOperations keeps_ServerOperations
      stays_ok_refl assms(2) in blast)+
qed

text \<open>Decrypting in place with encryption disabled changes nothing, and cannot run out of bounds.\<close>

lemma decrypt_in_place_run:
  assumes "slot_ok c"
  shows "decrypt_in_place c =
    (if isAuth c \<and> unat (pSize (inbuf c)) < 16 then Inr None else Inr (Some c))"
proof (cases "isAuth c")
  case True
  let ?n = "unat (pSize (inbuf c))"
  have n: "?n \<le> 8190" "wf_packet (inbuf c)" using assms by (simp_all add: slot_ok_def)
  then have s: "sint (pSize (inbuf c)) = int ?n" by (intro sint_small) simp
  have d: "Decrypt (drop 2 (buffer (inbuf c))) (int ?n) = Inr (block 2 ?n (buffer (inbuf c)), int ?n)"
    using n by (simp add: Decrypt_def block_def wf_length)
  have "overwrite 2 (block 2 ?n (buffer (inbuf c))) (buffer (inbuf c)) = buffer (inbuf c)"
    using n by (intro Encrypt_in_place(2)) simp_all
  then have id: "c\<lparr>inbuf := setSize (word_of_int (int ?n))
      ((inbuf c)\<lparr>buffer := overwrite 2 (block 2 ?n (buffer (inbuf c))) (buffer (inbuf c))\<rparr>)\<rparr> = c"
    by (simp add: setSize_def)
  have "(int ?n < 16) = (?n < 16)"
    using of_nat_less_iff [where ?'a = int, of ?n 16] by (simp only: of_nat_numeral)
  then show ?thesis using True by (simp only: decrypt_in_place_def s d sum.case prod.case id if_True simp_thms)
qed (simp add: decrypt_in_place_def)

lemma ProcessPacket_run:
  assumes "slot_ok (connections s ! k)"
  shows "ProcessPacket E k s =
    (let c = connections s ! k in
     if todc c \<or> isAuth c \<and> unat (pSize (inbuf c)) < 16 then Inr s
     else if refused c then Inr (s\<lparr>connections := (connections s)[k := Disconnect c]\<rparr>)
     else MainPacketFunctions E k (unat (getType (inbuf c))) s)"
  by (simp add: ProcessPacket_def Let_def decrypt_in_place_run [OF assms])

lemma ProcessPacket_ok:
  assumes "ProcessPacket E k s = Inr t"
    and "server_ok s" "k < length (connections s)" "slot_used (connections s ! k)"
  shows "stays_ok s t"
proof -
  let ?c = "connections s ! k"
  have slot: "slot_ok ?c" using assms(2,3) by (rule server_ok_slot)
  consider "t = s" | "t = s\<lparr>connections := (connections s)[k := Disconnect ?c]\<rparr>"
    | "MainPacketFunctions E k (unat (getType (inbuf ?c))) s = Inr t"
    using assms(1) unfolding ProcessPacket_run [OF slot] Let_def
    by (metis sum.inject(2))
  then show ?thesis
  proof cases
    case 2
    show ?thesis unfolding 2 using assms(2,3) slot_ok_Disconnect [OF slot]
      by (rule stays_ok_slot_change) (simp_all add: same_peer_def same_link_def Disconnect_def)
  next
    case 3
    then show ?thesis using MainPacketFunctions_ok assms(2-4) by blast
  qed (use assms(2) stays_ok_refl in simp)
qed

section \<open>Receiving\<close>

text \<open>
  Loading a complete frame into \<open>inbuf\<close> cannot fail. A frame of the full buffer size is not copied;
  then the request is what the buffer held before.
\<close>

lemma load_packet_ok:
  assumes "slot_ok c" "frame_complete c"
  shows "\<exists>c'. load_packet (ucast (packetsize c)) (take (unat (packetsize c)) (rcvbuf c)) c = Inr c' \<and>
    slot_ok c' \<and> same_peer c c' \<and> same_link c c'"
proof -
  let ?n = "unat (packetsize c)" and ?p = "inbuf c"
  have fits: "6 \<le> ?n" "?n \<le> 8192" "entry_size (rcvbuf c) = ?n - 2"
    and len: "length (rcvbuf c) = 8192" and wf: "wf_packet ?p"
    using frame_complete_fits [OF assms] assms(1) by (simp_all add: frame_fits_def slot_ok_def)
  obtain q where q: "setArray (take ?n (rcvbuf c)) (ucast (packetsize c)) 0 ?p = Inr q"
    and size: "unat (getSizeFromBuffer q) \<le> 8190"
  proof (cases "?n < 8192")
    case True
    let ?q = "?p\<lparr>buffer := overwrite 0 (take ?n (rcvbuf c)) (buffer ?p)\<rparr>"
    have "setArray (take ?n (rcvbuf c)) (ucast (packetsize c)) 0 ?p = Inr ?q"
      using True fits len by (simp add: setArray_def copy_ok_def unat_ucast_u32)
    moreover have "take 2 (overwrite 0 (take ?n (rcvbuf c)) (buffer ?p)) = take 2 (rcvbuf c)"
      using fits len by (simp add: overwrite_def)
    then have "unat (getSizeFromBuffer ?q) = ?n - 2"
      using fits(3) by (simp add: getSizeFromBuffer_def block_def entry_size_def)
    ultimately show ?thesis using that True by simp
  next
    case False
    then have "setArray (take ?n (rcvbuf c)) (ucast (packetsize c)) 0 ?p = Inr ?p"
      by (simp add: setArray_def unat_ucast_u32)
    then show ?thesis using that assms(1) by (simp add: slot_ok_def)
  qed
  let ?c' = "c\<lparr>inbuf := setSize (getSizeFromBuffer q) q\<rparr>"
  have "wf_packet q" using wf_setArray [OF wf q] .
  then have "slot_ok ?c'"
    using assms(1) size
    by (simp add: slot_ok_def size_known_def slot_used_def setSize_def getSizeFromBuffer_def wf_packet_def)
  then show ?thesis using q by (simp add: load_packet_def same_peer_def same_link_def)
qed

lemma slot_used_same: "same_peer c d \<Longrightarrow> slot_used d = slot_used c"
  by (simp add: same_peer_def slot_used_def)

lemma CheckClientPackets_ok:
  assumes "CheckClientPackets E k (ucast (packetsize (connections s ! k)))
      (take (unat (packetsize (connections s ! k))) (rcvbuf (connections s ! k))) s = Inr t"
    and "server_ok s" "k < length (connections s)" "slot_used (connections s ! k)"
    and "frame_complete (connections s ! k)"
  shows "stays_ok s t"
proof -
  let ?c = "connections s ! k"
  have slot: "slot_ok ?c" using assms(2,3) by (rule server_ok_slot)
  obtain c where l: "load_packet (ucast (packetsize ?c)) (take (unat (packetsize ?c)) (rcvbuf ?c)) ?c = Inr c"
    and c: "slot_ok c" "same_peer ?c c" "same_link ?c c"
    using load_packet_ok [OF slot assms(5)] by blast
  let ?s = "s\<lparr>connections := (connections s)[k := c]\<rparr>"
  have s1: "stays_ok s ?s" using assms(2,3) c by (rule stays_ok_slot_change)
  have "6 \<le> (ucast (packetsize ?c) :: u32)"
    using frame_complete_fits [OF slot assms(5)]
    by (simp add: frame_fits_def word_le_nat_alt unat_ucast_u32)
  moreover have "\<not> CLIENT_BUFFER_SIZE < unat (pSize (inbuf c))" using c(1) by (simp add: slot_ok_def)
  ultimately have r: "ProcessPacket E k ?s = Inr t"
    using assms(1) l by (simp add: CheckClientPackets_def)
  have "slot_used (connections ?s ! k)" using c(2) assms(3,4) slot_used_same by simp
  then have "stays_ok ?s t" using ProcessPacket_ok [OF r] s1 assms(3) by (simp add: stays_ok_def)
  with s1 show ?thesis by (rule stays_ok_trans)
qed

text \<open>
  The handler of the frame may change the slot, but not the receive buffer: the frame that is
  dropped afterwards is the one that was handled.
\<close>

lemma ProcessRecv_ok:
  assumes "ProcessRecv E k (length bs)
      (s\<lparr>connections := (connections s)[k := store_received bs (connections s ! k)]\<rparr>) = Inr (b, t)"
    and "server_ok s" "k < length (connections s)" "slot_used (connections s ! k)"
    and "length bs + unat (rcvread (connections s ! k)) \<le> 8192"
  shows "server_ok t \<and> length (connections t) = length (connections s)"
proof -
  let ?c = "connections s ! k"
  define c where "c = note_size (length bs) (store_received bs ?c)"
  let ?s = "s\<lparr>connections := (connections s)[k := c]\<rparr>"
  have slot: "slot_ok ?c" using assms(2,3) by (rule server_ok_slot)
  note r = received_ok [OF slot assms(5), folded c_def]
  have s1: "server_ok ?s" using assms(2,3) r(1,2) by (rule server_ok_slot_change)
  have k: "connections ?s ! k = c" using assms(3) by simp
  have used: "slot_used c" using r(2) assms(4) slot_used_same by simp
  show ?thesis
  proof (cases "frame_complete c")
    case False
    then have "t = ?s" using assms(1,3) by (simp add: ProcessRecv_def Let_def c_def)
    then show ?thesis using s1 by simp
  next
    case True
    have fits: "unat (packetsize c) \<le> unat (rcvread c)" "unat (packetsize c) \<le> 8192"
      using frame_complete_fits [OF r(1) True] r(1) by (simp_all add: frame_fits_def slot_ok_def)
    obtain u where u: "CheckClientPackets E k (ucast (packetsize c)) (take (unat (packetsize c)) (rcvbuf c)) ?s = Inr u"
      and t: "t = u\<lparr>connections := (connections u)[k := drop_frame (connections u ! k)]\<rparr>"
      using assms(1,3) True fits by (auto simp: ProcessRecv_def Let_def c_def [symmetric] split: sum.splits)
    have su: "stays_ok ?s u"
      using CheckClientPackets_ok [of E k ?s u] u s1 assms(3) used True k by simp
    then have len: "length (connections u) = length (connections s)"
      using stays_ok_length by fastforce
    have uk: "slot_ok (connections u ! k)"
      using su assms(3) len by (simp add: server_ok_slot stays_ok_def)
    have "same_link c (connections u ! k)"
      using su assms(3) same_links_nth [of _ "connections u" k] k by (fastforce simp: stays_ok_def)
    then have "unat (packetsize (connections u ! k)) \<le> unat (rcvread (connections u ! k))"
      using fits(1) by (simp add: same_link_def)
    note d = drop_frame_ok [OF uk this]
    have "server_ok t" unfolding t using su assms(3) len d
      by (intro server_ok_slot_change) (simp_all add: stays_ok_def)
    then show ?thesis using len by (simp add: t)
  qed
qed

text \<open>The result of \<open>recv\<close> fits behind what is there already.\<close>

definition recv_ok :: "client \<Rightarrow> recv_result \<Rightarrow> bool" where
  "recv_ok c r \<longleftrightarrow>
     (case r of Received bs _ \<Rightarrow> length bs + unat (rcvread c) \<le> CLIENT_BUFFER_SIZE | _ \<Rightarrow> True)"

lemma Recv_ok:
  assumes "Recv E k r s = Inr (b, t)" "server_ok s" "k < length (connections s)"
    and "slot_used (connections s ! k)" "recv_ok (connections s ! k) r"
  shows "server_ok t \<and> length (connections t) = length (connections s)"
proof (cases r)
  case (Received bs reset)
  show ?thesis
  proof (cases "bs = [] \<and> reset")
    case True
    then show ?thesis using assms(1,2) Received by (simp add: Recv_def Let_def)
  next
    case False
    let ?r = "ProcessRecv E k (length bs)
        (s\<lparr>connections := (connections s)[k := store_received bs (connections s ! k)]\<rparr>)"
    have "(case ?r of Inl e \<Rightarrow> Inl e | Inr (_, s1) \<Rightarrow> Inr (True, s1)) = Inr (b, t)"
      using assms(1) unfolding Recv_def Let_def Received recv_result.case if_not_P [OF False] .
    then obtain b' where p: "?r = Inr (b', t)" by (cases ?r) (auto split: prod.splits)
    show ?thesis
      by (rule ProcessRecv_ok [OF p assms(2-4)]) (use assms(5) Received in \<open>simp add: recv_ok_def\<close>)
  qed
next
  case RecvWouldBlock
  have id: "s\<lparr>connections := (connections s)[k := store_received [] (connections s ! k)]\<rparr> = s" by simp
  have "unat (rcvread (connections s ! k)) \<le> 8192"
    using server_ok_slot [OF assms(2,3)] by (simp add: slot_ok_def)
  then have p: "ProcessRecv E k 0 s = Inr (b', t) \<Longrightarrow>
      server_ok t \<and> length (connections t) = length (connections s)" for b'
    using ProcessRecv_ok [of E k "[]" s b' t] assms(2-4) unfolding id by simp
  show ?thesis
    using assms(1,2) p RecvWouldBlock
    by (auto simp: Recv_def Let_def split: sum.splits if_splits)
next
  case RecvError
  then have t: "t = s\<lparr>connections := (connections s)[k := Disconnect (connections s ! k)]\<rparr>"
    using assms(1) by (simp add: Recv_def Let_def)
  have "server_ok t" unfolding t using assms(2,3) slot_ok_Disconnect [OF server_ok_slot [OF assms(2,3)]]
    by (rule server_ok_slot_change) simp
  then show ?thesis by (simp add: t)
qed

section \<open>One round\<close>

text \<open>The invariant with the number of slots, which never changes.\<close>

definition round_inv :: "nat \<Rightarrow> 'd server \<Rightarrow> bool" where
  "round_inv n s \<longleftrightarrow> server_ok s \<and> length (connections s) = n"

lemma change_slot_inv:
  assumes "round_inv n s" "k < n" "slot_ok (f (connections s ! k))"
    and "same_peer (connections s ! k) (f (connections s ! k))"
    and "change_slot k f s = Inr (x, t)"
  shows "round_inv n t"
proof -
  have "t = s\<lparr>connections := (connections s)[k := f (connections s ! k)]\<rparr>"
    using assms(5) by (simp add: change_slot_def prog_simps)
  then show ?thesis
    using server_ok_slot_change [of s k "f (connections s ! k)"] assms(1-4)
    by (simp add: round_inv_def)
qed

lemma send_part_run:
  assumes "round_inv n s" "k < n" "\<And>m i. os m = Sent i \<Longrightarrow> i \<le> m"
  shows "\<exists>t. send_part k os s = Inr ((), t) \<and> round_inv n t"
proof -
  let ?c = "connections s ! k"
  have slot: "slot_ok ?c" using assms(1,2) by (simp add: round_inv_def server_ok_slot)
  obtain b c where r: "Server_Send (os (max_send (fetch_frame ?c))) ?c = Inr (b, c)"
    and c: "slot_ok c" "same_peer ?c c"
    using Server_Send_ok [OF slot assms(3)] by blast
  let ?d = "if b = False then Disconnect c else c"
  have "slot_ok ?d" "same_peer ?c ?d" using c slot_ok_Disconnect by simp_all
  then have "round_inv n (s\<lparr>connections := (connections s)[k := ?d]\<rparr>)"
    using server_ok_slot_change [of s k ?d] assms(1,2) by (simp add: round_inv_def)
  then show ?thesis
    using r by (simp add: send_part_def slot_def prog_simps change_slot_def)
qed

lemma recv_part_inv:
  assumes "recv_part E k os s = Inr (x, t)" "round_inv n s" "k < n" "slot_used (connections s ! k)"
    and "\<And>m bs r. os m = Received bs r \<Longrightarrow> length bs \<le> m"
  shows "round_inv n t"
proof -
  let ?c = "connections s ! k"
  obtain b u where u: "Recv E k (os (max_read ?c)) s = Inr (b, u)"
    and w: "whenP (b = False) (change_slot k Disconnect) u = Inr (x, t)"
    using assms(1) by (auto simp: recv_part_def bnd_run slot_def gets_run split: sum.splits)
  have "slot_ok ?c" using assms(2,3) by (simp add: round_inv_def server_ok_slot)
  then have "unat (rcvread ?c) \<le> 8192" by (simp add: slot_ok_def)
  then have "recv_ok ?c (os (max_read ?c))"
    using assms(5) [of "max_read ?c"] by (fastforce simp: recv_ok_def max_read_def split: recv_result.splits)
  then have ui: "round_inv n u"
    using Recv_ok [OF u] assms(2-4) by (simp add: round_inv_def)
  then have "slot_ok (connections u ! k)" using assms(3) by (simp add: round_inv_def server_ok_slot)
  note d = slot_ok_Disconnect [OF this]
  show ?thesis
  proof (cases b)
    case True
    then show ?thesis using w ui by (simp add: whenP_run)
  next
    case False
    then have "change_slot k Disconnect u = Inr (x, t)" using w by (simp add: whenP_run)
    with ui assms(3) d show ?thesis by (intro change_slot_inv [of n u k Disconnect x t]) simp_all
  qed
qed

lemma InitializeConnection_inv:
  assumes "round_inv n s" "k < n"
  shows "\<exists>t. InitializeConnection k s = Inr t \<and> round_inv n t \<and> running t = running s"
proof -
  have ok: "server_ok s" "k < length (connections s)" using assms by (simp_all add: round_inv_def)
  then have tab: "table_ok s" by (simp add: server_ok_def)
  obtain t where t: "InitializeConnection k s = Inr t" "table_ok t"
    "length (connections t) = length (connections s)"
    using InitializeConnection_ok [OF tab ok(2)] by blast
  have cs: "connections t = (connections s)[k := Initialize (connections s ! k)]" "db t = db s"
    "running t = running s"
    using t(1) by (auto simp: InitializeConnection_def Let_def split: if_splits prod.splits)
  have "list_all slot_ok (connections t)"
    using ok slot_ok_Initialize by (auto simp: cs server_ok_def list_all_length nth_list_update)
  moreover have "\<not> isAuth (Initialize c)" for c by (simp add: Initialize_def ClearSendQueue_def)
  then have "keys_distinct (connections t)"
    using ok by (auto simp: cs server_ok_def keys_distinct_def nth_list_update)
  ultimately have "round_inv n t" using t ok assms by (simp add: round_inv_def server_ok_def cs)
  then show ?thesis using t(1) cs(3) by blast
qed

lemma disconnect_part_inv:
  assumes "round_inv n s" "k < n"
  shows "\<exists>t. bnd (slot k) (\<lambda>c. whenP (todc c) (act (InitializeConnection k))) s = Inr ((), t) \<and>
    round_inv n t"
  using InitializeConnection_inv [OF assms] assms(1)
  by (cases "todc (connections s ! k)") (auto simp: slot_def prog_simps act_def)

lemma heartbeat_part_inv:
  assumes "round_inv n s" "k < n"
  shows "\<exists>t. heartbeat_part k e s = Inr ((), t) \<and> round_inv n t"
proof -
  let ?c = "(connections s ! k)\<lparr>lastHeartBeat := time_set e k + HEARTBEAT_TIME\<rparr>"
  have "slot_ok (connections s ! k)" using assms by (simp add: round_inv_def server_ok_slot)
  then have c: "slot_ok ?c \<and> same_peer (connections s ! k) ?c" by (rule slot_ok_beat)
  then obtain d where d: "SendHeartBeat (tick e k) ?c = Inr d" "slot_ok d" "same_peer ?c d"
    using SendHeartBeat_ok by blast
  have "same_peer (connections s ! k) d" using c d(3) same_peer_trans by blast
  then have "round_inv n (s\<lparr>connections := (connections s)[k := d]\<rparr>)"
    using server_ok_slot_change [of s k d] assms d(2) by (simp add: round_inv_def)
  then show ?thesis
    using d(1) assms(1) by (simp add: heartbeat_part_def slot_def prog_simps change_slot_def)
qed

text \<open>The test of the loop looks at the slot before \<open>Send\<close>, which does not change its socket.\<close>

lemma send_part_used:
  assumes "send_part k os s = Inr ((), t)" "round_inv n s" "k < n"
    and "\<And>m i. os m = Sent i \<Longrightarrow> i \<le> m" "slot_used (connections s ! k)"
  shows "slot_used (connections t ! k)"
proof -
  let ?c = "connections s ! k"
  have slot: "slot_ok ?c" using assms(2,3) by (simp add: round_inv_def server_ok_slot)
  obtain b c where r: "Server_Send (os (max_send (fetch_frame ?c))) ?c = Inr (b, c)" "same_peer ?c c"
    using Server_Send_ok [OF slot assms(4)] by blast
  then have "connections t = (connections s)[k := if b = False then Disconnect c else c]"
    using assms(1) by (auto simp: send_part_def slot_def prog_simps change_slot_def split: if_splits)
  moreover have "same_peer ?c (if b = False then Disconnect c else c)" using r(2) by simp
  ultimately show ?thesis
    using assms(2,3,5) slot_used_same by (simp add: round_inv_def del: same_peer_Disconnect)
qed

lemma service_slot_inv:
  assumes "service_slot E e wr k s = Inr (x, t)" "round_inv n s" "k < n" "round_ok e"
  shows "round_inv n t"
proof (cases "slot_used (connections s ! k)")
  case False
  then show ?thesis using assms(1,2) by (simp add: service_slot_def slot_def slot_used_def prog_simps)
next
  case True
  have os: "\<And>m i. send_of e k m = Sent i \<Longrightarrow> i \<le> m"
    "\<And>m bs r. recv_of e k m = Received bs r \<Longrightarrow> length bs \<le> m"
    using assms(4) unfolding round_ok_def by blast+
  obtain s1 where s1: "whenP (wr k) (send_part k (send_of e k)) s = Inr ((), s1)"
    "round_inv n s1" "slot_used (connections s1 ! k)"
  proof (cases "wr k")
    case w: True
    obtain s1 where s1: "send_part k (send_of e k) s = Inr ((), s1)" "round_inv n s1"
      using send_part_run [OF assms(2,3) os(1)] by blast
    then show ?thesis
      using that w send_part_used [OF s1(1) assms(2,3) os(1) True] by (simp add: whenP_run)
  qed (use assms(2) True that in \<open>simp add: whenP_run\<close>)
  obtain s2 where s2: "recv_part E k (recv_of e k) s1 = Inr ((), s2)"
    and rest: "steps [bnd (slot k) (\<lambda>c. whenP (todc c) (act (InitializeConnection k))), heartbeat_part k e] s2
      = Inr (x, t)"
    using assms(1) True s1(1)
    by (auto simp: service_slot_def slot_def slot_used_def bnd_run stm_run gets_run whenP_run
        split: sum.splits)
  have i2: "round_inv n s2" using recv_part_inv [OF s2 s1(2) assms(3) s1(3) os(2)] .
  obtain s3 where s3: "bnd (slot k) (\<lambda>c. whenP (todc c) (act (InitializeConnection k))) s2 = Inr ((), s3)"
    "round_inv n s3"
    using disconnect_part_inv [OF i2 assms(3)] by blast
  obtain s4 where "heartbeat_part k e s3 = Inr ((), s4)" "round_inv n s4"
    using heartbeat_part_inv [OF s3(2) assms(3)] by blast
  then show ?thesis using rest s3(1) by (simp add: stm_run ret_run)
qed

lemma service_slots_inv:
  assumes "for_each ks (service_slot E e wr) s = Inr (x, t)" "round_inv n s" "round_ok e"
    and "list_all (\<lambda>k. k < n) ks"
  shows "round_inv n t"
  using assms
proof (induction ks arbitrary: s)
  case (Cons k ks)
  then obtain u where "service_slot E e wr k s = Inr ((), u)" "for_each ks (service_slot E e wr) u = Inr (x, t)"
    by (auto simp: stm_run split: sum.splits)
  then show ?case using Cons.IH [of u] Cons.prems service_slot_inv [of E e wr k s "()" u n] by simp
qed (simp add: ret_run)

lemma take_slot_slots:
  assumes "take_slot k a s = Inr t" "list_all slot_ok (connections s)" "0 \<le> in_fd a"
    and "k < length (connections s)"
  shows "list_all slot_ok (connections t) \<and> length (connections t) = length (connections s) \<and>
    db t = db s \<and> (\<forall>i < length (connections s). isAuth (connections t ! i) = isAuth (connections s ! i) \<and>
      peer_key (connections t ! i) = peer_key (connections s ! i))"
proof -
  have "slot_ok (connections s ! k)" using assms(2,4) by (simp add: list_all_length)
  then show ?thesis
    using assms
    by (auto simp: take_slot_def Let_def list_all_length nth_list_update slot_ok_def size_known_def
        slot_used_def peer_key_def split: if_splits)
qed

lemma AcceptConnection_inv:
  assumes "AcceptConnection as s = Inr (b, rest, t)" "round_inv n s" "\<forall>a \<in> set as. 0 \<le> in_fd a"
  shows "round_inv n t"
proof (cases as)
  case Nil
  then have "t = s\<lparr>TempSocket := - 1\<rparr>" using assms(1) by simp
  then show ?thesis using assms(2) by (simp add: round_inv_def server_ok_def)
next
  case (Cons a as')
  let ?s = "s\<lparr>TempSocket := in_fd a\<rparr>"
  have ok: "table_ok t"
    using AcceptConnection_ok [of s as] assms by (auto simp: round_inv_def server_ok_def)
  show ?thesis
  proof (cases "FreeConnection ?s = - 1")
    case True
    then have "t = s\<lparr>TempSocket := - 1\<rparr>"
      using assms(1) AcceptConnection_full [OF True] by (simp add: Cons Let_def)
    then show ?thesis using assms(2) by (simp add: round_inv_def server_ok_def)
  next
    case False
    let ?k = "nat (FreeConnection ?s)"
    have t: "take_slot ?k a ?s = Inr t" using assms(1) False by (auto simp: Cons Let_def split: sum.splits)
    have "?k < length (connections ?s)" using FreeConnection_Some [OF False] by simp
    then have "list_all slot_ok (connections t) \<and> length (connections t) = length (connections ?s) \<and>
      db t = db ?s \<and> (\<forall>i < length (connections ?s). isAuth (connections t ! i) = isAuth (connections ?s ! i) \<and>
        peer_key (connections t ! i) = peer_key (connections ?s ! i))"
      using take_slot_slots [OF t] assms(2,3) by (simp add: round_inv_def server_ok_def Cons)
    then show ?thesis
      using ok assms(2) by (auto simp: round_inv_def server_ok_def keys_distinct_def)
  qed
qed

lemma accept_part_inv:
  assumes "accept_part e s = Inr (x, t)" "round_inv n s" "round_ok e"
  shows "round_inv n t"
proof (cases "accept_ready e")
  case True
  then obtain b rest where "AcceptConnection (pending e) s = Inr (b, rest, t)"
    using assms(1) by (auto simp: accept_part_def whenP_run act_def split: sum.splits prod.splits)
  moreover have "\<forall>a \<in> set (pending e). 0 \<le> in_fd a" using assms(3) by (simp add: round_ok_def)
  ultimately show ?thesis using AcceptConnection_inv assms(2) by blast
qed (use assms(1,2) in \<open>simp add: accept_part_def whenP_run\<close>)

lemma round_of_loop_inv:
  assumes "round_of_loop E e s = Inr (x, t)" "round_inv n s" "round_ok e"
  shows "round_inv n t"
proof -
  obtain u where u: "accept_part e s = Inr ((), u)"
    and f: "for_each [0..<length (connections s)] (service_slot E e
      (\<lambda>k. wants_write (connections s ! k) \<and> writable e k)) u = Inr (x, t)"
    using assms(1) by (auto simp: round_of_loop_def bnd_run stm_run gets_run split: sum.splits)
  show ?thesis
    using service_slots_inv [OF f accept_part_inv [OF u assms(2,3)] assms(3)] assms(2)
    by (simp add: round_inv_def list_all_iff)
qed

section \<open>The start\<close>

lemma on_server_db_frame:
  assumes "on_server_db m s = Inr (x, t)"
  shows "\<exists>d. db t = Some d \<and> t = s\<lparr>db := Some d\<rparr>"
  using assms by (auto simp: on_server_db_def split: option.splits sum.splits)

text \<open>Reading the configuration and checking the tables touches no connection.\<close>

definition same_slots :: "'d server \<Rightarrow> 'd server \<Rightarrow> bool" where
  "same_slots s t \<longleftrightarrow>
     connections t = connections s \<and> serverConnections t = serverConnections s \<and>
     serverNumConnections t = serverNumConnections s"

lemma load_object_slots:
  "serverConnections (fst (load_object v x)) = serverConnections (fst x)"
  "serverNumConnections (fst (load_object v x)) = serverNumConnections (fst x)"
  by (simp_all add: load_object_def stanza_keeps)

lemma LoadConfig_slots: "LoadConfig f s = Inr (r, t) \<Longrightarrow> same_slots s t"
proof -
  assume l: "LoadConfig f s = Inr (r, t)"
  then have "t = s \<or> (\<exists>v. t = fst (load_object v (s, False)))"
    by (auto simp: LoadConfig_def split: if_splits json_document.splits prod.splits) (metis fst_conv)+
  then show ?thesis by (auto simp: same_slots_def load_object_slots load_object_keeps)
qed

lemma VerifyConfig_slots:
  assumes "VerifyConfig f d s = Inr (r, t)"
  shows "same_slots s t \<and> (r = 0 \<longrightarrow> db t \<noteq> None)"
proof -
  obtain q u where l: "LoadConfig f s = Inr (q, u)"
    and rest: "(if q \<noteq> 0 then Inr (1, u) else if config_rejected u then Inr (1, u)
      else Inr (0, u\<lparr>db := Some (new_Database (databasetype u) (c_str (databaseusername u))
        (c_str (databasepassword u)) (c_str (databasehost u)) (c_str (databasename u))
        (databaseport u) d)\<rparr>)) = Inr (r, t)"
    using assms by (auto simp: VerifyConfig_def bnd_run ret_run split: sum.splits if_splits)
  show ?thesis using LoadConfig_slots [OF l] rest by (auto simp: same_slots_def split: if_splits)
qed

lemma checkDB_slots:
  assumes "checkDB a s = Inr (r, t)"
  shows "same_slots s t \<and> db t \<noteq> None"
proof -
  obtain x u where o1: "on_server_db (Open a) s = Inr (x, u)"
    and rest: "t = u \<or> (\<exists>m (y :: int). on_server_db m u = Inr (y, t))"
    using assms
    by (auto simp: checkDB_def bnd_run gets_run raise_run ret_run split: sum.splits if_splits) blast+
  show ?thesis using on_server_db_frame [OF o1] rest
    by (auto simp: same_slots_def dest!: on_server_db_frame)
qed

lemma not_ready_slots:
  assumes "not_ready E f d s = Inr (False, t)"
  shows "same_slots s t \<and> db t \<noteq> None"
proof -
  obtain r u where v: "VerifyConfig f d s = Inr (r, u)"
    and rest: "(if r \<noteq> 0 then ret True else bnd (checkDB (api E)) (\<lambda>c. ret (c \<noteq> 0))) u = Inr (False, t)"
    using assms by (auto simp: not_ready_def bnd_run split: sum.splits)
  have "r = 0" using rest by (auto simp: ret_run split: if_splits)
  then obtain c where "checkDB (api E) u = Inr (c, t)"
    using rest by (auto simp: bnd_run ret_run split: sum.splits)
  then show ?thesis using VerifyConfig_slots [OF v] checkDB_slots by (fastforce simp: same_slots_def)
qed

lemma started_ok:
  assumes "db s \<noteq> None" "serverNumConnections s = 0"
  shows "server_ok (Initialize_server flags s)"
proof -
  let ?n = "unat (serverClientLimit s)"
  have sl: "slot_ok (new_CLIENT a b)" "\<not> slot_used (new_CLIENT a b)" "\<not> isAuth (new_CLIENT a b)" for a b
    unfolding new_CLIENT_def by (rule slot_ok_Initialize, rule Initialize_free)
      (simp add: Initialize_def ClearSendQueue_def)
  then have "table_ok (Initialize_server flags s)"
    using assms(2) unat_less [of "serverClientLimit s"]
    by (auto simp: table_ok_def Initialize_server_def Let_def listed_def slots_in_use_def)
  then show ?thesis using assms(1) sl
    by (simp add: server_ok_def keys_distinct_def Initialize_server_def Let_def list_all_length)
qed

lemma Start_ok:
  assumes "Start E f d flags s = Inr (0, t)" "serverNumConnections s = 0"
  shows "server_ok t \<and> running t"
proof -
  obtain b u where n: "not_ready E f d s = Inr (b, u)"
    and rest: "(if b then ret 1
     else stm (modify (\<lambda>s. (Initialize_server flags s)\<lparr>running := True\<rparr>)) (ret 0)) u = Inr (0 :: int, t)"
    using assms(1) by (auto simp: Start_def bnd_run split: sum.splits)
  have b: "\<not> b" using rest by (auto simp: ret_run split: if_splits)
  then have "t = (Initialize_server flags u)\<lparr>running := True\<rparr>"
    using rest by (simp add: stm_run modify_run ret_run)
  moreover have "server_ok (Initialize_server flags u)"
    using not_ready_slots [of E f d s u] n b assms(2) by (intro started_ok) (auto simp: same_slots_def)
  ultimately show ?thesis by (simp add: server_ok_def table_ok_def listed_def)
qed

lemma initialize_slots_inv:
  assumes "round_inv n u" "list_all (\<lambda>k. k < n) ks"
  shows "\<exists>v. for_each ks (\<lambda>k. act (InitializeConnection k)) u = Inr ((), v) \<and> round_inv n v"
  using assms
proof (induction ks arbitrary: u)
  case (Cons k ks)
  then obtain w where "InitializeConnection k u = Inr w" "round_inv n w"
    using InitializeConnection_inv [of n u k] by auto
  then show ?case using Cons by (simp add: stm_run act_def)
qed (simp add: ret_run)

lemma ServerThread_begin_runs:
  assumes "server_ok s"
  shows "\<exists>t. ServerThread_begin o' s = Inr ((), t) \<and> server_ok t"
proof -
  define n where "n = length (connections s)"
  obtain v where v: "for_each [0..<n] (\<lambda>k. act (InitializeConnection k)) s = Inr ((), v)" "round_inv n v"
    using initialize_slots_inv [of n s "[0..<n]"] assms by (auto simp: round_inv_def n_def list_all_iff)
  let ?t = "let u = v\<lparr>ServerSocket := TcpSockOpen o'\<rparr>
      in if ServerSocket u < 0 then snd (Stop u) else u\<lparr>running := True\<rparr>"
  have "ServerThread_begin o' s = Inr ((), ?t)"
    using v(1) by (simp add: ServerThread_begin_def bnd_run gets_run stm_run modify_run ret_run n_def Let_def)
  moreover have "server_ok ?t"
    using v(2) by (simp add: round_inv_def server_ok_def table_ok_def listed_def Stop_def Let_def)
  ultimately show ?thesis by blast
qed

lemma ServerThread_begin_ok:
  assumes "ServerThread_begin o' s = Inr ((), t)" "server_ok s"
  shows "server_ok t"
  using ServerThread_begin_runs [OF assms(2), of o'] assms(1) by simp

lemma server_step_ok:
  assumes "server_step E s t" "server_ok s"
  shows "server_ok t"
  using assms
proof cases
  case (Round e)
  then show ?thesis using round_of_loop_inv assms(2) by (fastforce simp: round_inv_def)
qed (use assms(2) in \<open>simp_all add: Pause_def Unpause_def Stop_def server_ok_def table_ok_def listed_def\<close>)

lemma reachable_ok: "reachable E s0 s \<Longrightarrow> server_ok s0 \<Longrightarrow> server_ok s"
  using reachable_invariant [of E s0 s server_ok] server_step_ok by blast

end
