(* ===== verification/Samples.thy ===== *)
theory Samples
  imports Framing Invariants
begin

text \<open>
  A concrete environment, on which the theorems about handlers and about the start of the server
  are instantiated. Its database engine is a script: each query takes the next answer of a list,
  and finds no rows when the list is at its end.
\<close>

type_synonym answer = "(cppstring \<times> byte list option) list list"

definition next_answer :: "answer list \<Rightarrow> answer \<times> answer list" where
  "next_answer d = (case d of [] \<Rightarrow> ([], []) | a # d' \<Rightarrow> (a, d'))"

definition sample_api :: "answer list dbapi" where
  "sample_api =
     \<lparr>sqlite3_open = (\<lambda>_ d. (0, d)),
      sqlite3_close = (\<lambda>d. (0, d)),
      sqlite3_exec = (\<lambda>_ d. let (rows, d') = next_answer d in (rows, [], d')),
      sqlite3_prepare_v2 = (\<lambda>_ d. (0, 0, d)),
      sqlite3_step = (\<lambda>_ d. (100, d)),
      sqlite3_column_blob = (\<lambda>_ _ _. []),
      sqlite3_column_bytes = (\<lambda>_ _ _. 0),
      sqlite3_finalize = (\<lambda>_ d. d),
      mysql_init = (\<lambda>d. (True, d)),
      mysql_real_connect = (\<lambda>_ _ _ _ _ d. (True, d)),
      mysql_real_query = (\<lambda>_ d. d),
      mysql_store_result = (\<lambda>_. None),
      mysql_field_count = (\<lambda>_. 0),
      mysql_error = (\<lambda>_. []),
      mysql_close = (\<lambda>d. d)\<rparr>"

definition sample_env :: "answer list env" where
  "sample_env =
     \<lparr>api = sample_api, AuthDataDecrypt = (\<lambda>_ s. Some s),
      SHA256 = (\<lambda>_. Some (replicate 32 7)), rand_value = 40, timeGetTime = 1000,
      stof_bits = (\<lambda>_. Some 0), float_text = (\<lambda>_. ''0''),
      stack_rival = replicate 1200 0, stack_sign = replicate 54 0\<rparr>"

text \<open>A SQLite database with a script, and a slot that is connected.\<close>

definition sample_db :: "answer list \<Rightarrow> answer list database" where
  "sample_db d = new_Database DBTYPE_SQLITE [] [] [] ''sbol.db'' 3306 d"

definition sample_slot :: "bool \<Rightarrow> client" where
  "sample_slot auth = (new_CLIENT False False)\<lparr>ClientSocket := 5, isAuth := auth\<rparr>"

definition sample_session :: "packet \<Rightarrow> answer list \<Rightarrow> answer list session" where
  "sample_session p d =
     \<lparr>cl = (sample_slot True)\<lparr>inbuf := p\<rparr>, sdb = sample_db d\<rparr>"

text \<open>A server with one slot, which is in use.\<close>

definition sample_server :: "client \<Rightarrow> answer list \<Rightarrow> answer list server" where
  "sample_server c d = (new_Server False)
     \<lparr>connections := [c], serverConnections := [0], serverNumConnections := 1,
      db := Some (sample_db d), running := True\<rparr>"

text \<open>A request: a header and fields.\<close>

definition sample_request :: "u16 \<Rightarrow> u16 \<Rightarrow> byte list list \<Rightarrow> packet" where
  "sample_request t sub fs = fold append_bytes fs (reply_header t sub)"

lemma next_answer_simps [simp]: "next_answer [] = ([], [])" "next_answer (a # d) = (a, d)"
  by (simp_all add: next_answer_def)

lemma sample_Exec:
  "db_type D = DBTYPE_SQLITE \<Longrightarrow> Exec sample_api q D =
     Inr (int (length (fst (next_answer (eng D)))),
       D\<lparr>results := map DatabaseCallback (fst (next_answer (eng D))), dbErr := [],
         eng := snd (next_answer (eng D))\<rparr>)"
  by (simp add: Exec_def ExecSqlite_def sample_api_def case_prod_beta Let_def)

lemma sample_Open: "db_type D = DBTYPE_SQLITE \<Longrightarrow> Open sample_api D = Inr (0, D)"
  and sample_Close: "db_type D = DBTYPE_SQLITE \<Longrightarrow> Close sample_api D = Inr (0, D)"
  by (simp_all add: Open_def OpenSqlite_def Close_def CloseSqlite_def sample_api_def)

lemma sample_db_fields [simp]:
  "db_type (sample_db d) = DBTYPE_SQLITE" "eng (sample_db d) = d" "results (sample_db d) = []"
  by (simp_all add: sample_db_def new_Database_def)

lemmas sample_simps = sample_Exec sample_Open sample_Close

lemma slot_ok_sample: "slot_ok (sample_slot auth)"
proof -
  have "slot_ok (new_CLIENT False False)" unfolding new_CLIENT_def by (rule slot_ok_Initialize)
  then show ?thesis by (simp add: sample_slot_def slot_ok_def size_known_def slot_used_def)
qed

lemma sample_server_ok: "server_ok (sample_server (sample_slot auth) d)"
proof -
  have "slot_used (sample_slot auth)" "connection_index (sample_slot auth) = 0"
    by (simp_all add: sample_slot_def slot_used_def new_CLIENT_def Initialize_def ClearSendQueue_def)
  then show ?thesis
    using slot_ok_sample [of auth]
    by (auto simp: sample_server_def new_Server_def server_ok_def table_ok_def listed_def
        slots_in_use_def keys_distinct_def)
qed

lemma sample_server_slot_ok:
  assumes "slot_ok c" "same_peer (sample_slot auth) c"
  shows "server_ok (sample_server c d)"
proof -
  let ?t = "sample_server (sample_slot auth) d"
  have t: "connections ?t = [sample_slot auth]" by (simp add: sample_server_def)
  have "sample_server c d = ?t\<lparr>connections := (connections ?t)[0 := c]\<rparr>"
    by (simp add: sample_server_def)
  then show ?thesis using server_ok_slot_change [OF sample_server_ok, of 0 auth d c] assms t by simp
qed

lemma sample_table_ok: "table_ok (sample_server (sample_slot auth) d)"
  using sample_server_ok [of auth d] by (simp add: server_ok_def)

lemma sample_request_layout:
  assumes "length (concat fs) \<le> 8000"
  shows "fresh (sample_request t sub fs)"
    and "written (sample_request t sub fs) = [0, 0] @ u16_bytes t @ u16_bytes sub @ concat fs"
    and "unat (pOffset (sample_request t sub fs)) = 6 + length (concat fs)"
    and "pSize (sample_request t sub fs) = pOffset (sample_request t sub fs)"
proof -
  let ?p = "sample_request t sub fs"
  show f: "fresh ?p" unfolding sample_request_def by (intro pk.put_list_ok reply_header_fresh)
  show w: "written ?p = [0, 0] @ u16_bytes t @ u16_bytes sub @ concat fs"
    unfolding sample_request_def using assms by (intro message_layout) simp
  show "unat (pOffset ?p) = 6 + length (concat fs)" using length_written [OF f] w by simp
  show "pSize ?p = pOffset ?p" using f by (simp add: fresh_def)
qed

lemma sample_request_buffer:
  assumes "length (concat fs) \<le> 8000"
  shows "buffer (sample_request t sub fs) =
    [0, 0] @ u16_bytes t @ u16_bytes sub @ concat fs @ replicate (8186 - length (concat fs)) 0"
proof -
  let ?p = "sample_request t sub fs"
  note l = sample_request_layout [OF assms, of t sub]
  have "buffer ?p = written ?p @ drop (unat (pOffset ?p)) (buffer ?p)" by (simp add: written_def)
  also have "drop (unat (pOffset ?p)) (buffer ?p) = replicate (8192 - unat (pOffset ?p)) 0"
    using l(1) by (simp add: fresh_def)
  finally show ?thesis using l(2,3) by simp
qed

text \<open>A slot whose request is a message.\<close>

lemma slot_ok_request:
  assumes "length (concat fs) \<le> 8000"
  shows "slot_ok ((sample_slot auth)\<lparr>inbuf := sample_request t sub fs\<rparr>)"
proof -
  note l = sample_request_layout [OF assms, of t sub]
  have "getSizeFromBuffer (sample_request t sub fs) = 0"
    using sample_request_buffer [OF assms, of t sub]
    by (simp add: getSizeFromBuffer_def block_def)
  moreover have "unat (pSize (sample_request t sub fs)) \<le> 8190" using l(3,4) assms by simp
  ultimately show ?thesis
    using slot_ok_sample [of auth] fresh_wf [OF l(1)]
    by (simp add: slot_ok_def size_known_def slot_used_def)
qed

end
