(* ===== verification/Startup_Properties.thy ===== *)
theory Startup_Properties
  imports Main_Program Samples
begin

text \<open>
  The start of the program: the default configuration is accepted, a complete SQLite database passes
  the check of the tables and is not changed by it, and what happens when the configuration or the
  database is not in order.
\<close>

section \<open>The configuration\<close>

definition given :: "config_file \<Rightarrow> (cppstring \<Rightarrow> json_value) \<Rightarrow> bool" where
  "given f v \<longleftrightarrow> \<not> file_missing f \<and> opened f \<and> document f = Object v"

lemma LoadConfig_given:
  "given f v \<Longrightarrow> LoadConfig f s =
     Inr (if snd (load_object v (s, False)) then 1 else 0, fst (load_object v (s, False)))"
  by (simp add: given_def LoadConfig_def case_prod_beta)

text \<open>
  The port of the database can never be configured. Whatever the file says, \<open>databaseport\<close> keeps
  its initial value; and a configuration that is accepted listens on the port given as
  \<open>serverport\<close>, which is stored over the one that \<open>databaseport\<close> has left there.
\<close>

lemma database_port_is_never_configured:
  assumes "given f v" "LoadConfig f s = Inr (r, t)"
  shows "databaseport t = databaseport s \<and>
    (r = 0 \<longrightarrow> (\<exists>p. v ''serverport'' = JInteger p \<and> serverport t = word_of_int p))"
proof (intro conjI impI)
  show "databaseport t = databaseport s" using LoadConfig_keeps(1) [OF assms(2)] .
  define x where "x = load_databaseport (v ''databaseport'')
    (load_string (\<lambda>t s. s\<lparr>databasename := t\<rparr>) (v ''databasename'')
    (load_mysql_string (\<lambda>t s. s\<lparr>databasehost := t\<rparr>) (v ''databasehost'')
    (load_mysql_string (\<lambda>t s. s\<lparr>databasepassword := t\<rparr>) (v ''databasepassword'')
    (load_mysql_string (\<lambda>t s. s\<lparr>databaseusername := t\<rparr>) (v ''databaseusername'')
    (load_databasetype (v ''databasetype'') (s, False))))))"
  define y where "y = load_port (\<lambda>p s. s\<lparr>serverport := p\<rparr>) (v ''serverport'') x"
  have load: "load_object v (s, False) =
      load_string (\<lambda>t s. s\<lparr>logpath := t\<rparr>) (v ''logpath'')
        (load_port (\<lambda>p s. s\<lparr>webserverport := p\<rparr>) (v ''webserverport'')
        (load_webserver (v ''webserver'') y))"
    by (simp add: load_object_def x_def y_def)
  have sp: "serverport (fst (load_object v (s, False))) = serverport (fst y)"
    unfolding load by (simp add: stanza_keeps)
  have sticky: "snd z \<Longrightarrow> snd (load_string f u z)" "snd z \<Longrightarrow> snd (load_port g u z)"
    "snd z \<Longrightarrow> snd (load_webserver u z)" for f g u and z :: "'a loading"
    by (cases z; cases u; simp add: load_string_def load_port_def load_webserver_def)+
  assume z: "r = 0"
  show "\<exists>p. v ''serverport'' = JInteger p \<and> serverport t = word_of_int p"
  proof -
    have t: "t = fst (load_object v (s, False))" "\<not> snd (load_object v (s, False))"
      using LoadConfig_given [OF assms(1), of s] assms(2) z by (auto split: if_splits)
    then have "\<not> snd y" unfolding load using sticky by blast
    then show ?thesis
      using t(1) sp by (cases x; cases "v ''serverport''") (simp_all add: y_def load_port_def)
  qed
qed

text \<open>What the default configuration makes of a new server.\<close>

definition configured_server :: "bool \<Rightarrow> 'd \<Rightarrow> 'd server" where
  "configured_server svc d = (new_Server svc)
     \<lparr>databasename := ''sbol.db'',
      db := Some (new_Database DBTYPE_SQLITE [] [] [] ''sbol.db'' 3306 d)\<rparr>"

lemma VerifyConfig_default:
  fixes d :: 'd
  assumes "given f DEFAULT_JSON_CONFIG"
  shows "VerifyConfig f d (new_Server svc) = Inr (0, configured_server svc d)"
proof -
  have "load_object DEFAULT_JSON_CONFIG (new_Server svc, False) =
      ((new_Server svc :: 'd server)\<lparr>databasename := ''sbol.db''\<rparr>, False)"
    by (simp add: load_object_def load_string_def load_port_def load_webserver_def load_mysql_string_def
        load_databaseport_def load_databasetype_def DEFAULT_JSON_CONFIG_def new_Server_def
        DBTYPE_MYSQL_def DBTYPE_SQLITE_def)
  then have "LoadConfig f (new_Server svc) = Inr (0, (new_Server svc :: 'd server)\<lparr>databasename := ''sbol.db''\<rparr>)"
    by (simp add: LoadConfig_given [OF assms])
  moreover have "\<not> config_rejected ((new_Server svc :: 'd server)\<lparr>databasename := ''sbol.db''\<rparr>)"
    by (simp add: config_rejected_def new_Server_def DBTYPE_MYSQL_def DBTYPE_SQLITE_def)
  ultimately show ?thesis
    by (simp add: VerifyConfig_def bnd_run configured_server_def) (simp add: new_Server_def c_str_def)
qed

section \<open>The tables\<close>

text \<open>A query that finds rows, or none, and does not change the database.\<close>

definition finds :: "'d dbapi \<Rightarrow> 'd \<Rightarrow> cppstring \<Rightarrow> bool" where
  "finds a d q \<longleftrightarrow> (\<exists>rows err. rows \<noteq> [] \<and> sqlite3_exec a (c_str q) d = (rows, err, d))"

definition table_info :: "cppstring \<Rightarrow> cppstring" where
  "table_info name = concat [''PRAGMA table_info('', name, '');'']"

definition table_sql :: "cppstring \<Rightarrow> cppstring" where
  "table_sql name = concat [''SELECT sql FROM sqlite_master WHERE name = '', quote, name, quote, ''; '']"

text \<open>Every table is there.\<close>

definition complete_schema :: "'d dbapi \<Rightarrow> 'd \<Rightarrow> bool" where
  "complete_schema a d \<longleftrightarrow>
     list_all (\<lambda>name. finds a d (table_info name) \<and> finds a d (table_sql name)) (map fst sqlite_tables)"

lemma Exec_finds:
  assumes "finds a (eng D) q" "db_type D = DBTYPE_SQLITE"
  obtains n rs err where "Exec a q D = Inr (n, D\<lparr>results := rs, dbErr := err\<rparr>)" "rs \<noteq> []"
proof -
  obtain rows err where "rows \<noteq> []" "sqlite3_exec a (c_str q) (eng D) = (rows, err, eng D)"
    using assms(1) by (auto simp: finds_def)
  then show ?thesis using that assms(2) by (simp add: Exec_def ExecSqlite_def Let_def)
qed

lemma check_present_table:
  assumes "finds a (eng D) (table_info (fst t))" "finds a (eng D) (table_sql (fst t))"
    and "db_type D = DBTYPE_SQLITE"
  shows "\<exists>rs err. check_table_sqlite a t D = Inr (True, D\<lparr>results := rs, dbErr := err\<rparr>)"
proof -
  obtain n rs err where i: "Exec a (table_info (fst t)) D = Inr (n, D\<lparr>results := rs, dbErr := err\<rparr>)" "rs \<noteq> []"
    using Exec_finds [OF assms(1,3)] by blast
  let ?D = "D\<lparr>results := rs, dbErr := err\<rparr>"
  have "finds a (eng ?D) (table_sql (fst t))" "db_type ?D = DBTYPE_SQLITE" using assms(2,3) by simp_all
  from Exec_finds [OF this]
  obtain m rs' err' where "Exec a (table_sql (fst t)) ?D = Inr (m, ?D\<lparr>results := rs', dbErr := err'\<rparr>)" "rs' \<noteq> []"
    by blast
  then have "check_table_sqlite a t D = Inr (True, D\<lparr>results := rs', dbErr := err'\<rparr>)"
    using i by (simp add: check_table_sqlite_def create_table_sqlite_def both_def prog_simps
        table_info_def table_sql_def GetValue_def)
  then show ?thesis by blast
qed

lemma check_present_tables:
  assumes "list_all (\<lambda>name. finds a (eng D) (table_info name) \<and> finds a (eng D) (table_sql name)) (map fst ts)"
    and "db_type D = DBTYPE_SQLITE"
  shows "\<exists>rs err. all_of ts (check_table_sqlite a) D = Inr (True, D\<lparr>results := rs, dbErr := err\<rparr>)"
  using assms
proof (induction ts arbitrary: D)
  case Nil
  have "D = D\<lparr>results := results D, dbErr := dbErr D\<rparr>" by simp
  then show ?case unfolding all_of.simps ret_run by blast
next
  case (Cons t ts)
  obtain rs err where "check_table_sqlite a t D = Inr (True, D\<lparr>results := rs, dbErr := err\<rparr>)"
    using check_present_table [of a D t] Cons.prems by auto
  moreover obtain rs' err' where "all_of ts (check_table_sqlite a) (D\<lparr>results := rs, dbErr := err\<rparr>) =
      Inr (True, D\<lparr>results := rs', dbErr := err'\<rparr>)"
    using Cons.IH [of "D\<lparr>results := rs, dbErr := err\<rparr>"] Cons.prems by auto
  ultimately show ?case by (auto simp: both_def bnd_run)
qed

lemma checkDB_complete:
  assumes "databasetype s = DBTYPE_SQLITE" "db s = Some D" "db_type D = DBTYPE_SQLITE"
    and "sqlite3_open a (db_name D) (eng D) = (0, d)" "complete_schema a d"
  shows "\<exists>rs err. checkDB a s =
    Inr (0, s\<lparr>db := Some (D\<lparr>results := rs, dbErr := err, eng := snd (sqlite3_close a d)\<rparr>)\<rparr>)"
proof -
  let ?D = "D\<lparr>eng := d\<rparr>"
  have "Open a D = Inr (0, ?D)" using assms(3,4) by (simp add: Open_def OpenSqlite_def)
  moreover obtain rs err where
    "all_of sqlite_tables (check_table_sqlite a) ?D = Inr (True, ?D\<lparr>results := rs, dbErr := err\<rparr>)"
    using check_present_tables [of a ?D sqlite_tables] assms(3,5) by (auto simp: complete_schema_def)
  ultimately have "checkDB a s =
      Inr (0, s\<lparr>db := Some (D\<lparr>results := rs, dbErr := err, eng := snd (sqlite3_close a d)\<rparr>)\<rparr>)"
    using assms(1-3)
    by (simp add: checkDB_def checkDB_tables_def on_server_db_def prog_simps SQLITE_OK_def Close_def
        CloseSqlite_def case_prod_beta)
  then show ?thesis by blast
qed

text \<open>
  C37: A table that SQLite cannot create is not noticed. With an engine that finds nothing and
  executes nothing, as for a file it cannot write, the test of the result sees a row count and goes on,
  and the check ends by reading row 0 of an empty result instead of returning 1.
\<close>

theorem failed_creation_is_not_noticed:
  assumes "databasetype s = DBTYPE_SQLITE" "db s = Some D" "db_type D = DBTYPE_SQLITE"
    and "fst (sqlite3_open a (db_name D) (eng D)) = 0" "\<And>q d. fst (sqlite3_exec a q d) = []"
  shows "checkDB a s = Inl OutOfBounds"
proof -
  have e: "\<exists>D'. Exec a q E = Inr (0, D') \<and> results D' = [] \<and> db_type D' = DBTYPE_SQLITE"
    if "db_type E = DBTYPE_SQLITE" for q and E :: "'a database"
    using assms(5) [of "c_str q" "eng E"] that
    by (cases "sqlite3_exec a (c_str q) (eng E)") (simp add: Exec_def ExecSqlite_def)
  have "\<exists>D'. Open a D = Inr (0, D') \<and> db_type D' = DBTYPE_SQLITE"
    using assms(3,4) by (cases "sqlite3_open a (db_name D) (eng D)") (simp add: Open_def OpenSqlite_def)
  then obtain D1 where D1: "Open a D = Inr (0, D1)" "db_type D1 = DBTYPE_SQLITE" by blast
  obtain D2 where D2: "Exec a (table_info ''account_data'') D1 = Inr (0, D2)" "results D2 = []"
    "db_type D2 = DBTYPE_SQLITE"
    using e [OF D1(2)] by blast
  obtain D3 where D3: "Exec a SQLITE_STATEMENT_ACCOUNT_DATA D2 = Inr (0, D3)" "db_type D3 = DBTYPE_SQLITE"
    using e [OF D2(3)] by blast
  obtain D4 where D4: "Exec a default_admin D3 = Inr (0, D4)" "db_type D4 = DBTYPE_SQLITE"
    using e [OF D3(2)] by blast
  obtain D5 where D5: "Exec a (table_sql ''account_data'') D4 = Inr (0, D5)" "results D5 = []"
    using e [OF D4(2)] by blast
  have "create_table_sqlite a ''account_data'' SQLITE_STATEMENT_ACCOUNT_DATA D1 = Inr (True, D4)"
    using D2 D3 D4 unfolding table_info_def
    by (simp add: create_table_sqlite_def add_default_admin_def prog_simps SQLITE_OK_def)
  then have "check_table_sqlite a (''account_data'', SQLITE_STATEMENT_ACCOUNT_DATA) D1 = Inl OutOfBounds"
    using D5 unfolding table_sql_def
    by (simp add: check_table_sqlite_def both_def prog_simps GetValue_def)
  then have "all_of sqlite_tables (check_table_sqlite a) D1 = Inl OutOfBounds"
    by (simp add: sqlite_tables_def both_def bnd_run)
  then show ?thesis
    using assms(1,2) D1
    by (simp add: checkDB_def checkDB_tables_def on_server_db_def prog_simps SQLITE_OK_def)
qed

section \<open>The start\<close>

lemma new_Server_limits: "unat (serverClientLimit (new_Server svc)) = 10" "serverport (new_Server svc) = 7946"
  by (simp_all add: new_Server_def)

lemma Start_default:
  assumes "given f DEFAULT_JSON_CONFIG" "sqlite3_open (api E) ''sbol.db'' d = (0, d')"
    and "complete_schema (api E) d'"
  shows "\<exists>D. Start E f d flags (new_Server svc) =
      Inr (0, (Initialize_server flags ((configured_server svc d)\<lparr>db := Some D\<rparr>))\<lparr>running := True\<rparr>) \<and>
    db_name D = ''sbol.db'' \<and> db_type D = DBTYPE_SQLITE"
proof -
  let ?s = "configured_server svc d"
  let ?D = "new_Database DBTYPE_SQLITE [] [] [] ''sbol.db'' 3306 d"
  have s: "databasetype ?s = DBTYPE_SQLITE" "db ?s = Some ?D" "db_type ?D = DBTYPE_SQLITE"
    by (simp_all add: configured_server_def new_Server_def new_Database_def)
  have "sqlite3_open (api E) (db_name ?D) (eng ?D) = (0, d')" using assms(2) by (simp add: new_Database_def)
  from checkDB_complete [OF s this assms(3)] obtain D' where D':
    "checkDB (api E) ?s = Inr (0, ?s\<lparr>db := Some D'\<rparr>)" "db_name D' = ''sbol.db''" "db_type D' = DBTYPE_SQLITE"
    by (auto simp: new_Database_def)
  then show ?thesis
    using VerifyConfig_default [OF assms(1), of d svc] by (auto simp: Start_def not_ready_def prog_simps)
qed

text \<open>
  With the default configuration and a complete database the server starts: ten free slots, the
  SQLite file \<open>sbol.db\<close>, the port 7946, and \<open>running\<close> is set.
\<close>

lemma default_configuration_starts:
  assumes "given f DEFAULT_JSON_CONFIG" "sqlite3_open (api E) ''sbol.db'' d = (0, d')"
    and "complete_schema (api E) d'"
  shows "\<exists>t D. Start E f d flags (new_Server svc) = Inr (0, t) \<and> running t \<and> db t = Some D \<and>
    db_name D = ''sbol.db'' \<and> db_type D = DBTYPE_SQLITE \<and> serverport t = 7946 \<and>
    length (connections t) = 10 \<and> list_all (\<lambda>c. \<not> slot_used c) (connections t)"
proof -
  have "list_all (\<lambda>c. \<not> slot_used c) (map (\<lambda>i. new_CLIENT (fst (flags i)) (snd (flags i))) [0..<10])"
    by (simp add: list_all_iff new_CLIENT_def Initialize_free)
  then show ?thesis
    using Start_default [OF assms, of flags svc]
    by (auto simp: Initialize_server_def Let_def configured_server_def new_Server_limits)
qed


section \<open>Examples\<close>

text \<open>An engine that answers every statement in the same way.\<close>

definition steady_env :: "(cppstring \<times> byte list option) list list \<Rightarrow> unit env" where
  "steady_env rows =
     \<lparr>api =
        \<lparr>sqlite3_open = (\<lambda>_ d. (0, d)), sqlite3_close = (\<lambda>d. (0, d)),
         sqlite3_exec = (\<lambda>_ d. (rows, [], d)), sqlite3_prepare_v2 = (\<lambda>_ d. (1, 0, d)),
         sqlite3_step = (\<lambda>_ d. (101, d)), sqlite3_column_blob = (\<lambda>_ _ _. []),
         sqlite3_column_bytes = (\<lambda>_ _ _. 0), sqlite3_finalize = (\<lambda>_ d. d),
         mysql_init = (\<lambda>d. (False, d)), mysql_real_connect = (\<lambda>_ _ _ _ _ d. (False, d)),
         mysql_real_query = (\<lambda>_ d. d), mysql_store_result = (\<lambda>_. None),
         mysql_field_count = (\<lambda>_. 0), mysql_error = (\<lambda>_. []), mysql_close = (\<lambda>d. d)\<rparr>,
      AuthDataDecrypt = (\<lambda>_ s. Some s), SHA256 = (\<lambda>_. Some (replicate 32 7)), rand_value = 40,
      timeGetTime = 1000, stof_bits = (\<lambda>_. Some 0), float_text = (\<lambda>_. ''0''),
      stack_rival = replicate 1200 0, stack_sign = replicate 54 0\<rparr>"

abbreviation some_rows :: "(cppstring \<times> byte list option) list list" where
  "some_rows \<equiv> [[(''sql'', Some [65])]]"

definition default_file :: config_file where
  "default_file = \<lparr>file_missing = False, default_fails = False, opened = True,
     document = Object DEFAULT_JSON_CONFIG\<rparr>"

lemma given_default: "given default_file DEFAULT_JSON_CONFIG"
  by (simp add: given_def default_file_def)

lemma steady_complete: "complete_schema (api (steady_env some_rows)) d"
  by (simp add: complete_schema_def finds_def steady_env_def list_all_iff)

lemma database_port_is_never_configured_example:
  "\<exists>t. LoadConfig default_file (new_Server False :: unit server) = Inr (0, t) \<and>
     databaseport t = 3306 \<and> serverport t = 7946"
proof -
  let ?s = "new_Server False :: unit server"
  have l: "\<exists>t. LoadConfig default_file ?s = Inr (0, t)"
    using VerifyConfig_default [OF given_default, of "()" False]
    by (auto simp: VerifyConfig_def prog_simps split: sum.splits if_splits)
  then obtain t where t: "LoadConfig default_file ?s = Inr (0, t)" by blast
  show ?thesis
    using t database_port_is_never_configured [OF given_default t]
    by (auto simp: DEFAULT_JSON_CONFIG_def new_Server_def)
qed

theorem failed_creation_is_not_noticed_witness:
  "checkDB (api (steady_env [])) (configured_server False ()) = Inl OutOfBounds"
proof -
  have "\<exists>D. db (configured_server False ()) = Some D \<and> db_type D = DBTYPE_SQLITE"
    "databasetype (configured_server False ()) = DBTYPE_SQLITE"
    by (simp_all add: configured_server_def new_Server_def new_Database_def)
  then obtain D where "databasetype (configured_server False ()) = DBTYPE_SQLITE"
    "db (configured_server False ()) = Some D" "db_type D = DBTYPE_SQLITE" by blast
  from failed_creation_is_not_noticed [OF this, of "api (steady_env [])"] show ?thesis
    by (simp add: steady_env_def)
qed

lemma default_configuration_starts_example:
  "\<exists>t. Start (steady_env some_rows) default_file () (\<lambda>_. (True, True)) (new_Server False) = Inr (0, t) \<and>
     length (connections t) = 10"
proof -
  have "sqlite3_open (api (steady_env some_rows)) ''sbol.db'' () = (0, ())" by (simp add: steady_env_def)
  from default_configuration_starts [OF given_default this steady_complete] show ?thesis by blast
qed

definition broken_program :: program_env where
  "broken_program =
     \<lparr>config = \<lparr>file_missing = False, default_fails = False, opened = True, document = ParseError\<rparr>,
      random_key = replicate 32 1, random_iv = replicate 16 2, key_file_writable = True,
      slot_flags = (\<lambda>_. (False, False))\<rparr>"


end
