(* ===== verification/Output_Properties.thy ===== *)
theory Output_Properties
  imports Samples
begin

text \<open>
  The properties of what the server sends: the bytes on the wire are the frames of the messages,
  in order and complete; when queueing a packet ends; and what a broadcast queues.
\<close>

section \<open>The outgoing stream\<close>

text \<open>What happens on the sending side of a slot: a message is sent, or its socket is writable.\<close>

datatype link_event = Message packet | Writable send_result

fun link_run :: "link_event list \<Rightarrow> client \<Rightarrow> fault + (byte list \<times> client)" where
  "link_run [] c = Inr ([], c)"
| "link_run (Message p # es) c =
     (case Send_packet p c of Inl e \<Rightarrow> Inl e | Inr (_, c1) \<Rightarrow> link_run es c1)"
| "link_run (Writable r # es) c =
     (case Server_Send r c of
        Inl e \<Rightarrow> Inl e
      | Inr (_, c1) \<Rightarrow>
          (case link_run es c1 of
             Inl e \<Rightarrow> Inl e | Inr (bs, d) \<Rightarrow> Inr (fst (transmit r c) @ bs, d)))"

definition message_ok :: "packet \<Rightarrow> bool" where
  "message_ok p \<longleftrightarrow> sendable p \<and> pOffset p = pSize p"

fun events_ok :: "link_event list \<Rightarrow> client \<Rightarrow> bool" where
  "events_ok [] c \<longleftrightarrow> True"
| "events_ok (Message p # es) c \<longleftrightarrow>
     message_ok p \<and> (case Send_packet p c of Inl e \<Rightarrow> False | Inr (_, c1) \<Rightarrow> events_ok es c1)"
| "events_ok (Writable r # es) c \<longleftrightarrow> socket_takes c r \<and> events_ok es (snd (transmit r c))"

definition message_frame :: "packet \<Rightarrow> byte list" where
  "message_frame p = frame (drop 2 (written p))"

fun messages :: "link_event list \<Rightarrow> packet list" where
  "messages [] = []"
| "messages (Message p # es) = p # messages es"
| "messages (Writable r # es) = messages es"

definition queue_event :: "link_event \<Rightarrow> (byte list, send_result) event" where
  "queue_event e =
     (case e of Message p \<Rightarrow> Put (padded_entry (message_frame p)) | Writable r \<Rightarrow> Get r)"

lemma queue_event_simps [simp]:
  "queue_event (Message p) = Put (padded_entry (message_frame p))"
  "queue_event (Writable r) = Get r"
  by (simp_all add: queue_event_def)

lemma enqueue_socket [simp]: "ClientSocket (enqueue e c) = ClientSocket c"
  by (simp add: enqueue_def)

lemma message_size:
  assumes "message_ok p"
  shows "length (drop 2 (written p)) = unat (pSize p) - 2"
    and "padded_size (unat (pSize p) - 2) \<le> 8176" "32 \<le> padded_size (unat (pSize p) - 2)"
proof -
  have p: "sendable p" "pOffset p = pSize p" using assms by (simp_all add: message_ok_def)
  then show "length (drop 2 (written p)) = unat (pSize p) - 2"
    by (simp add: written_def sendable_def wf_length)
  show "padded_size (unat (pSize p) - 2) \<le> 8176" using p(1) by (rule sendable_size)
  show "32 \<le> padded_size (unat (pSize p) - 2)" by (rule padded_size_props)
qed

lemma message_room:
  assumes "message_ok p"
  shows "unat (pOffset p) + padding_of p < 8192"
  using sendable_size [of p] assms by (simp add: message_ok_def sendable_def)

lemma frame_entry:
  assumes "message_ok p"
  shows "frame_bytes (padded_entry (message_frame p)) = message_frame p"
    and "queued (padded_entry (message_frame p))"
proof -
  let ?n = "padded_size (unat (pSize p) - 2)"
  note sz = message_size [OF assms]
  have len: "length (message_frame p) = ?n + 2" using sz(1) by (simp add: message_frame_def length_frame)
  have "take 2 (padded_entry (message_frame p)) = u16_bytes (word_of_nat ?n)"
    using sz(1) by (simp add: padded_entry_def message_frame_def frame_def)
  then have "entry_size (padded_entry (message_frame p)) = ?n"
    using sz(2) by (simp add: entry_size_def c16.dec_enc unat_of_nat)
  then show "frame_bytes (padded_entry (message_frame p)) = message_frame p"
    "queued (padded_entry (message_frame p))"
    using len sz by (simp_all add: frame_bytes_def queued_def padded_entry_def)
qed

lemma Send_message:
  assumes "message_ok p" "0 \<le> ClientSocket c"
  shows "\<exists>q. Send_packet p c = Inr (q, enqueue (padded_entry (message_frame p)) c)"
proof -
  have p: "sendable p" "pOffset p = pSize p" using assms(1) by (simp_all add: message_ok_def)
  show ?thesis
    using Send_runs [OF assms(2) p(1) message_room [OF assms(1)]] frame_of_padded [OF p, of c]
    by (simp add: AddToSendQueue_def enqueue_def message_frame_def Let_def)
qed

lemma transmit_run:
  assumes "slot_ok c" "socket_takes c r"
  shows "\<exists>b. Server_Send r c = Inr (b, snd (transmit r c))"
proof -
  have "n \<le> max_send (fetch_frame c)" if "r = Sent n" for n
    using that assms(2) by (simp add: socket_takes_def)
  from Server_Send_ok [of c r, OF assms(1) this] show ?thesis by (auto simp: transmit_def)
qed

lemma transmit_socket: "slot_ok c \<Longrightarrow> socket_takes c r \<Longrightarrow> ClientSocket (snd (transmit r c)) = ClientSocket c"
  using Server_Send_ok [of c r] by (fastforce simp: transmit_def same_peer_def socket_takes_def)

lemma link_run_queue:
  assumes "slot_ok c" "0 \<le> ClientSocket c" "events_ok es c"
  shows "link_run es c = Inr (outgoing.run (map queue_event es) c) \<and>
    outgoing.valid (map queue_event es) c"
  using assms
proof (induction es c rule: link_run.induct)
  case (2 p es c)
  have p: "message_ok p" using "2.prems"(3) by simp
  obtain q where q: "Send_packet p c = Inr (q, enqueue (padded_entry (message_frame p)) c)"
    using Send_message [OF p "2.prems"(2)] by blast
  have "slot_ok (enqueue (padded_entry (message_frame p)) c)"
    unfolding enqueue_def by (rule slot_ok_queue [OF "2.prems"(1) frame_entry(2) [OF p]])
  then show ?case
    using "2.IH" [OF q refl] "2.prems" q frame_entry(2) [OF p] by simp
next
  case (3 r es c)
  have r: "socket_takes c r" "events_ok es (snd (transmit r c))" using "3.prems"(3) by simp_all
  obtain b where b: "Server_Send r c = Inr (b, snd (transmit r c))"
    using transmit_run [OF "3.prems"(1) r(1)] by blast
  then show ?case
    using "3.IH" [OF b refl transmit_ok [OF "3.prems"(1) r(1)]] r "3.prems"
      transmit_socket [OF "3.prems"(1) r(1)]
    by (simp add: case_prod_beta Let_def)
qed simp

lemma put_in_messages:
  "events_ok es c \<Longrightarrow> outgoing.put_in (map queue_event es) = concat (map message_frame (messages es))"
proof (induction es c rule: events_ok.induct)
  case (2 p es c)
  then show ?case by (auto simp: frame_entry split: sum.splits prod.splits)
qed simp_all

text \<open>
  C7: What a peer receives is made of the frames of the messages that were sent to it, in the order
  in which they were sent, none of them lost, cut or repeated, however many bytes the socket takes
  at a time and however sending and queueing alternate; the part it has not received yet is still
  waiting in the slot.
\<close>

theorem wire_carries_messages_in_order:
  assumes "slot_ok c" "0 \<le> ClientSocket c" "unsent c = []" "events_ok es c"
  shows "\<exists>wire d. link_run es c = Inr (wire, d) \<and>
    wire @ unsent d = concat (map message_frame (messages es))"
proof -
  note run = link_run_queue [OF assms(1,2,4)]
  obtain wire d where w: "outgoing.run (map queue_event es) c = (wire, d)"
    by (cases "outgoing.run (map queue_event es) c")
  have "wire @ unsent d = unsent c @ outgoing.put_in (map queue_event es)"
    using outgoing.conserved [OF assms(1), of "map queue_event es"] run w by simp
  then show ?thesis using run w assms(3) put_in_messages [OF assms(4)] by simp
qed

lemma message_ok_request:
  assumes "length (concat fs) \<le> 8000"
  shows "message_ok (sample_request t sub fs)"
  using sample_request_layout [OF assms, of t sub] assms by (simp add: message_ok_def sendable_def fresh_wf)

lemma takes_one: "slot_ok c \<Longrightarrow> has_output c \<Longrightarrow> socket_takes c (Sent 1)"
  using fetch_frame_ok [of c] by (auto simp: socket_takes_def max_send_def has_output_def Suc_le_eq)

lemma sample_slot_link [simp]:
  "ClientSocket (sample_slot auth) = 5" "unsent (sample_slot auth) = []"
  by (simp_all add: sample_slot_def unsent_def new_CLIENT_def Initialize_def ClearSendQueue_def)

theorem wire_carries_messages_in_order_witness:
  "\<exists>wire d. link_run
      [Message (sample_request 0 1 [u32_bytes 9]), Writable (Sent 1),
       Message (sample_request 4 0 [[1, 2, 3]])] (sample_slot True) = Inr (wire, d) \<and>
    wire @ unsent d =
      message_frame (sample_request 0 1 [u32_bytes 9]) @ message_frame (sample_request 4 0 [[1, 2, 3]])"
proof -
  let ?p = "sample_request 0 1 [u32_bytes 9]" and ?q = "sample_request 4 0 [[1, 2, 3]]"
  let ?c = "enqueue (padded_entry (message_frame ?p)) (sample_slot True)"
  have m: "message_ok ?p" "message_ok ?q" by (simp_all add: message_ok_request)
  obtain p' where p': "Send_packet ?p (sample_slot True) = Inr (p', ?c)"
    using Send_message [OF m(1), of "sample_slot True"] by auto
  have c: "slot_ok ?c" "has_output ?c"
    using slot_ok_queue [OF slot_ok_sample frame_entry(2) [OF m(1)]]
    by (simp_all add: enqueue_def has_output_def)
  note one = takes_one [OF c]
  have "0 \<le> ClientSocket (snd (transmit (Sent 1) ?c))" using transmit_socket [OF c(1) one] by simp
  then obtain q' d where "Send_packet ?q (snd (transmit (Sent 1) ?c)) = Inr (q', d)"
    using Send_message [OF m(2)] by blast
  then have "events_ok [Message ?p, Writable (Sent 1), Message ?q] (sample_slot True)"
    using m p' one by simp
  then show ?thesis
    using wire_carries_messages_in_order [OF slot_ok_sample, of True] by fastforce
qed

section \<open>Everything is sent\<close>

text \<open>A socket that takes whatever it is offered, a number of times.\<close>

definition send_all :: "client \<Rightarrow> byte list \<times> client" where
  "send_all c = transmit (Sent (max_send (fetch_frame c))) c"

fun send_rounds :: "nat \<Rightarrow> client \<Rightarrow> byte list \<times> client" where
  "send_rounds 0 c = ([], c)"
| "send_rounds (Suc n) c =
     (let (bs, d) = send_all c; (cs, e) = send_rounds n d in (bs @ cs, e))"

definition frames_left :: "client \<Rightarrow> nat" where
  "frames_left c = length (sendQueue c) + (if 0 < snddata c then 1 else 0)"

lemma send_all_step:
  assumes "slot_ok c"
  shows "slot_ok (snd (send_all c))" "fst (send_all c) @ unsent (snd (send_all c)) = unsent c"
    "frames_left (snd (send_all c)) = frames_left c - 1"
proof -
  have t: "socket_takes c (Sent (max_send (fetch_frame c)))" by (simp add: socket_takes_def)
  show "slot_ok (snd (send_all c))" unfolding send_all_def by (rule transmit_ok [OF assms t])
  show "fst (send_all c) @ unsent (snd (send_all c)) = unsent c"
    unfolding send_all_def by (rule transmit_unsent [OF assms t])
  show "frames_left (snd (send_all c)) = frames_left c - 1"
  proof (cases "has_output c")
    case False
    then show ?thesis
      by (auto simp: send_all_def transmit_def Server_Send_idle frames_left_def has_output_def)
  next
    case True
    let ?f = "fetch_frame c"
    have f: "slot_ok ?f" "0 < snddata ?f" using fetch_frame_ok [OF assms] True by (simp_all add: has_output_def)
    then have n: "int (max_send ?f) = snddata ?f" by (simp add: max_send_def slot_ok_def)
    then have "sent (max_send ?f) ?f = Inr (?f\<lparr>snddata := 0\<rparr>)" by (simp add: sent_def Let_def)
    then have "snd (send_all c) = ?f\<lparr>snddata := 0\<rparr>"
      using True by (simp add: send_all_def transmit_def Server_Send_busy)
    moreover have "length (sendQueue ?f) = frames_left c - 1"
      using True by (auto simp: fetch_frame_def GetFromSendQueue_def frames_left_def has_output_def
          split: list.splits)
    ultimately show ?thesis by (simp add: frames_left_def)
  qed
qed

lemma no_frames_left: "frames_left c = 0 \<Longrightarrow> unsent c = []"
  by (simp add: frames_left_def unsent_def split: if_splits)

text \<open>
  C22: Whatever is queued on a slot gets out: a socket that takes the frame it is offered each time
  has, after as many calls as there are frames, received all of them completely, and nothing else.
\<close>

theorem queue_is_drained:
  assumes "slot_ok c" "frames_left c \<le> n"
  shows "fst (send_rounds n c) = unsent c \<and> frames_left (snd (send_rounds n c)) = 0"
  using assms
proof (induction n arbitrary: c)
  case 0
  then show ?case using no_frames_left [of c] by simp
next
  case (Suc n)
  note st = send_all_step [OF Suc.prems(1)]
  have "fst (send_rounds n (snd (send_all c))) = unsent (snd (send_all c)) \<and>
      frames_left (snd (send_rounds n (snd (send_all c)))) = 0"
    using Suc.prems(2) st(3) by (intro Suc.IH st(1)) simp
  then show ?case using st(2) by (simp add: case_prod_beta Let_def)
qed

theorem queue_is_drained_witness:
  "fst (send_rounds 1 (enqueue (padded_entry (message_frame (sample_request 0 1 [u32_bytes 9])))
      (sample_slot True))) = message_frame (sample_request 0 1 [u32_bytes 9])"
proof -
  let ?p = "sample_request 0 1 [u32_bytes 9]"
  let ?c = "enqueue (padded_entry (message_frame ?p)) (sample_slot True)"
  have m: "message_ok ?p" by (simp add: message_ok_request)
  have c: "slot_ok ?c" using slot_ok_queue [OF slot_ok_sample frame_entry(2) [OF m]] by (simp add: enqueue_def)
  have idle: "snddata (sample_slot True) = 0" "sendQueue (sample_slot True) = []"
    by (simp_all add: sample_slot_def new_CLIENT_def Initialize_def ClearSendQueue_def)
  then have "frames_left ?c \<le> 1" by (simp add: frames_left_def enqueue_def)
  from queue_is_drained [OF c this] show ?thesis
    using frame_entry(1) [OF m] idle by (simp add: unsent_def enqueue_def)
qed

section \<open>When queueing a packet ends\<close>

text \<open>
  C21: \<open>Send\<close> on a connected slot returns exactly when the padding it has to append fits behind the
  cursor of the packet; otherwise its padding loop runs for ever.
\<close>

theorem Send_returns_iff_padding_fits:
  assumes "0 \<le> ClientSocket c" "sendable p" "0 < padding_of p"
  shows "(\<exists>q d. Send_packet p c = Inr (q, d)) \<longleftrightarrow> unat (pOffset p) + padding_of p < 8192"
proof (cases "unat (pOffset p) + padding_of p < 8192")
  case True
  then show ?thesis using Send_runs [OF assms(1,2)] by (simp add: AddToSendQueue_def Let_def)
next
  case False
  then show ?thesis using Send_diverges [OF assms] by simp
qed

theorem Send_returns_iff_padding_fits_witness:
  "\<not> (\<exists>q d. Send_packet \<lparr>buffer = zero_buffer, pOffset = 8190, pSize = 6\<rparr> (sample_slot True) = Inr (q, d))"
proof -
  let ?p = "\<lparr>buffer = zero_buffer, pOffset = 8190, pSize = 6\<rparr>"
  have s: "sendable ?p" by (simp add: sendable_def wf_packet_def)
  have m: "padding_of ?p = 28" by (simp add: padding_of_def padded_size_def)
  show ?thesis
    using Send_returns_iff_padding_fits [of "sample_slot True" ?p] s m by simp
qed

section \<open>Broadcasts\<close>

text \<open>
  A packet that one \<open>Send\<close> has padded, when the next slot sends it: its size drops by two and two
  zeros are appended behind the cursor, so the frame is the same and the cursor has moved.
\<close>

definition resendable :: "byte list \<Rightarrow> packet \<Rightarrow> bool" where
  "resendable fr p \<longleftrightarrow>
     wf_packet p \<and> unat (pSize p) mod 16 = 0 \<and> 32 \<le> unat (pSize p) \<and> unat (pSize p) \<le> 8176 \<and>
     unat (pSize p) + 2 \<le> unat (pOffset p) \<and> fr = u16_bytes (pSize p) @ block 2 (unat (pSize p)) (buffer p)"

lemma resend_padding:
  assumes "resendable fr p"
  shows "sendable p" "padding_of p = 2" "padded_size (unat (pSize p) - 2) = unat (pSize p)"
proof -
  have p: "unat (pSize p) mod 16 = 0" "32 \<le> unat (pSize p)" "unat (pSize p) \<le> 8176"
    using assms by (simp_all add: resendable_def)
  show "sendable p" using assms by (simp add: resendable_def sendable_def)
  obtain m where m: "unat (pSize p) = 16 * m" using p(1) by (metis mod_0_imp_dvd dvdE)
  then have "2 \<le> m" using p(2) by simp
  then obtain i where i: "m = i + 2" by (metis add.commute le_iff_add)
  then show "padded_size (unat (pSize p) - 2) = unat (pSize p)"
    by (simp add: padded_size_def m max_def)
  then show "padding_of p = 2" using p(2) by (simp add: padding_of_def)
qed

lemma queue_entry_frame:
  assumes "resendable fr p"
  shows "queue_entry (p\<lparr>buffer := overwrite 0 (u16_bytes (pSize p)) (buffer p)\<rparr>) = padded_entry fr"
proof -
  let ?n = "unat (pSize p)"
  have p: "length (buffer p) = 8192" "?n \<le> 8176" "fr = u16_bytes (pSize p) @ take ?n (drop 2 (buffer p))"
    using assms by (simp_all add: resendable_def wf_length block_def)
  have "take (?n + 2) (overwrite 0 (u16_bytes (pSize p)) (buffer p)) = fr"
    using p(3) by (subst take_overwrite_head) simp_all
  moreover have "length fr = ?n + 2" using p by simp
  moreover have "queue_entry (p\<lparr>buffer := overwrite 0 (u16_bytes (pSize p)) (buffer p)\<rparr>) =
      overwrite 0 (take (?n + 2) (overwrite 0 (u16_bytes (pSize p)) (buffer p))) zero_buffer"
    using p(2) by (simp add: queue_entry_def Let_def)
  ultimately show ?thesis
    by (simp only: padded_entry_def) (simp add: overwrite_def drop_zero_buffer)
qed

lemma AddToSendQueue_frame:
  assumes "resendable fr p"
  shows "\<exists>q. AddToSendQueue p c = (q, enqueue (padded_entry fr) c) \<and> resendable fr q \<and> pOffset q = pOffset p"
proof -
  let ?q = "p\<lparr>buffer := overwrite 0 (u16_bytes (pSize p)) (buffer p)\<rparr>"
  have "wf_packet p" using assms by (simp add: resendable_def)
  then have "wf_packet ?q" by (rule wf_size_field)
  moreover have "block 2 (unat (pSize p)) (overwrite 0 (u16_bytes (pSize p)) (buffer p)) =
      block 2 (unat (pSize p)) (buffer p)"
    by (simp add: block_def overwrite_def numeral_2_eq_2)
  ultimately have "resendable fr ?q" using assms by (simp add: resendable_def)
  then show ?thesis
    using queue_entry_frame [OF assms] by (simp add: AddToSendQueue_def enqueue_def Let_def)
qed

lemma resend:
  assumes "resendable fr p" "0 \<le> ClientSocket c" "unat (pOffset p) + 2 < 8192"
  shows "\<exists>q. Send_packet p c = Inr (q, enqueue (padded_entry fr) c) \<and> resendable fr q \<and>
    unat (pOffset q) = unat (pOffset p) + 2"
proof -
  note pad = resend_padding [OF assms(1)]
  have room: "unat (pOffset p) + padding_of p < 8192" using assms(3) pad(2) by simp
  note run = padded_run [OF pad(1) room]
  have size: "pSize (padded p) = pSize p" using run(2) pad(3) by (simp add: word_unat_eq_iff)
  have off: "unat (pSize p) + 2 \<le> unat (pOffset p)" using assms(1) by (simp add: resendable_def)
  have buf: "buffer (padded p) = overwrite (unat (pOffset p)) (replicate 2 0) (buffer p)"
    using room by (simp add: padded_def append_bytes_def setSize_def pad(2))
  have len: "length (buffer p) = 8192" using assms(1) by (simp add: resendable_def wf_length)
  have "block 2 (unat (pSize p)) (buffer (padded p)) = block 2 (unat (pSize p)) (buffer p)"
    unfolding buf using len off assms(3) by (intro block_overwrite_disjoint) simp_all
  then have "resendable fr (padded p)"
    using assms(1) run(3,4) size pad(2) by (simp add: resendable_def)
  from AddToSendQueue_frame [OF this, of c] show ?thesis
    using Send_runs [OF assms(2) pad(1) room] run(3) pad(2) by auto
qed

lemma resend_stuck:
  assumes "resendable fr p" "0 \<le> ClientSocket c" "8192 \<le> unat (pOffset p) + 2"
  shows "Send_packet p c = Inl Diverges"
  using resend_padding [OF assms(1)] assms(2,3) by (intro Send_diverges) simp_all

lemma first_send:
  assumes "message_ok p" "0 \<le> ClientSocket c"
  shows "\<exists>q. Send_packet p c = Inr (q, enqueue (padded_entry (message_frame p)) c) \<and>
    resendable (message_frame p) q \<and> unat (pOffset q) = padded_size (unat (pSize p) - 2) + 2"
proof -
  have s: "sendable p" and o: "pOffset p = pSize p" using assms(1) by (simp_all add: message_ok_def)
  have f: "4 \<le> unat (pSize p)" "wf_packet p" using s by (simp_all add: sendable_def)
  note sz = sendable_size [OF s]
  let ?n = "padded_size (unat (pSize p) - 2)"
  have n: "?n = unat (pSize p) - 2 + padding_of p" "?n \<le> 8176" using sz by simp_all
  note room = message_room [OF assms(1)]
  note run = padded_run [OF s room]
  have off: "unat (pOffset (padded p)) = ?n + 2" using run(3) n(1) f o by simp
  have buf: "buffer (padded p) = overwrite (unat (pOffset p)) (replicate (padding_of p) 0) (buffer p)"
    using room by (simp add: padded_def append_bytes_def setSize_def)
  have len: "length (buffer p) = 8192" using f(2) by (rule wf_length)
  have "block 2 ?n (buffer (padded p)) = drop 2 (written p) @ replicate (padding_of p) 0"
    using n(1) f(1) o room len unfolding buf
    by (simp add: block_def overwrite_def written_def drop_take)
  moreover have "pSize (padded p) = word_of_nat ?n" using run(2) [symmetric] by simp
  moreover have "padding_of p = ?n - length (drop 2 (written p))"
    using n(1) message_size(1) [OF assms(1)] by simp
  ultimately have fr: "resendable (message_frame p) (padded p)"
    using run(2,4) n(2) off padded_size_props(2,3) [of "unat (pSize p) - 2"] message_size(1) [OF assms(1)]
    by (simp add: resendable_def message_frame_def frame_def)
  from AddToSendQueue_frame [OF fr, of c] show ?thesis
    using Send_runs [OF assms(2) s room] off by auto
qed

definition used_count :: "client list \<Rightarrow> nat" where
  "used_count cs = length (filter slot_used cs)"

lemma used_count_Cons [simp]:
  "used_count [] = 0" "used_count (c # cs) = (if slot_used c then Suc (used_count cs) else used_count cs)"
  by (simp_all add: used_count_def)

definition to_used :: "byte list \<Rightarrow> client list \<Rightarrow> client list" where
  "to_used fr cs = map (\<lambda>c. if slot_used c then enqueue (padded_entry fr) c else c) cs"

lemma send_each_resend:
  assumes "resendable fr p"
  shows "unat (pOffset p) + 2 * used_count cs < 8192 \<Longrightarrow> \<exists>q. send_each p cs = Inr (q, to_used fr cs)"
    and "0 < used_count cs \<Longrightarrow> even (unat (pOffset p)) \<Longrightarrow> 8192 \<le> unat (pOffset p) + 2 * used_count cs \<Longrightarrow>
      send_each p cs = Inl Diverges"
  using assms
proof (induction cs arbitrary: p)
  case (Cons c cs)
  {
    case 1
    show ?case
    proof (cases "slot_used c")
      case True
      then obtain q where q: "Send_packet p c = Inr (q, enqueue (padded_entry fr) c)" "resendable fr q"
        "unat (pOffset q) = unat (pOffset p) + 2"
        using resend [OF 1(2), of c] 1(1) by (auto simp: slot_used_def)
      then show ?thesis using Cons.IH(1) [OF _ q(2)] 1(1) True by (auto simp: to_used_def slot_used_def)
    next
      case False
      then show ?thesis using Cons.IH(1) [OF _ 1(2)] 1(1) by (auto simp: to_used_def slot_used_def)
    qed
  next
    case 2
    show ?case
    proof (cases "slot_used c")
      case used: True
      show ?thesis
      proof (cases "unat (pOffset p) + 2 < 8192")
        case True
        then obtain q where q: "Send_packet p c = Inr (q, enqueue (padded_entry fr) c)" "resendable fr q"
          "unat (pOffset q) = unat (pOffset p) + 2"
          using resend [OF 2(4), of c] used by (auto simp: slot_used_def)
        have "0 < used_count cs" using True 2(3) used by (cases "used_count cs") simp_all
        then have "send_each q cs = Inl Diverges" using 2(2,3) used q(3) by (intro Cons.IH(2) q(2)) simp_all
        then show ?thesis using q(1) used by (simp add: slot_used_def)
      next
        case False
        then show ?thesis using resend_stuck [OF 2(4), of c] used by (simp add: slot_used_def)
      qed
    next
      case False
      then show ?thesis using Cons.IH(2) [OF _ _ _ 2(4)] 2(1,2,3) by (simp add: slot_used_def)
    qed
  }
qed (simp_all add: to_used_def)

text \<open>The number of connections that can share a packet: all of them, or the loop never ends.\<close>

definition broadcast_fits :: "packet \<Rightarrow> client list \<Rightarrow> bool" where
  "broadcast_fits p cs \<longleftrightarrow>
     used_count cs \<le> 1 \<or> padded_size (unat (pSize p) - 2) + 2 * used_count cs < 8192"

lemma send_each_message:
  assumes "message_ok p"
  shows "broadcast_fits p cs \<Longrightarrow> \<exists>q. send_each p cs = Inr (q, to_used (message_frame p) cs)"
    and "\<not> broadcast_fits p cs \<Longrightarrow> send_each p cs = Inl Diverges"
proof (induction cs)
  case (Cons c cs)
  let ?n = "padded_size (unat (pSize p) - 2)"
  have ev: "even ?n"
    using padded_size_props(2) [of "unat (pSize p) - 2"] by presburger
  {
    case 1
    show ?case
    proof (cases "slot_used c")
      case True
      then obtain q where q: "Send_packet p c = Inr (q, enqueue (padded_entry (message_frame p)) c)"
        "resendable (message_frame p) q" "unat (pOffset q) = ?n + 2"
        using first_send [OF assms, of c] by (auto simp: slot_used_def)
      have "?n + 2 + 2 * used_count cs < 8192"
        using 1 True message_size(2) [OF assms] by (auto simp: broadcast_fits_def)
      then show ?thesis
        using send_each_resend(1) [OF q(2), of cs] q True by (auto simp: to_used_def slot_used_def)
    next
      case False
      then have "broadcast_fits p cs" using 1 by (simp add: broadcast_fits_def)
      then show ?thesis using Cons.IH(1) False by (auto simp: to_used_def slot_used_def)
    qed
  next
    case 2
    show ?case
    proof (cases "slot_used c")
      case True
      then obtain q where q: "Send_packet p c = Inr (q, enqueue (padded_entry (message_frame p)) c)"
        "resendable (message_frame p) q" "unat (pOffset q) = ?n + 2"
        using first_send [OF assms, of c] by (auto simp: slot_used_def)
      have "0 < used_count cs" "8192 \<le> ?n + 2 + 2 * used_count cs"
        using 2 True by (auto simp: broadcast_fits_def)
      then show ?thesis
        using send_each_resend(2) [OF q(2), of cs] q True ev by (simp add: slot_used_def)
    next
      case False
      then have "\<not> broadcast_fits p cs" using 2 by (simp add: broadcast_fits_def)
      then show ?thesis using Cons.IH(2) False by (simp add: slot_used_def)
    qed
  }
qed (simp_all add: to_used_def broadcast_fits_def)

text \<open>
  C20: A broadcast appends the same frame, the one of the handler's reply, to the queue of every
  connection in use, the sender included, and to no other; but each further connection makes the
  shared packet two bytes longer, and when the buffer is full before all of them are served, the
  server never leaves the loop.
\<close>

theorem broadcast_queues_the_same_frame:
  assumes "k < length (connections s)" "message_ok (outbuf (connections s ! k))"
  shows "case SendToAll k s of
      Inl e \<Rightarrow> e = Diverges \<and> \<not> broadcast_fits (outbuf (connections s ! k)) (connections s)
    | Inr t \<Rightarrow> broadcast_fits (outbuf (connections s ! k)) (connections s) \<and>
        (\<exists>q. t = s\<lparr>connections :=
          (to_used (message_frame (outbuf (connections s ! k))) (connections s))
            [k := (to_used (message_frame (outbuf (connections s ! k))) (connections s) ! k)
              \<lparr>outbuf := q\<rparr>]\<rparr>)"
proof (cases "broadcast_fits (outbuf (connections s ! k)) (connections s)")
  case True
  then show ?thesis
    using send_each_message(1) [OF assms(2), of "connections s"] by (auto simp: SendToAll_def)
next
  case False
  then show ?thesis
    using send_each_message(2) [OF assms(2), of "connections s"] by (simp add: SendToAll_def)
qed

theorem broadcast_queues_the_same_frame_witness:
  "\<exists>t. SendToAll 0 (sample_server ((sample_slot True)\<lparr>outbuf := sample_request 4 1 [[1, 2]]\<rparr>) []) = Inr t \<and>
    sendQueue (connections t ! 0) = [padded_entry (message_frame (sample_request 4 1 [[1, 2]]))]"
proof -
  let ?c = "(sample_slot True)\<lparr>outbuf := sample_request 4 1 [[1, 2]]\<rparr>"
  let ?s = "sample_server ?c []"
  have conn: "connections ?s = [?c]" by (simp add: sample_server_def)
  have m: "message_ok (sample_request 4 1 [[1, 2]])" by (simp add: message_ok_request)
  have fits: "broadcast_fits (sample_request 4 1 [[1, 2]]) [?c]" by (simp add: broadcast_fits_def)
  have q: "sendQueue (sample_slot True) = []"
    by (simp add: sample_slot_def new_CLIENT_def Initialize_def ClearSendQueue_def)
  have "slot_used ?c" by (simp add: slot_used_def)
  then show ?thesis
    using broadcast_queues_the_same_frame [of 0 ?s] conn m fits q
    by (cases "SendToAll 0 ?s") (auto simp: to_used_def enqueue_def)
qed

end
