(* ===== verification/Table_Properties.thy ===== *)
theory Table_Properties
  imports Samples
begin

text \<open>
  The table of connections, seen from outside as a list of slot numbers in the order in which they
  were taken: a refinement of its two operations.
\<close>

section \<open>The abstract table\<close>

definition table_of :: "'d server \<Rightarrow> nat list" where
  "table_of s = map unat (listed s)"

definition lowest_free :: "nat \<Rightarrow> nat list \<Rightarrow> nat option" where
  "lowest_free n xs = List.find (\<lambda>i. i \<notin> set xs) [0..<n]"

definition abstract_accept :: "nat \<Rightarrow> nat list \<Rightarrow> nat list" where
  "abstract_accept n xs = (case lowest_free n xs of None \<Rightarrow> xs | Some k \<Rightarrow> xs @ [k])"

definition abstract_release :: "nat \<Rightarrow> nat list \<Rightarrow> nat list" where
  "abstract_release k xs = filter (\<lambda>i. i \<noteq> k) xs"

lemma set_table: "table_ok s \<Longrightarrow> set (table_of s) = slots_in_use (connections s)"
  by (simp add: table_of_def table_ok_def)

lemma distinct_table: "table_ok s \<Longrightarrow> distinct (table_of s)"
  by (simp add: table_of_def table_ok_def distinct_map inj_unat)

lemma find_least:
  "List.find P [0..<n] = Some k \<longleftrightarrow> k < n \<and> P k \<and> (\<forall>i < k. \<not> P i)"
  by (auto simp: find_Some_iff)

lemma find_none: "List.find P [0..<n] = None \<longleftrightarrow> (\<forall>i < n. \<not> P i)"
  by (auto simp: find_None_iff)

lemma lowest_free_None:
  assumes "table_ok s"
  shows "lowest_free (length (connections s)) (table_of s) = None \<longleftrightarrow> FreeConnection s = - 1"
  using set_table [OF assms]
  by (auto simp: lowest_free_def find_none FreeConnection_def free_from_None slots_in_use_def list_all_length)

lemma free_from_range: "free_from n cs = - 1 \<or> (\<exists>m. free_from n cs = int m)"
  by (induction cs arbitrary: n) auto

lemma lowest_free_Some:
  assumes "table_ok s" "lowest_free (length (connections s)) (table_of s) = Some k"
  shows "FreeConnection s = int k"
proof -
  have k: "k < length (connections s)" "\<not> slot_used (connections s ! k)"
    "\<forall>i < k. slot_used (connections s ! i)"
    using assms(2) set_table [OF assms(1)]
    by (auto simp: lowest_free_def find_least slots_in_use_def)
  have ne: "FreeConnection s \<noteq> - 1" using lowest_free_None [OF assms(1)] assms(2) by simp
  obtain m where m: "FreeConnection s = int m"
    using ne free_from_range [of 0 "connections s"] by (auto simp: FreeConnection_def)
  then have "m < length (connections s)" "\<not> slot_used (connections s ! m)"
    "\<forall>i < m. slot_used (connections s ! i)"
    using free_from_Some [of 0 "connections s" m] by (auto simp: FreeConnection_def)
  then have "m = k" using k by (metis linorder_neqE_nat)
  with m show ?thesis by simp
qed

lemma take_slot_table:
  assumes "take_slot k a s = Inr t" "table_ok s" "k < length (connections s)"
    and "\<not> slot_used (connections s ! k)"
  shows "table_of t = table_of s @ [k]"
proof -
  let ?n = "unat (serverNumConnections s)"
  have ok: "length (connections s) < 2 ^ 32" "length (serverConnections s) = length (connections s)"
    using assms(2) by (simp_all add: table_ok_def)
  have n: "?n < length (connections s)" by (rule room_for_slot [OF assms(2-4)])
  have t: "serverConnections t = (serverConnections s)[?n := word_of_nat k]"
    "serverNumConnections t = serverNumConnections s + 1"
    using assms(1) n ok(2) by (auto simp: take_slot_def Let_def split: if_splits)
  have "unat (serverNumConnections s + 1) = Suc ?n" using n ok(1) by (simp add: unat_word_ariths)
  moreover have "unat (word_of_nat k :: u32) = k" using assms(3) ok(1) by (simp add: unat_of_nat)
  ultimately show ?thesis using n ok(2) by (simp add: table_of_def listed_def t take_Suc_conv_app_nth)
qed

lemma take_slot_socket:
  assumes "take_slot k a s = Inr t" "k < length (connections s)"
  shows "ClientSocket (connections t ! k) = in_fd a \<and> length (connections t) = length (connections s) \<and>
    (\<forall>i. i \<noteq> k \<longrightarrow> connections t ! i = connections s ! i)"
  using assms by (auto simp: take_slot_def Let_def split: if_splits)

text \<open>
  Accepting a connection takes the free slot with the lowest number and puts it at the end of the
  table, for one connection per call; the others stay pending, and no other slot changes. When all
  slots are taken, everything that is pending is accepted and dropped, and the table stays as it was.
\<close>

lemma AcceptConnection_table:
  assumes "table_ok s" "0 \<le> in_fd a"
  shows "\<exists>b rest t. AcceptConnection (a # as) s = Inr (b, rest, t) \<and> table_ok t \<and>
    table_of t = abstract_accept (length (connections s)) (table_of s) \<and>
    (case lowest_free (length (connections s)) (table_of s) of
       None \<Rightarrow> \<not> b \<and> rest = [] \<and> connections t = connections s
     | Some k \<Rightarrow> b \<and> rest = as \<and> ClientSocket (connections t ! k) = in_fd a \<and>
         (\<forall>i. i \<noteq> k \<longrightarrow> connections t ! i = connections s ! i))"
proof (cases "lowest_free (length (connections s)) (table_of s)")
  case None
  then have "FreeConnection s = - 1" using lowest_free_None [OF assms(1)] by simp
  note full = AcceptConnection_full [OF this, of "a # as"]
  show ?thesis unfolding full
    using assms(1) None by (auto simp: abstract_accept_def table_of_def listed_def)
next
  case (Some k)
  let ?s = "s\<lparr>TempSocket := in_fd a\<rparr>"
  have fc: "FreeConnection s = int k" by (rule lowest_free_Some [OF assms(1) Some])
  have k: "k < length (connections ?s)" "\<not> slot_used (connections ?s ! k)"
    using FreeConnection_Some [of s] fc by simp_all
  have ok: "table_ok ?s" using assms(1) by simp
  obtain t where t: "take_slot k a ?s = Inr t" "table_ok t"
    using take_slot_ok [OF ok k assms(2)] by blast
  have "FreeConnection ?s = int k" using fc by (simp add: FreeConnection_def)
  then have "AcceptConnection (a # as) s = Inr (True, as, t)" using t(1) by (simp add: Let_def)
  moreover have "table_of ?s = table_of s" by (simp add: table_of_def listed_def)
  ultimately show ?thesis
    using take_slot_table [OF t(1) ok k] take_slot_socket [OF t(1) k(1)] t(2) Some
    by (auto simp: abstract_accept_def simp del: AcceptConnection.simps)
qed

lemma AcceptConnection_table_example:
  "\<exists>t. AcceptConnection [\<lparr>in_fd = 9, in_text = [49], in_addr = [1, 2, 3, 4]\<rparr>]
      ((sample_server (sample_slot True) [])\<lparr>connections := [sample_slot True, new_CLIENT False False],
        serverConnections := [0, 0]\<rparr>) = Inr (True, [], t) \<and> table_of t = [0, 1]"
proof -
  let ?s = "(sample_server (sample_slot True) [])
    \<lparr>connections := [sample_slot True, new_CLIENT False False], serverConnections := [0, 0]\<rparr>"
  let ?a = "\<lparr>in_fd = 9, in_text = [49], in_addr = [1, 2, 3, 4]\<rparr> :: incoming"
  have free: "\<not> slot_used (new_CLIENT False False)" unfolding new_CLIENT_def by (rule Initialize_free)
  have used: "slot_used (sample_slot True)" "connection_index (sample_slot True) = 0"
    by (simp_all add: sample_slot_def slot_used_def new_CLIENT_def Initialize_def ClearSendQueue_def)
  have two: "i < Suc (Suc 0) \<Longrightarrow> i = 0 \<or> i = 1" for i by auto
  have ok: "table_ok ?s"
    using free used
    by (auto simp: table_ok_def sample_server_def listed_def slots_in_use_def dest!: two)
  have "table_of ?s = [0]" "length (connections ?s) = 2"
    by (simp_all add: table_of_def listed_def sample_server_def)
  then show ?thesis
    using AcceptConnection_table [OF ok, of ?a "[]"]
    by (auto simp: abstract_accept_def lowest_free_def upt_rec)
qed

text \<open>
  Releasing a connection takes its number out of the table, wherever it stands, and keeps the
  order of the others; the slot is as new, and no other slot changes.
\<close>

lemma InitializeConnection_table:
  assumes "table_ok s" "k < length (connections s)"
  shows "\<exists>t. InitializeConnection k s = Inr t \<and> table_ok t \<and>
    table_of t = abstract_release k (table_of s) \<and>
    connections t = (connections s)[k := Initialize (connections s ! k)]"
proof -
  obtain t where t: "InitializeConnection k s = Inr t" "table_ok t"
    using InitializeConnection_ok [OF assms] by blast
  have cs: "connections t = (connections s)[k := Initialize (connections s ! k)]"
    using t(1) by (auto simp: InitializeConnection_def Let_def split: if_splits prod.splits)
  have "table_of t = abstract_release k (table_of s)"
  proof (cases "slot_used (connections s ! k)")
    case False
    then have "listed t = listed s"
      using t(1) by (auto simp: InitializeConnection_def slot_used_def listed_def Let_def)
    moreover have "k \<notin> set (table_of s)" using set_table [OF assms(1)] False by (simp add: slots_in_use_def)
    ultimately show ?thesis
      unfolding abstract_release_def by (subst filter_True) (auto simp: table_of_def)
  next
    case True
    let ?n = "unat (serverNumConnections s)" and ?w = "connection_index (connections s ! k)"
    let ?kept = "filter (\<lambda>x. x \<noteq> ?w) (listed s)"
    have ok: "?n \<le> length (serverConnections s)" "length (serverConnections s) < 2 ^ 32"
      using assms(1) by (simp_all add: table_ok_def)
    have w: "unat ?w = k" using assms True by (simp add: table_ok_def slots_in_use_def)
    have "length ?kept \<le> length (listed s)" by (rule length_filter_le)
    also have "\<dots> \<le> length (serverConnections s)" using ok(1) by (simp add: listed_def)
    finally have len: "length ?kept \<le> length (serverConnections s)" .
    then have num: "unat (word_of_nat (length ?kept) :: u32) = length ?kept"
      using ok(2) by (simp add: unat_of_nat)
    have "serverConnections t = overwrite 0 ?kept (serverConnections s)"
      "serverNumConnections t = word_of_nat (length ?kept)"
      using t(1) True ok(1) compact_run [of ?n "serverConnections s" ?w]
      by (auto simp: InitializeConnection_def slot_used_def Let_def listed_def)
    then have "listed t = ?kept" using take_overwrite_0 [OF len] num by (simp add: listed_def)
    moreover have "x \<noteq> ?w \<longleftrightarrow> unat x \<noteq> k" for x using w by (metis word_unat_eq_iff)
    ultimately show ?thesis by (simp add: table_of_def abstract_release_def filter_map comp_def)
  qed
  then show ?thesis using t cs by blast
qed

lemma InitializeConnection_table_example:
  "\<exists>t. InitializeConnection 0 (sample_server (sample_slot True) []) = Inr t \<and> table_of t = []"
proof -
  have "table_ok (sample_server (sample_slot True) [])"
    using sample_table_ok .
  from InitializeConnection_table [OF this, of 0] show ?thesis
    by (auto simp: sample_server_def abstract_release_def table_of_def listed_def)
qed

end
