(* ===== verification/Table_Rounds.thy ===== *)
theory Table_Rounds
  imports Table_Properties
begin

text \<open>
  The table of connections over a whole round of the server's loop: at most one connection is accepted at the
  start, and what else happens can only take connections out.
\<close>

section \<open>What leaves the table alone\<close>

text \<open>Handling a request, sending and receiving change slots, but not the list of connections.\<close>

lemma finish_listed: "finish k (Inr (a, s)) = Inr t \<Longrightarrow> listed t = listed s"
  by (cases a) (auto simp: finish_def Send_slot_def SendToAll_def listed_def split: sum.splits prod.splits)

lemma handler_listed: "finish k (run_handler k h s) = Inr t \<Longrightarrow> listed t = listed s"
proof -
  assume f: "finish k (run_handler k h s) = Inr t"
  then obtain a u where r: "run_handler k h s = Inr (a, u)"
    by (cases "run_handler k h s") (auto simp: finish_def)
  then have "listed u = listed s"
    by (auto simp: run_handler_def listed_def split: option.splits sum.splits)
  then show ?thesis using finish_listed f r by metis
qed

lemma ProcessPacket_listed: "ProcessPacket E k s = Inr t \<Longrightarrow> listed t = listed s"
  by (auto simp: ProcessPacket_def MainPacketFunctions_def Let_def listed_def dest!: handler_listed
      split: if_splits sum.splits option.splits)

lemma CheckClientPackets_listed: "CheckClientPackets E k n bs s = Inr t \<Longrightarrow> listed t = listed s"
  by (auto simp: CheckClientPackets_def listed_def dest!: ProcessPacket_listed split: if_splits sum.splits)

lemma ProcessRecv_listed: "ProcessRecv E k n s = Inr (b, t) \<Longrightarrow> listed t = listed s"
  by (auto simp: ProcessRecv_def Let_def listed_def dest!: CheckClientPackets_listed split: if_splits sum.splits)

lemma Recv_listed: "Recv E k r s = Inr (b, t) \<Longrightarrow> listed t = listed s"
  by (auto simp: Recv_def Let_def listed_def dest!: ProcessRecv_listed
      split: if_splits sum.splits recv_result.splits)

lemma change_slot_listed: "change_slot k f s = Inr (x, t) \<Longrightarrow> listed t = listed s"
  by (auto simp: change_slot_def prog_simps listed_def)

lemma lift_state: "lift r s = Inr (x, t) \<Longrightarrow> t = s"
  by (auto simp: lift_def split: sum.splits)

lemma recv_part_listed: "recv_part E k os s = Inr (x, t) \<Longrightarrow> listed t = listed s"
  by (auto simp: recv_part_def slot_def prog_simps dest!: Recv_listed change_slot_listed split: sum.splits if_splits)

lemma send_part_listed: "send_part k os s = Inr (x, t) \<Longrightarrow> listed t = listed s"
  by (auto simp: send_part_def slot_def prog_simps dest!: lift_state change_slot_listed split: sum.splits if_splits)

lemma heartbeat_part_listed: "heartbeat_part k e s = Inr (x, t) \<Longrightarrow> listed t = listed s"
  by (auto simp: heartbeat_part_def slot_def prog_simps dest!: lift_state change_slot_listed split: sum.splits if_splits)

section \<open>What a slot's turn does to the table\<close>

text \<open>A table that has only lost entries.\<close>

definition shrinks :: "nat list \<Rightarrow> nat list \<Rightarrow> bool" where
  "shrinks xs ys \<longleftrightarrow> (\<exists>P. ys = filter P xs)"

lemma shrinks_refl [simp]: "shrinks xs xs"
  unfolding shrinks_def by (rule exI [of _ "\<lambda>_. True"]) simp

lemma shrinks_trans: "shrinks xs ys \<Longrightarrow> shrinks ys zs \<Longrightarrow> shrinks xs zs"
  unfolding shrinks_def by (metis filter_filter)

lemma shrinks_listed: "listed t = listed s \<Longrightarrow> shrinks (table_of s) (table_of t)"
  by (simp add: table_of_def)

lemma shrinks_exact:
  assumes "shrinks xs ys"
  shows "ys = filter (\<lambda>i. i \<in> set ys) xs"
proof -
  obtain P where P: "ys = filter P xs" using assms by (auto simp: shrinks_def)
  have "filter P xs = filter (\<lambda>i. i \<in> set (filter P xs)) xs" by (rule filter_cong) simp_all
  then show ?thesis by (simp only: P)
qed

lemma disconnect_part_shrinks:
  assumes "bnd (slot k) (\<lambda>c. whenP (todc c) (act (InitializeConnection k))) s = Inr (x, t)"
    and "round_inv n s" "k < n"
  shows "shrinks (table_of s) (table_of t)"
proof (cases "todc (connections s ! k)")
  case True
  have tab: "table_ok s" "k < length (connections s)" using assms(2,3) by (simp_all add: round_inv_def server_ok_def)
  obtain u where "InitializeConnection k s = Inr u" "table_of u = abstract_release k (table_of s)"
    using InitializeConnection_table [OF tab] by blast
  then show ?thesis
    using assms(1) True by (auto simp: slot_def prog_simps act_def shrinks_def abstract_release_def)
qed (use assms(1) in \<open>simp add: slot_def prog_simps\<close>)

lemma service_slot_shrinks:
  assumes "service_slot E e wr k s = Inr (x, t)" "round_inv n s" "k < n" "round_ok e"
  shows "shrinks (table_of s) (table_of t)"
proof (cases "slot_used (connections s ! k)")
  case False
  then show ?thesis using assms(1) by (simp add: service_slot_def slot_def slot_used_def prog_simps)
next
  case True
  have os: "\<And>m i. send_of e k m = Sent i \<Longrightarrow> i \<le> m"
    "\<And>m bs r. recv_of e k m = Received bs r \<Longrightarrow> length bs \<le> m"
    using assms(4) unfolding round_ok_def by blast+
  obtain s1 s2 where s1: "whenP (wr k) (send_part k (send_of e k)) s = Inr ((), s1)"
    and s2: "recv_part E k (recv_of e k) s1 = Inr ((), s2)"
    and rest: "steps [bnd (slot k) (\<lambda>c. whenP (todc c) (act (InitializeConnection k))), heartbeat_part k e] s2
      = Inr (x, t)"
    using assms(1) True
    by (auto simp: service_slot_def slot_def slot_used_def bnd_run stm_run gets_run whenP_run
        split: sum.splits if_splits)
  obtain s3 where s3: "bnd (slot k) (\<lambda>c. whenP (todc c) (act (InitializeConnection k))) s2 = Inr ((), s3)"
    and s4: "heartbeat_part k e s3 = Inr ((), t)"
    using rest by (auto simp: stm_run ret_run split: sum.splits)
  have "listed s1 = listed s" using s1 send_part_listed by (cases "wr k") (simp_all add: whenP_run)
  moreover have "listed s2 = listed s1" "listed t = listed s3"
    using recv_part_listed [OF s2] heartbeat_part_listed [OF s4] by simp_all
  moreover have "round_inv n s1 \<and> slot_used (connections s1 ! k)"
  proof (cases "wr k")
    case w: True
    then have "send_part k (send_of e k) s = Inr ((), s1)" using s1 by (simp add: whenP_run)
    then show ?thesis
      using send_part_run [OF assms(2,3) os(1)] send_part_used [OF _ assms(2,3) os(1) True] by fastforce
  qed (use s1 assms(2) True in \<open>simp add: whenP_run\<close>)
  then have s1i: "round_inv n s1" "slot_used (connections s1 ! k)" by simp_all
  have "round_inv n s2" by (rule recv_part_inv [OF s2 s1i(1) assms(3) s1i(2) os(2)])
  then have "shrinks (table_of s2) (table_of s3)" using disconnect_part_shrinks [OF s3] assms(3) by blast
  ultimately show ?thesis by (simp add: table_of_def)
qed

lemma service_slots_shrink:
  assumes "for_each ks (service_slot E e wr) s = Inr (x, t)" "round_inv n s" "round_ok e"
    and "list_all (\<lambda>k. k < n) ks"
  shows "shrinks (table_of s) (table_of t)"
  using assms
proof (induction ks arbitrary: s)
  case (Cons k ks)
  then obtain u where u: "service_slot E e wr k s = Inr ((), u)" "for_each ks (service_slot E e wr) u = Inr (x, t)"
    by (auto simp: stm_run split: sum.splits)
  note kn = Cons.prems(2-4)
  have "shrinks (table_of s) (table_of u)" "round_inv n u"
    using service_slot_shrinks [OF u(1)] service_slot_inv [OF u(1)] kn by simp_all
  then show ?case using Cons.IH [OF u(2)] kn shrinks_trans by simp
qed (simp add: ret_run)

section \<open>A round\<close>

lemma accept_part_table:
  assumes "accept_part e s = Inr (x, t)" "table_ok s" "round_ok e"
  shows "table_of t = (if accept_ready e \<and> pending e \<noteq> []
    then abstract_accept (length (connections s)) (table_of s) else table_of s)"
proof (cases "accept_ready e")
  case True
  then obtain b rest where t: "AcceptConnection (pending e) s = Inr (b, rest, t)"
    using assms(1) by (auto simp: accept_part_def whenP_run act_def split: sum.splits prod.splits)
  show ?thesis
  proof (cases "pending e")
    case Nil
    then show ?thesis using t by (auto simp: table_of_def listed_def)
  next
    case (Cons a as)
    then have "0 \<le> in_fd a" using assms(3) by (simp add: round_ok_def)
    from AcceptConnection_table [OF assms(2) this, of as] show ?thesis
      using t True Cons by (auto simp del: AcceptConnection.simps)
  qed
qed (use assms(1) in \<open>simp add: accept_part_def whenP_run\<close>)

lemma table_range:
  assumes "table_ok s" "i \<in> set (abstract_accept (length (connections s)) (table_of s)) \<or> i \<in> set (table_of s)"
  shows "i < length (connections s)"
  using assms(2) set_table [OF assms(1)]
  by (auto simp: abstract_accept_def lowest_free_def slots_in_use_def find_least split: option.splits)


section \<open>An example\<close>

text \<open>
  A round in which the only slot is taken, two connections are pending and are dropped, and the
  peer of the slot is lost.
\<close>

definition lost_round :: round_env where
  "lost_round = \<lparr>accept_ready = True,
     pending = [\<lparr>in_fd = 8, in_text = [49], in_addr = [1, 2, 3, 4]\<rparr>, \<lparr>in_fd = 9, in_text = [49], in_addr = [1, 2, 3, 4]\<rparr>],
     writable = (\<lambda>_. False), send_of = (\<lambda>_ _. SendWouldBlock), recv_of = (\<lambda>_ _. RecvError),
     time_test = (\<lambda>_. 0), time_set = (\<lambda>_. 0), tick = (\<lambda>_. 0)\<rparr>"

lemma lost_round_runs:
  "\<exists>t. round_of_loop sample_env lost_round (sample_server (sample_slot True) []) = Inr ((), t) \<and>
    connections t = [Initialize (Disconnect (sample_slot True))]"
proof -
  let ?s = "sample_server (sample_slot True) []"
  have used: "slot_used (sample_slot True)" "todc (Disconnect c) = True" "ClientSocket (Disconnect c) = ClientSocket c"
    "Disconnect (Disconnect c) = Disconnect c" "\<not> lastHeartBeat (Initialize c) < 0"
    for c by (simp_all add: sample_slot_def slot_used_def Disconnect_def) (simp add: Initialize_def ClearSendQueue_def)
  have one: "connections ?s = [sample_slot True]" by (simp add: sample_server_def)
  then have "FreeConnection ?s = - 1" using used(1) by (simp add: FreeConnection_def slot_used_def)
  then have acc: "accept_part lost_round ?s = Inr ((), ?s\<lparr>TempSocket := - 1\<rparr>)"
    using AcceptConnection_full [of ?s "pending lost_round"]
    by (simp add: accept_part_def whenP_run act_def lost_round_def)
  let ?u = "?s\<lparr>TempSocket := - 1, connections := [Disconnect (sample_slot True)]\<rparr>"
  have tab: "table_ok (?s\<lparr>TempSocket := - 1\<rparr>)" using sample_table_ok [of True "[]"] by simp
  have "server_ok (?s\<lparr>TempSocket := - 1\<rparr>)" using sample_server_ok [of True "[]"] by (simp add: server_ok_def)
  from server_ok_slot_change [OF this, of 0 "Disconnect (sample_slot True)"]
  have "server_ok ?u" using slot_ok_Disconnect [OF slot_ok_sample] by (simp add: one)
  then have "table_ok ?u" by (simp add: server_ok_def)
  from InitializeConnection_table [OF this, of 0] obtain t where t: "InitializeConnection 0 ?u = Inr t"
    "connections t = [Initialize (Disconnect (sample_slot True))]" by auto
  have "service_slot sample_env lost_round wr 0 (?s\<lparr>TempSocket := - 1\<rparr>) = Inr ((), t)" if "\<not> wr 0" for wr
    using t used that
    by (simp add: service_slot_def slot_def recv_part_def heartbeat_part_def Recv_def prog_simps change_slot_def act_def
        one slot_used_def lost_round_def)
  then show ?thesis using acc t(2)
    by (intro exI [of _ t]) (simp add: round_of_loop_def prog_simps one lost_round_def)
qed


end
