(* ===== verification/Statements.thy ===== *)
theory Statements
  imports Samples
begin

text \<open>
  What SQL text the program sends. Any engine can be observed by wrapping it: \<open>logged\<close> adds to the
  state of the engine the list of the texts it was given, and changes nothing else. A handler that
  runs on the wrapped engine does what it does on the engine itself, and leaves the trace of its
  statements behind.
\<close>

section \<open>The wrapped engine\<close>

definition logged :: "'d dbapi \<Rightarrow> ('d \<times> cppstring list) dbapi" where
  "logged a =
     \<lparr>sqlite3_open = (\<lambda>n (d, l). let (r, d') = sqlite3_open a n d in (r, (d', l))),
      sqlite3_close = (\<lambda>(d, l). let (r, d') = sqlite3_close a d in (r, (d', l))),
      sqlite3_exec = (\<lambda>q (d, l). let (rows, err, d') = sqlite3_exec a q d in (rows, err, (d', l @ [q]))),
      sqlite3_prepare_v2 = (\<lambda>q (d, l). let (r, st, d') = sqlite3_prepare_v2 a q d in (r, st, (d', l @ [q]))),
      sqlite3_step = (\<lambda>st (d, l). let (r, d') = sqlite3_step a st d in (r, (d', l))),
      sqlite3_column_blob = (\<lambda>st c (d, l). sqlite3_column_blob a st c d),
      sqlite3_column_bytes = (\<lambda>st c (d, l). sqlite3_column_bytes a st c d),
      sqlite3_finalize = (\<lambda>st (d, l). (sqlite3_finalize a st d, l)),
      mysql_init = (\<lambda>(d, l). let (b, d') = mysql_init a d in (b, (d', l))),
      mysql_real_connect = (\<lambda>h u p n port (d, l).
        let (b, d') = mysql_real_connect a h u p n port d in (b, (d', l))),
      mysql_real_query = (\<lambda>q (d, l). (mysql_real_query a q d, l @ [q])),
      mysql_store_result = (\<lambda>(d, l). mysql_store_result a d),
      mysql_field_count = (\<lambda>(d, l). mysql_field_count a d),
      mysql_error = (\<lambda>(d, l). mysql_error a d),
      mysql_close = (\<lambda>(d, l). (mysql_close a d, l))\<rparr>"

definition logged_env :: "'d env \<Rightarrow> ('d \<times> cppstring list) env" where
  "logged_env E =
     \<lparr>api = logged (api E), AuthDataDecrypt = AuthDataDecrypt E, SHA256 = SHA256 E,
      rand_value = rand_value E, timeGetTime = timeGetTime E, stof_bits = stof_bits E,
      float_text = float_text E, stack_rival = stack_rival E, stack_sign = stack_sign E\<rparr>"

lemma logged_env_simps [simp]:
  "api (logged_env E) = logged (api E)" "AuthDataDecrypt (logged_env E) = AuthDataDecrypt E"
  "SHA256 (logged_env E) = SHA256 E" "rand_value (logged_env E) = rand_value E"
  "timeGetTime (logged_env E) = timeGetTime E" "float_text (logged_env E) = float_text E"
  "stof_bits (logged_env E) = stof_bits E" "stack_rival (logged_env E) = stack_rival E"
  "stack_sign (logged_env E) = stack_sign E"
  by (simp_all add: logged_env_def)

definition trace :: "('d \<times> cppstring list) database \<Rightarrow> cppstring list" where
  "trace D = snd (eng D)"

section \<open>The wrapper is transparent\<close>

text \<open>The database object without the trace.\<close>

definition plain :: "('d \<times> cppstring list) database \<Rightarrow> 'd database" where
  "plain D =
     \<lparr>results = results D, dbErr = dbErr D, db_type = db_type D, db_username = db_username D,
      db_password = db_password D, db_host = db_host D, db_name = db_name D, db_port = db_port D,
      mysql_set = mysql_set D, eng = fst (eng D)\<rparr>"

definition map_result :: "('s \<Rightarrow> 't) \<Rightarrow> fault + ('a \<times> 's) \<Rightarrow> fault + ('a \<times> 't)" where
  "map_result f r = (case r of Inl e \<Rightarrow> Inl e | Inr (x, s) \<Rightarrow> Inr (x, f s))"

lemma map_result_simps [simp]:
  "map_result f (Inl e) = Inl e" "map_result f (Inr (x, s)) = Inr (x, f s)"
  by (simp_all add: map_result_def)

lemma logged_Open: "map_result plain (Open (logged a) D) = Open a (plain D)"
  by (cases "eng D")
    (simp add: Open_def OpenSqlite_def OpenMysql_def logged_def plain_def case_prod_beta Let_def)

lemma logged_Close: "map_result plain (Close (logged a) D) = Close a (plain D)"
  by (cases "eng D")
    (simp add: Close_def CloseSqlite_def CloseMysql_def logged_def plain_def case_prod_beta Let_def)

lemma logged_ExecMysql: "map_result plain (ExecMysql (logged a) q D) = ExecMysql a q (plain D)"
  by (cases "eng D")
    (auto simp: ExecMysql_def logged_def plain_def case_prod_beta Let_def split: option.splits)

lemma logged_Exec: "map_result plain (Exec (logged a) q D) = Exec a q (plain D)"
  by (cases "eng D"; cases "db_type D = DBTYPE_SQLITE")
    (auto simp: Exec_def ExecSqlite_def ExecMysql_def logged_def plain_def case_prod_beta Let_def
      split: option.splits)

lemma logged_GetBlob: "map_result plain (GetBlob (logged a) q col D) = GetBlob a q col (plain D)"
proof (cases "db_type D = DBTYPE_SQLITE")
  case True
  then show ?thesis
    by (cases "eng D")
      (auto simp: GetBlob_def GetBlobSqlite_def logged_def plain_def case_prod_beta Let_def)
next
  case False
  have "map_result plain (GetBlobMysql (logged a) q col D) = GetBlobMysql a q col (plain D)"
    using logged_ExecMysql [of a q D]
    by (cases "ExecMysql (logged a) q D"; cases "ExecMysql a q (plain D)")
      (auto simp: GetBlobMysql_def bnd_run gets_run lift_def ret_run plain_def split: sum.splits)
  then show ?thesis using False by (simp add: GetBlob_def plain_def)
qed

section \<open>Invariants of the database object\<close>

text \<open>
  What holds of the trace throughout a handler: \<open>I\<close> is kept by a further statement \<open>q\<close> when it
  \<open>admits\<close> it.
\<close>

definition trace_inv :: "(cppstring list \<Rightarrow> bool) \<Rightarrow> ('d \<times> cppstring list) session \<Rightarrow> bool" where
  "trace_inv I s \<longleftrightarrow> I (trace (sdb s))"

definition admits :: "(cppstring list \<Rightarrow> bool) \<Rightarrow> cppstring \<Rightarrow> bool" where
  "admits I q \<longleftrightarrow> (\<forall>l. I l \<longrightarrow> I (l @ [c_str q]))"

lemma admits_all: "P (c_str q) \<Longrightarrow> admits (list_all P) q"
  by (simp add: admits_def)

lemma admits_first: "admits (\<lambda>l. l \<noteq> [] \<and> P (hd l)) q"
  by (simp add: admits_def)

named_theorems trace_rules \<open>what each step of a handler adds to the trace\<close>

lemma trace_Open: "Open (logged a) D = Inr (x, D') \<Longrightarrow> trace D' = trace D"
  by (cases "eng D")
    (auto simp: Open_def OpenSqlite_def OpenMysql_def logged_def trace_def case_prod_beta Let_def
      split: if_splits)

lemma trace_Close: "Close (logged a) D = Inr (x, D') \<Longrightarrow> trace D' = trace D"
  by (cases "eng D")
    (auto simp: Close_def CloseSqlite_def CloseMysql_def logged_def trace_def case_prod_beta Let_def
      split: if_splits)

lemma trace_ExecMysql: "ExecMysql (logged a) q D = Inr (x, D') \<Longrightarrow> trace D' = trace D @ [c_str q]"
  by (cases "eng D")
    (auto simp: ExecMysql_def logged_def trace_def case_prod_beta Let_def
      split: option.splits if_splits)

lemma trace_Exec: "Exec (logged a) q D = Inr (x, D') \<Longrightarrow> trace D' = trace D @ [c_str q]"
proof (cases "db_type D = DBTYPE_SQLITE")
  case True
  then show "Exec (logged a) q D = Inr (x, D') \<Longrightarrow> trace D' = trace D @ [c_str q]"
    by (cases "eng D")
      (auto simp: Exec_def ExecSqlite_def logged_def trace_def case_prod_beta Let_def)
next
  case False
  assume "Exec (logged a) q D = Inr (x, D')"
  then show ?thesis using False trace_ExecMysql by (simp add: Exec_def)
qed

lemma trace_GetBlob: "GetBlob (logged a) q col D = Inr (x, D') \<Longrightarrow> trace D' = trace D @ [c_str q]"
proof (cases "db_type D = DBTYPE_SQLITE")
  case True
  then show "GetBlob (logged a) q col D = Inr (x, D') \<Longrightarrow> trace D' = trace D @ [c_str q]"
    by (cases "eng D")
      (auto simp: GetBlob_def GetBlobSqlite_def logged_def trace_def case_prod_beta Let_def
        split: if_splits)
next
  case False
  assume "GetBlob (logged a) q col D = Inr (x, D')"
  then have "GetBlobMysql (logged a) q col D = Inr (x, D')" using False by (simp add: GetBlob_def)
  then obtain y E where "ExecMysql (logged a) q D = Inr (y, E)" "D' = E"
    by (auto simp: GetBlobMysql_def bnd_run gets_run lift_def ret_run split: sum.splits if_splits)
  then show ?thesis using trace_ExecMysql [of a q D y E] by simp
qed

text \<open>Steps that leave the database object alone, and the four that do not.\<close>

definition leaves_db :: "('d session, 'a) prog \<Rightarrow> bool" where
  "leaves_db m \<longleftrightarrow> (\<forall>s x t. m s = Inr (x, t) \<longrightarrow> sdb t = sdb s)"

lemma leaves_dbD: "leaves_db m \<Longrightarrow> m s = Inr (x, t) \<Longrightarrow> sdb t = sdb s"
  by (simp add: leaves_db_def)

lemma keeps_leaves_db: "leaves_db m \<Longrightarrow> keeps (trace_inv I) m"
  by (rule keepsI) (simp add: trace_inv_def leaves_dbD)

lemma leaves_db_on_in: "leaves_db (on_in f)" "leaves_db (on_in_fault g)"
  by (auto simp: leaves_db_def on_in_def on_in_fault_def Let_def split: prod.splits sum.splits)

lemma leaves_db_out: "leaves_db (out f)" "leaves_db (out_fault g)"
  by (auto simp: leaves_db_def out_def out_fault_def modify_def split: sum.splits)

lemma leaves_db_reads:
  "leaves_db (in_offset n)" "leaves_db in_u8" "leaves_db in_u16" "leaves_db in_u32" "leaves_db in_u64"
  "leaves_db (in_string w)" "leaves_db (in_array w)"
  unfolding in_offset_def in_u8_def in_u16_def in_u32_def in_u64_def in_string_def in_array_def
  by (rule leaves_db_on_in)+

lemma leaves_db_reads_at: "leaves_db (in_u32_at n)" "leaves_db (in_string_at n w)"
  by (auto simp: leaves_db_def in_u32_at_def in_string_at_def split: sum.splits)

lemma leaves_db_writes:
  "leaves_db (out_u8 b)" "leaves_db (out_u32 w)" "leaves_db (out_u64 v)" "leaves_db (out_string t n)"
  "leaves_db (out_set_array bs n)" "leaves_db (out_array bs n)" "leaves_db (out_skip n)"
  "leaves_db (start_reply ty sub)" "leaves_db (out_move n)"
  unfolding out_u8_def out_u32_def out_u64_def out_string_def out_set_array_def out_array_def
    out_skip_def start_reply_def out_move_def
  by (rule leaves_db_out)+

lemma leaves_db_values:
  "leaves_db (hex_of mem w)" "leaves_db (hex_of_string t)" "leaves_db (stoulP t)" "leaves_db (stoullP t)"
  by (auto simp: leaves_db_def hex_of_def hex_of_string_def stoulP_def stoullP_def lift_def split: sum.splits)

lemma leaves_db_slot: "leaves_db (on_slot f)" "leaves_db (on_slot_fault g)"
  by (auto simp: leaves_db_def on_slot_def on_slot_fault_def modify_def split: sum.splits)

lemma leaves_db_value: "leaves_db (db_value r col)"
  by (auto simp: leaves_db_def db_value_def bnd_run gets_run lift_def split: sum.splits)

lemmas leaves_db_all =
  leaves_db_on_in leaves_db_out leaves_db_reads leaves_db_reads_at leaves_db_writes leaves_db_values
  leaves_db_slot leaves_db_value

lemma keeps_trace_plain [trace_rules]:
  "keeps (trace_inv I) (in_offset n)" "keeps (trace_inv I) in_u8"
  "keeps (trace_inv I) in_u16" "keeps (trace_inv I) in_u32" "keeps (trace_inv I) in_u64"
  "keeps (trace_inv I) (in_string w)" "keeps (trace_inv I) (in_array w)"
  "keeps (trace_inv I) (in_u32_at w)" "keeps (trace_inv I) (in_string_at w v)"
  "keeps (trace_inv I) (out_u8 b)" "keeps (trace_inv I) (out_u32 w)"
  "keeps (trace_inv I) (out_u64 d)" "keeps (trace_inv I) (out_string t w)"
  "keeps (trace_inv I) (out_set_array bs w)" "keeps (trace_inv I) (out_array bs w)"
  "keeps (trace_inv I) (out_skip w)" "keeps (trace_inv I) (start_reply ty sub)"
  "keeps (trace_inv I) (out_move w)" "keeps (trace_inv I) (hex_of mem w)"
  "keeps (trace_inv I) (hex_of_string t)" "keeps (trace_inv I) (stoulP t)"
  "keeps (trace_inv I) (stoullP t)" "keeps (trace_inv I) (on_slot f)"
  "keeps (trace_inv I) (on_slot_fault g)" "keeps (trace_inv I) (db_value r t)"
  by (rule keeps_leaves_db, rule leaves_db_all)+

lemma keeps_trace_open [trace_rules]: "keeps (trace_inv I) (db_open (logged_env E))"
  by (rule keepsI) (auto simp: trace_inv_def db_open_def on_db_def dest: trace_Open split: sum.splits)

lemma keeps_trace_close [trace_rules]: "keeps (trace_inv I) (db_close (logged_env E))"
  by (rule keepsI) (auto simp: trace_inv_def db_close_def on_db_def dest: trace_Close split: sum.splits)

lemma keeps_trace_exec [trace_rules]:
  "admits I q \<Longrightarrow> keeps (trace_inv I) (db_exec (logged_env E) q)"
  by (rule keepsI) (auto simp: trace_inv_def admits_def db_exec_def on_db_def dest: trace_Exec split: sum.splits)

lemma keeps_trace_blob [trace_rules]:
  "admits I q \<Longrightarrow> keeps (trace_inv I) (db_blob_of (logged_env E) q)"
  by (rule keepsI) (auto simp: trace_inv_def admits_def db_blob_of_def on_db_def dest: trace_GetBlob split: sum.splits)

lemmas trace_intros = keeps_ret keeps_raise keeps_gets keeps_lift keeps_bnd keeps_stm keeps_whenP
  keeps_if keeps_Let keeps_steps keeps_case_option keeps_both keeps_all_of keeps_case_prod
  keeps_for_each keeps_collect

lemma keeps_trace_parts [trace_rules]:
  "keeps (trace_inv I) in_u8_wide" "keeps (trace_inv I) (in_array_into n old)"
  "keeps (trace_inv I) (out_stoul t)" "keeps (trace_inv I) (out_stoul8 t)"
  "keeps (trace_inv I) (out_stoull t)" "keeps (trace_inv I) (db_close_only (logged_env E))"
  "keeps (trace_inv I) (member_entry t i)"
  unfolding in_u8_wide_def in_array_into_def out_stoul_def out_stoul8_def out_stoull_def
    db_close_only_def member_entry_def
  by (intro trace_intros trace_rules)+

lemma keeps_trace_run_sql [trace_rules]:
  "admits I (sql q) \<Longrightarrow> keeps (trace_inv I) (run_sql (logged_env E) q)"
  unfolding run_sql_def by (intro trace_intros trace_rules)

end
