(* ===== verification/Observation.thy ===== *)
theory Observation
  imports Statements
begin

text \<open>
  The wrapped engine of theory Statements is transparent to whole handlers: on it every handler
  gives the result, the slot and the database object it gives on the engine itself. The relation
  \<open>mirrors\<close> between a program on the wrapped engine and the program on the plain one has a rule per
  program former, as the invariance rules of the prelude do.
\<close>

definition plain_session :: "('d \<times> cppstring list) session \<Rightarrow> 'd session" where
  "plain_session s = \<lparr>cl = cl s, sdb = plain (sdb s)\<rparr>"

definition mirrors :: "(('d \<times> cppstring list) session, 'a) prog \<Rightarrow> ('d session, 'a) prog \<Rightarrow> bool" where
  "mirrors m n \<longleftrightarrow> (\<forall>s. map_result plain_session (m s) = n (plain_session s))"

named_theorems mirror_rules \<open>the wrapped engine is not noticed, one rule per program former\<close>

lemma mirrorsD: "mirrors m n \<Longrightarrow> n (plain_session s) = map_result plain_session (m s)"
  by (simp add: mirrors_def)

lemma mirrors_ret [mirror_rules]: "mirrors (ret x) (ret x)"
  by (simp add: mirrors_def ret_run)

lemma mirrors_raise [mirror_rules]: "mirrors (raise f) (raise f)"
  by (simp add: mirrors_def raise_run)

lemma mirrors_lift [mirror_rules]: "mirrors (lift r) (lift r)"
  by (cases r) (simp_all add: mirrors_def lift_run)

lemma mirrors_bnd [mirror_rules]:
  assumes "mirrors m m'" "\<And>x. mirrors (f x) (f' x)"
  shows "mirrors (bnd m f) (bnd m' f')"
  unfolding mirrors_def
proof
  fix s
  show "map_result plain_session (bnd m f s) = bnd m' f' (plain_session s)"
    using mirrorsD [OF assms(1), of s] mirrorsD [OF assms(2)]
    by (cases "m s") (auto simp: bnd_run split: prod.splits)
qed

lemma mirrors_stm [mirror_rules]: "mirrors m m' \<Longrightarrow> mirrors n n' \<Longrightarrow> mirrors (stm m n) (stm m' n')"
  unfolding stm_def by (intro mirror_rules)

lemma mirrors_if [mirror_rules]:
  "mirrors m m' \<Longrightarrow> mirrors n n' \<Longrightarrow> mirrors (if b then m else n) (if b then m' else n')"
  by simp

lemma mirrors_whenP [mirror_rules]: "mirrors m m' \<Longrightarrow> mirrors (whenP b m) (whenP b m')"
  unfolding whenP_def by (intro mirror_rules)

lemma mirrors_Let [mirror_rules]: "(\<And>x. mirrors (f x) (f' x)) \<Longrightarrow> mirrors (let x = v in f x) (let x = v in f' x)"
  by simp

lemma mirrors_steps [mirror_rules]:
  "mirrors (steps []) (steps [])"
  "mirrors m m' \<Longrightarrow> mirrors (steps ms) (steps ms') \<Longrightarrow> mirrors (steps (m # ms)) (steps (m' # ms'))"
  by (simp_all add: mirrors_ret mirrors_stm)

lemma mirrors_both [mirror_rules]: "mirrors m m' \<Longrightarrow> mirrors n n' \<Longrightarrow> mirrors (both m n) (both m' n')"
  unfolding both_def by (intro mirror_rules)

lemma mirrors_all_of [mirror_rules]:
  "(\<And>x. mirrors (body x) (body' x)) \<Longrightarrow> mirrors (all_of xs body) (all_of xs body')"
  by (induction xs) (simp_all add: mirrors_ret mirrors_both)

lemma mirrors_for_each [mirror_rules]:
  "(\<And>x. mirrors (body x) (body' x)) \<Longrightarrow> mirrors (for_each xs body) (for_each xs body')"
  by (induction xs) (simp_all add: mirrors_ret mirrors_stm)

lemma mirrors_collect [mirror_rules]:
  "(\<And>x. mirrors (body x) (body' x)) \<Longrightarrow> mirrors (collect xs body) (collect xs body')"
  by (induction xs) (simp_all add: mirror_rules)

lemma mirrors_case_option [mirror_rules]:
  "mirrors n n' \<Longrightarrow> (\<And>x. mirrors (m x) (m' x)) \<Longrightarrow>
    mirrors (case v of None \<Rightarrow> n | Some x \<Rightarrow> m x) (case v of None \<Rightarrow> n' | Some x \<Rightarrow> m' x)"
  by (cases v) simp_all

lemma mirrors_case_prod [mirror_rules]:
  "(\<And>a b. mirrors (f a b) (f' a b)) \<Longrightarrow> mirrors (case x of (a, b) \<Rightarrow> f a b) (case x of (a, b) \<Rightarrow> f' a b)"
  by (cases x) simp

text \<open>What is read from the state does not see the engine.\<close>

lemma mirrors_gets: "(\<And>s. f' (plain_session s) = f s) \<Longrightarrow> mirrors (gets f) (gets f')"
  by (simp add: mirrors_def gets_run)

lemma mirrors_gets_parts [mirror_rules]:
  "mirrors (gets (\<lambda>s. results (sdb s))) (gets (\<lambda>s. results (sdb s)))"
  "mirrors (gets (\<lambda>s. length (results (sdb s)))) (gets (\<lambda>s. length (results (sdb s))))"
  "mirrors (gets (\<lambda>s. F (inbuf (cl s)))) (gets (\<lambda>s. F (inbuf (cl s))))"
  "mirrors (gets cl) (gets cl)"
  by (rule mirrors_gets, simp add: plain_session_def plain_def)+

lemma mirrors_on_in [mirror_rules]: "mirrors (on_in f) (on_in f)"
  by (simp add: mirrors_def on_in_def plain_session_def case_prod_beta Let_def)

lemma mirrors_on_in_fault [mirror_rules]: "mirrors (on_in_fault f) (on_in_fault f)"
  by (auto simp: mirrors_def on_in_fault_def plain_session_def split: sum.splits)

lemma mirrors_out [mirror_rules]: "mirrors (out f) (out f)"
  by (simp add: mirrors_def out_def modify_run plain_session_def)

lemma mirrors_out_fault [mirror_rules]: "mirrors (out_fault f) (out_fault f)"
  by (auto simp: mirrors_def out_fault_def plain_session_def split: sum.splits)

lemma mirrors_reads_at [mirror_rules]:
  "mirrors (in_u32_at n) (in_u32_at n)" "mirrors (in_string_at n w) (in_string_at n w)"
  by (auto simp: mirrors_def in_u32_at_def in_string_at_def plain_session_def split: sum.splits)

lemma mirrors_on_slot [mirror_rules]: "mirrors (on_slot f) (on_slot f)"
  by (simp add: mirrors_def on_slot_def modify_run plain_session_def)

lemma mirrors_on_slot_fault [mirror_rules]: "mirrors (on_slot_fault f) (on_slot_fault f)"
  by (auto simp: mirrors_def on_slot_fault_def plain_session_def split: sum.splits)

lemma mirrors_on_db:
  assumes "\<And>D. map_result plain (m D) = n (plain D)"
  shows "mirrors (on_db m) (on_db n)"
  unfolding mirrors_def
proof
  fix s
  show "map_result plain_session (on_db m s) = on_db n (plain_session s)"
    using assms [of "sdb s"]
    by (cases "m (sdb s)") (auto simp: on_db_def plain_session_def split: prod.splits sum.splits)
qed

lemma mirrors_db [mirror_rules]:
  "mirrors (db_open (logged_env E)) (db_open E)" "mirrors (db_close (logged_env E)) (db_close E)"
  "mirrors (db_exec (logged_env E) q) (db_exec E q)"
  "mirrors (db_blob_of (logged_env E) q) (db_blob_of E q)"
  unfolding db_open_def db_close_def db_exec_def db_blob_of_def logged_env_simps
  by (rule mirrors_on_db, simp add: logged_Open logged_Close logged_Exec logged_GetBlob)+

lemmas session_defs =
  in_offset_def in_u8_def in_u16_def in_u32_def in_u64_def in_string_def in_array_def out_u8_def
  out_u32_def out_u64_def out_string_def out_set_array_def out_array_def out_skip_def
  start_reply_def db_value_def hex_of_def hex_of_string_def stoulP_def stoullP_def in_u8_wide_def
  in_array_into_def read_car_def run_sql_def upsert_def db_close_only_def out_stoul_def
  out_stoul8_def out_stoull_def out_move_def

section \<open>The handlers\<close>

lemma mirrors_find_rank [mirror_rules]: "mirrors (find_rank l n is) (find_rank l n is)"
  by (induction "is") (simp_all add: mirrors_ret db_value_def, intro mirror_rules)

lemma mirrors_client_requests [mirror_rules]:
  "mirrors (save_client_data (logged_env E)) (save_client_data E)"
  "mirrors (swap_car (logged_env E)) (swap_car E)"
  "mirrors (remove_car (logged_env E)) (remove_car E)"
  unfolding save_client_data_def swap_car_def remove_car_def read_save_def store_save_def
    save_account_def save_rivals_def save_garages_def save_car_def save_items_def save_sign_def
    session_defs logged_env_simps
  by (intro mirror_rules)+

lemma mirrors_as_leader [mirror_rules]:
  "(\<And>t. mirrors (body t) (body' t)) \<Longrightarrow> mirrors (as_leader (logged_env E) l body) (as_leader E l body')"
  unfolding as_leader_def session_defs by (intro mirror_rules)

lemma mirrors_member_entry [mirror_rules]: "mirrors (member_entry l i) (member_entry l i)"
  unfolding member_entry_def session_defs by (intro mirror_rules)

lemma mirrors_team_requests [mirror_rules]:
  "mirrors (create_team (logged_env E)) (create_team E)"
  "mirrors (update_invite (logged_env E)) (update_invite E)"
  "mirrors (update_comment (logged_env E)) (update_comment E)"
  "mirrors (delete_team (logged_env E)) (delete_team E)"
  "mirrors (get_team_data (logged_env E)) (get_team_data E)"
  "mirrors (adjust_team_area (logged_env E)) (adjust_team_area E)"
  "mirrors (remove_member (logged_env E)) (remove_member E)"
  unfolding create_team_def insert_team_def update_invite_def set_invite_def update_comment_def
    delete_team_def drop_team_def get_team_data_def no_team_reply_def team_reply_def
    adjust_team_area_def remove_member_def take_member_def recount_team_def session_defs
  by (intro mirror_rules)+

lemma mirrors_ClientRequests [mirror_rules]: "mirrors (ClientRequests (logged_env E)) (ClientRequests E)"
  unfolding ClientRequests_def in_offset_def by (intro mirror_rules)

lemma mirrors_login_parts [mirror_rules]:
  "mirrors (garage_list (logged_env E) a) (garage_list E a)" "mirrors (ranking (logged_env E) a) (ranking E a)"
  "mirrors (car_list (logged_env E) a) (car_list E a)" "mirrors (item_list (logged_env E) a) (item_list E a)"
  "mirrors (sign_part (logged_env E) a) (sign_part E a)" "mirrors (team_part (logged_env E) a) (team_part E a)"
  unfolding garage_list_def ranking_def car_list_def car_entry_def item_list_def sign_part_def
    team_part_def team_found_def session_defs logged_env_simps
  by (intro mirror_rules)+

lemma password_hash_logged [simp]: "password_hash (logged_env E) p = password_hash E p"
  by (simp add: password_hash_def GetHash_def)

lemma mirrors_ClientAuth [mirror_rules]: "mirrors (ClientAuth (logged_env E)) (ClientAuth E)"
  unfolding ClientAuth_def login_def login_check_def login_account_def read_account_def
    already_logged_in_def login_failed_def player_data_def player_details_def handle_check_def
    session_defs logged_env_simps password_hash_logged
  by (intro mirror_rules)

lemma mirrors_ServerAuth [mirror_rules]: "mirrors (ServerAuth (logged_env E) conns) (ServerAuth E conns)"
  unfolding ServerAuth_def key_check_def accept_key_def heartbeat_received_def session_defs logged_env_simps
  by (intro mirror_rules)

section \<open>The sample engine, wrapped\<close>

definition logged_db :: "answer list \<Rightarrow> (answer list \<times> cppstring list) database" where
  "logged_db d = new_Database DBTYPE_SQLITE [] [] [] ''sbol.db'' 3306 (d, [])"

definition logged_session :: "client \<Rightarrow> answer list \<Rightarrow> (answer list \<times> cppstring list) session" where
  "logged_session c d = \<lparr>cl = c, sdb = logged_db d\<rparr>"

definition logged_server :: "client \<Rightarrow> answer list \<Rightarrow> (answer list \<times> cppstring list) server" where
  "logged_server c d = (new_Server False)
     \<lparr>connections := [c], serverConnections := [0], serverNumConnections := 1,
      db := Some (logged_db d), running := True\<rparr>"

lemma logged_db_simps [simp]:
  "db_type (logged_db d) = DBTYPE_SQLITE" "eng (logged_db d) = (d, [])" "trace (logged_db d) = []"
  "results (logged_db d) = []"
  by (simp_all add: logged_db_def new_Database_def trace_def)

lemma logged_sample_Exec:
  "db_type D = DBTYPE_SQLITE \<Longrightarrow> Exec (logged sample_api) q D =
     Inr (int (length (fst (next_answer (fst (eng D))))),
       D\<lparr>results := map DatabaseCallback (fst (next_answer (fst (eng D)))), dbErr := [],
         eng := (snd (next_answer (fst (eng D))), snd (eng D) @ [c_str q])\<rparr>)"
  by (cases "eng D") (simp add: Exec_def ExecSqlite_def sample_api_def logged_def case_prod_beta Let_def)

lemma logged_sample_Open: "db_type D = DBTYPE_SQLITE \<Longrightarrow> Open (logged sample_api) D = Inr (0, D)"
  and logged_sample_Close: "db_type D = DBTYPE_SQLITE \<Longrightarrow> Close (logged sample_api) D = Inr (0, D)"
  by (cases "eng D"; simp add: Open_def OpenSqlite_def Close_def CloseSqlite_def sample_api_def logged_def
      case_prod_beta Let_def)+

lemma logged_session_simps [simp]: "cl (logged_session c d) = c" "sdb (logged_session c d) = logged_db d"
  by (simp_all add: logged_session_def)

lemma sample_env_simps [simp]:
  "api sample_env = sample_api" "rand_value sample_env = 40" "timeGetTime sample_env = 1000"
  "AuthDataDecrypt sample_env k s = Some s" "SHA256 sample_env bs = Some (replicate 32 7)"
  by (simp_all add: sample_env_def)

lemmas logged_runs =
  logged_sample_Exec logged_sample_Open logged_sample_Close on_db_def db_open_def db_exec_def
  db_close_def prog_simps DB_OK_def

end
