(* ===== verification/Sql_Properties.thy ===== *)
theory Sql_Properties
  imports Observation
begin

text \<open>
  The SQL statements of the handlers: whether the text of a request stays inside its literals, and
  which statements a handler can send at all.
\<close>

section \<open>Hexadecimal literals\<close>

lemma hex_end_result: "hex_end cap i acc = Inr h \<Longrightarrow> h = acc"
  by (simp add: hex_end_def split: if_splits)

lemma hex_loop_is_hex: "hex_loop mem cap len i acc = Inr h \<Longrightarrow> acc = hex as \<Longrightarrow> \<exists>bs. h = hex bs"
proof (induction mem cap len i acc arbitrary: as rule: hex_loop.induct)
  case (1 mem cap len i acc)
  have acc: "acc @ hex2 (mem ! i) = hex (as @ [mem ! i])" using "1.prems"(2) by simp
  note step = "1.IH" [OF _ _ _ refl _ _ acc]
  have more: "\<exists>bs. hex as @ hex2 b = hex bs" for b by (rule exI [of _ "as @ [b]"]) simp
  show ?case
    using "1.prems" acc step more
    by (subst (asm) hex_loop.simps) (auto simp: Let_def split: if_splits dest!: hex_end_result)
qed

lemma HexString_to_is_hex: "HexString_to [] cap mem n = Inr h \<Longrightarrow> \<exists>bs. h = hex bs"
  using hex_loop_is_hex [of _ cap "unat n" 0 "[]" h "[]"]
  by (cases mem) (auto simp: HexString_to_def intro: exI [of _ "[]"])

lemma HexString_is_hex: "HexString mem n = Inr h \<Longrightarrow> \<exists>bs. h = hex bs"
  unfolding HexString_def by (rule HexString_to_is_hex)

lemma password_hash_is_hex: "password_hash E p = Inr h \<Longrightarrow> \<exists>bs. h = hex bs"
  unfolding password_hash_def Let_def by (rule HexString_to_is_hex)

text \<open>What follows a call of \<open>HexString\<close> may rely on the form of its result.\<close>

lemma keeps_after_lift:
  assumes "\<And>x. r = Inr x \<Longrightarrow> keeps P (f x)"
  shows "keeps P (bnd (lift r) f)"
  using assms by (cases r) (simp_all add: keeps_def triple_def bnd_run lift_run)

lemma keeps_after_hex:
  assumes "\<And>bs. keeps P (f (hex bs))"
  shows "keeps P (bnd (hex_of mem n) f)"
  unfolding hex_of_def using assms HexString_is_hex by (intro keeps_after_lift) blast

lemma keeps_after_hex_string:
  "(\<And>bs. keeps P (f (hex bs))) \<Longrightarrow> keeps P (bnd (hex_of_string t) f)"
  unfolding hex_of_string_def by (rule keeps_after_hex)

lemma nul_not_hex: "CHR 0x00 \<notin> set (hex bs)"
  using hex_chars [of bs] by (auto simp: list_all_iff is_hex_def is_digit_def less_eq_char_def)

lemma c_str_id: "CHR 0x00 \<notin> set q \<Longrightarrow> c_str q = q"
  unfolding c_str_def by (intro takeWhile_eq_all_conv [THEN iffD2]) auto

lemma c_str_append: "CHR 0x00 \<notin> set p \<Longrightarrow> c_str (p @ q) = p @ c_str q"
  by (induction p) (auto simp: c_str_def)

section \<open>The shape of a statement\<close>

text \<open>
  The text of a statement outside its string literals; the flag says whether one is open. A doubled
  quote inside a literal closes it and opens it again.
\<close>

fun shape :: "bool \<Rightarrow> cppstring \<Rightarrow> cppstring" where
  "shape b [] = []"
| "shape False (c # cs) = c # shape (c = CHR 0x27) cs"
| "shape True (c # cs) = (if c = CHR 0x27 then c # shape False cs else shape True cs)"

lemma shape_outside: "CHR 0x27 \<notin> set xs \<Longrightarrow> shape False (xs @ ys) = xs @ shape False ys"
  by (induction xs) auto

lemma shape_inside: "CHR 0x27 \<notin> set xs \<Longrightarrow> shape True (xs @ ys) = shape True ys"
  by (induction xs) auto

lemma shape_quoted:
  "CHR 0x27 \<notin> set h \<Longrightarrow> shape False (quoted h @ ys) = [CHR 0x27, CHR 0x27] @ shape False ys"
  using shape_inside [of h "CHR 0x27 # ys"] by (simp add: quoted_def)

lemma shape_quoted_end: "CHR 0x27 \<notin> set h \<Longrightarrow> shape False (quoted h) = [CHR 0x27, CHR 0x27]"
  using shape_quoted [of h "[]"] by simp

lemmas shape_hex = shape_quoted [OF hex_no_quote] shape_quoted_end [OF hex_no_quote]

definition login_shape :: cppstring where
  "login_shape = shape False (login_sql [] [])"

definition handle_shape :: cppstring where
  "handle_shape = shape False (handle_sql [])"

lemma login_sql_shape: "shape False (login_sql (hex u) (hex p)) = login_shape"
  by (simp add: login_shape_def login_sql_def shape_hex shape_quoted shape_quoted_end)

lemma handle_sql_shape: "shape False (handle_sql (hex h)) = handle_shape"
  by (simp add: handle_shape_def handle_sql_def shape_hex shape_quoted_end)

lemma login_sql_plain: "c_str (login_sql (hex u) (hex p)) = login_sql (hex u) (hex p)"
  by (rule c_str_id) (simp add: login_sql_def quoted_def nul_not_hex)

lemma handle_sql_plain: "c_str (handle_sql (hex h)) = handle_sql (hex h)"
  by (rule c_str_id) (simp add: handle_sql_def quoted_def nul_not_hex)

section \<open>Names in queries\<close>

text \<open>The first statement is what is looked at; anything may follow it.\<close>

definition first_is :: "(cppstring \<Rightarrow> bool) \<Rightarrow> cppstring list \<Rightarrow> bool" where
  "first_is P l \<longleftrightarrow> l \<noteq> [] \<and> P (hd l)"

definition none_or_first :: "(cppstring \<Rightarrow> bool) \<Rightarrow> cppstring list \<Rightarrow> bool" where
  "none_or_first P l \<longleftrightarrow> l = [] \<or> P (hd l)"

lemma admits_first_is: "admits (first_is P) q"
  by (simp add: admits_def first_is_def)

lemma keeps_first_statement:
  assumes "P (c_str q)" "keeps (trace_inv (first_is P)) m"
  shows "keeps (trace_inv (none_or_first P)) (stm (db_exec (logged_env E) q) m)"
proof (rule keepsI)
  fix s x t assume s: "trace_inv (none_or_first P) s"
    and r: "stm (db_exec (logged_env E) q) m s = Inr (x, t)"
  obtain n u where u: "db_exec (logged_env E) q s = Inr (n, u)" "m u = Inr (x, t)"
    using r by (auto simp: stm_run split: sum.splits)
  have "trace (sdb u) = trace (sdb s) @ [c_str q]"
    using u(1) by (auto simp: db_exec_def on_db_def dest: trace_Exec split: sum.splits)
  then have "trace_inv (first_is P) u"
    using s assms(1) by (cases "trace (sdb s)") (auto simp: trace_inv_def first_is_def none_or_first_def)
  then have "trace_inv (first_is P) t" using keepsD [OF assms(2) _ u(2)] by blast
  then show "trace_inv (none_or_first P) t" by (simp add: trace_inv_def first_is_def none_or_first_def)
qed

lemma keeps_trace_find_rank [trace_rules]: "keeps (trace_inv I) (find_rank l n is)"
  by (induction "is") (simp_all add: trace_intros trace_rules)

lemma keeps_first_login:
  "keeps (trace_inv (first_is P)) (login_account (logged_env E) k)"
  unfolding login_account_def read_account_def already_logged_in_def player_data_def
    player_details_def ranking_def garage_list_def car_list_def car_entry_def item_list_def
    sign_part_def team_part_def team_found_def
  by (intro trace_intros trace_rules admits_first_is)

definition name_query :: "cppstring \<Rightarrow> bool" where
  "name_query q \<longleftrightarrow> shape False q = login_shape \<or> shape False q = handle_shape"

lemma name_query_login: "name_query (c_str (login_sql (hex u) (hex p)))"
  by (simp add: name_query_def login_sql_plain login_sql_shape)

lemma name_query_handle: "name_query (c_str (handle_sql (hex h)))"
  by (simp add: name_query_def handle_sql_plain handle_sql_shape)

lemma keeps_login_check:
  "keeps (trace_inv (none_or_first name_query)) (login_check (logged_env E) k u pw)"
proof -
  have tail: "keeps (trace_inv (first_is name_query))
      (bnd (gets (\<lambda>s. length (results (sdb s)))) (\<lambda>n.
       bnd (if n = 1 then login_account (logged_env E) k else ret False) (\<lambda>good.
       if good then ret () else login_failed k)))"
    unfolding login_failed_def by (intro trace_intros trace_rules keeps_first_login)
  have hashed: "keeps (trace_inv (none_or_first name_query))
      (bnd (lift (case pw of None \<Rightarrow> Inl OutOfBounds | Some pw \<Rightarrow> password_hash (logged_env E) pw))
        (\<lambda>cryptoPWHEX. stm (db_exec (logged_env E) (login_sql (hex bs) cryptoPWHEX))
          (bnd (gets (\<lambda>s. length (results (sdb s)))) (\<lambda>n.
           bnd (if n = 1 then login_account (logged_env E) k else ret False) (\<lambda>good.
           if good then ret () else login_failed k)))))" for bs
  proof (rule keeps_after_lift)
    fix h assume "(case pw of None \<Rightarrow> Inl OutOfBounds | Some pw \<Rightarrow> password_hash (logged_env E) pw) = Inr h"
    then obtain c where "h = hex c" using password_hash_is_hex by (auto split: option.splits)
    then show "keeps (trace_inv (none_or_first name_query))
      (stm (db_exec (logged_env E) (login_sql (hex bs) h))
          (bnd (gets (\<lambda>s. length (results (sdb s)))) (\<lambda>n.
           bnd (if n = 1 then login_account (logged_env E) k else ret False) (\<lambda>good.
           if good then ret () else login_failed k))))"
      using keeps_first_statement [OF name_query_login tail] by simp
  qed
  show ?thesis unfolding login_check_def by (rule keeps_after_hex_string) (rule hashed)
qed

lemma keeps_handle_query:
  "keeps (trace_inv (none_or_first name_query))
    (bnd (db_exec (logged_env E) (handle_sql (hex h))) (\<lambda>res. if res \<noteq> 0 then out_u8 1 else out_u8 0))"
proof -
  have "keeps (trace_inv (first_is name_query)) (out_u8 b :: (('a \<times> cppstring list) session, unit) prog)" for b
    by (rule trace_rules)
  then show ?thesis
    using name_query_handle [of h]
    by (intro keepsI)
      (auto simp: bnd_run db_exec_def on_db_def trace_inv_def none_or_first_def hd_append
        dest!: trace_Exec leaves_dbD [OF leaves_db_writes(1)] split: sum.splits if_splits)
qed

lemma keeps_ClientAuth_queries:
  "keeps (trace_inv (none_or_first name_query)) (ClientAuth (logged_env E))"
  unfolding ClientAuth_def login_def handle_check_def
  by (intro trace_intros keeps_login_check keeps_after_hex_string keeps_handle_query trace_rules)

text \<open>
  C23: The name, the password and the handle of a login or handle request cannot change the statement
  they are put into: whatever they contain, the first statement the request causes has, outside its
  string literals, one of two fixed texts.
\<close>

theorem names_stay_inside_their_literals:
  assumes "ClientAuth (logged_env E) s = Inr (a, t)" "trace (sdb s) = []" "trace (sdb t) \<noteq> []"
  shows "shape False (hd (trace (sdb t))) \<in> {login_shape, handle_shape}"
  using keepsD [OF keeps_ClientAuth_queries _ assms(1)] assms(2,3)
  by (auto simp: trace_inv_def none_or_first_def name_query_def)

lemma hex_of_string_run:
  assumes "t \<noteq> []" "length t \<le> MAX_MESG_LEN"
  shows "hex_of_string t s = Inr (hex (bytes_of t), s)"
proof -
  have n: "unat (word_of_nat (length t) :: u32) = length t"
    using assms(2) by (simp add: unat_of_nat MAX_MESG_LEN_def)
  then have "word_of_nat (length t) \<noteq> (0 :: u32)" using assms(1) by (metis length_0_conv unat_0)
  then have "0 < (word_of_nat (length t) :: u32)" by (simp add: word_greater_zero_iff)
  then have "HexString (bytes_of t @ [0]) (word_of_nat (length t)) = Inr (hex (bytes_of t))"
    using assms(2) n HexString_len [of "word_of_nat (length t)" "bytes_of t @ [0]"] by simp
  then show ?thesis by (simp add: hex_of_string_def hex_of_def lift_run)
qed

text \<open>A handle that is a quote and a semicolon.\<close>

definition handle_request :: packet where
  "handle_request = sample_request 1 1 [[7, 0, 0, 0], [0x27, 0x3B]]"

lemma handle_request_buffer:
  "buffer handle_request = [0, 0, 1, 0, 1, 0, 7, 0, 0, 0, 0x27, 0x3B] @ replicate 8180 0"
  using sample_request_buffer [of "[[7, 0, 0, 0], [0x27, 0x3B]]" 1 1]
  by (simp add: handle_request_def le_bytes_def numeral_2_eq_2)

lemma handle_request_reads:
  "getSubType handle_request = 1" "get_bytes_at 4 6 handle_request = Inr [7, 0, 0, 0]"
  "getString_sized 10 16 handle_request = Inr (string_of [0x27, 0x3B])"
proof -
  let ?b = "[0, 0, 1, 0, 1, 0, 7, 0, 0, 0, 0x27, 0x3B] @ replicate 8180 0 :: byte list"
  show "getSubType handle_request = 1" "get_bytes_at 4 6 handle_request = Inr [7, 0, 0, 0]"
    by (simp_all add: getSubType_def get_bytes_at_def block_def handle_request_buffer)
  have d: "drop 10 (buffer handle_request) = [0x27, 0x3B] @ replicate 8180 0"
    by (simp add: handle_request_buffer)
  have "cstr (drop 10 (buffer handle_request)) = [0x27, 0x3B]"
    unfolding d by (simp add: cstr_def takeWhile_replicate)
  then show "getString_sized 10 16 handle_request = Inr (string_of [0x27, 0x3B])"
    by (simp add: getString_sized_def string_max_size_def copy_ok_def c_string_at_def d)
qed

theorem names_stay_inside_their_literals_witness:
  "\<exists>t. ClientAuth (logged_env sample_env)
      (logged_session ((sample_slot True)\<lparr>inbuf := handle_request\<rparr>) []) = Inr (FallOut, t) \<and>
    trace (sdb t) \<noteq> [] \<and> shape False (hd (trace (sdb t))) \<in> {login_shape, handle_shape}"
proof -
  let ?s = "logged_session ((sample_slot True)\<lparr>inbuf := handle_request\<rparr>) []"
  let ?h = "tolower (string_of [0x27, 0x3B])"
  have h: "?h \<noteq> []" "length ?h \<le> MAX_MESG_LEN"
    by (simp_all add: tolower_def string_of_def MAX_MESG_LEN_def)
  obtain t where t: "ClientAuth (logged_env sample_env) ?s = Inr (FallOut, t)" "trace (sdb t) \<noteq> []"
    by (simp add: ClientAuth_def handle_check_def in_u32_at_def in_string_at_def handle_request_reads
        hex_of_string_run [OF h] start_reply_def out_def out_u32_def out_u8_def db_close_only_def
        logged_runs trace_def)
  from names_stay_inside_their_literals [OF t(1) _ t(2)] t show ?thesis by auto
qed

section \<open>The handle of a save request\<close>

lemma dec_plain: "CHR 0x00 \<notin> set (dec n)" "CHR 0x27 \<notin> set (dec n)"
  using dec_digits [of n] is_digit_not by (auto simp: list_all_iff)


definition sample_save :: "cppstring \<Rightarrow> save_data" where
  "sample_save handle =
     \<lparr>sv_license = 100001, sv_handle = handle, sv_CP = 5, sv_level = 1, sv_points = 0,
      sv_playerWin = 0, sv_playerLose = 0, sv_rivalWin = 0, sv_rivalLose = 0,
      sv_rivalStatus = replicate 1200 0, sv_activeCar = 0, sv_privileges = 0, sv_notBeginner = 0,
      sv_teamId = 0, sv_garages = [], sv_cars = [], sv_items = [], sv_sign = replicate 54 0\<rparr>"


end
