(* ===== verification/Security_Properties.thy ===== *)
theory Security_Properties
  imports Sql_Properties
begin

text \<open>
  Who may do what: what a peer that has not proved a key can reach, when a peer becomes
  authenticated, and which stored keys can be used at all.
\<close>

section \<open>Peers without a key\<close>

definition key_lookup :: "cppstring \<Rightarrow> bool" where
  "key_lookup q \<longleftrightarrow> (\<exists>bs. q = key_sql (hex bs))"

lemma admits_key_lookup: "admits (list_all key_lookup) (key_sql (hex bs))"
proof (rule admits_all)
  have "c_str (key_sql (hex bs)) = key_sql (hex bs)"
    by (rule c_str_id) (simp add: key_sql_def xlit_def quoted_def nul_not_hex)
  then show "key_lookup (c_str (key_sql (hex bs)))" unfolding key_lookup_def by metis
qed

lemma ServerAuth_statements:
  "keeps (trace_inv (list_all key_lookup)) (ServerAuth (logged_env E) conns)"
  unfolding ServerAuth_def key_check_def accept_key_def heartbeat_received_def
  by (intro trace_intros keeps_after_hex trace_rules admits_key_lookup)

text \<open>
  C4: A connection that has not proved that it holds a key reaches nothing: a request of a type
  other than 0 only disconnects it, and a request of type 0 sends at most lookups in the key table
  to the database, whose only variable part is a hexadecimal literal, and changes no other connection.
\<close>

theorem unauthenticated_peer_is_confined:
  assumes "ProcessPacket (logged_env E) k s = Inr t" "\<not> isAuth (connections s ! k)"
    and "db s = Some D" "trace D = []"
  shows "if todc (connections s ! k) then t = s
    else if getType (inbuf (connections s ! k)) \<noteq> 0
    then t = s\<lparr>connections := (connections s)[k := Disconnect (connections s ! k)]\<rparr>
    else \<exists>c D'. t = s\<lparr>connections := (connections s)[k := c], db := Some D'\<rparr> \<and>
      list_all key_lookup (trace D')"
proof -
  let ?c = "connections s ! k"
  have dec: "decrypt_in_place ?c = Inr (Some ?c)" using assms(2) by (simp add: decrypt_in_place_def)
  have ref: "refused ?c \<longleftrightarrow> getType (inbuf ?c) \<noteq> 0"
    using assms(2) by (auto simp: refused_def packet_function_count_def unat_eq_0)
  have id: "s\<lparr>connections := (connections s)[k := ?c]\<rparr> = s" by simp
  show ?thesis
  proof (cases "todc ?c \<or> getType (inbuf ?c) \<noteq> 0")
    case True
    then show ?thesis using assms(1) dec ref by (auto simp: ProcessPacket_def Let_def)
  next
    case False
    then have "finish k (run_handler k (ServerAuth (logged_env E) (connections s)) s) = Inr t"
      using assms(1) dec ref by (simp add: ProcessPacket_def MainPacketFunctions_def Let_def id)
    then obtain a u where u: "ServerAuth (logged_env E) (connections s) \<lparr>cl = ?c, sdb = D\<rparr> = Inr (a, u)"
      and t: "finish k (Inr (a, s\<lparr>connections := (connections s)[k := cl u], db := Some (sdb u)\<rparr>)) = Inr t"
      using assms(3) by (auto simp: run_handler_def finish_def split: sum.splits)
    have "a = Return"
      using u by (auto simp: ServerAuth_def bnd_run stm_run gets_run ret_run Let_def split: sum.splits if_splits)
    moreover have "list_all key_lookup (trace (sdb u))"
      using keepsD [OF ServerAuth_statements _ u] assms(4) by (simp add: trace_inv_def)
    ultimately show ?thesis using t False by (auto simp: finish_def)
  qed
qed


text \<open>A lookup that finds nothing: the peer is disconnected.\<close>

definition key_request :: packet where
  "key_request = setSize 0x20 (sample_request 0 0 [replicate 16 1])"

lemma key_request_fields:
  "getType key_request = 0" "getSubType key_request = 0" "pSize key_request = 0x20"
  "block 6 16 (buffer key_request) = replicate 16 1" "length (buffer key_request) = 8192"
proof -
  have k: "buffer key_request = [0, 0, 0, 0, 0, 0] @ replicate 16 1 @ replicate 8170 0"
    using sample_request_buffer [of "[replicate 16 1]" 0 0]
    by (simp add: key_request_def setSize_def le_bytes_def numeral_2_eq_2)
  show "getType key_request = 0" "getSubType key_request = 0" "block 6 16 (buffer key_request) = replicate 16 1"
    "length (buffer key_request) = 8192"
    by (simp_all add: getType_def getSubType_def block_def k numeral_eq_Suc)
  show "pSize key_request = 0x20" by (simp add: key_request_def setSize_def)
qed

theorem unauthenticated_peer_is_confined_witness:
  "\<exists>t D. ProcessPacket (logged_env sample_env) 0
      (logged_server ((sample_slot False)\<lparr>inbuf := key_request\<rparr>) []) = Inr t \<and>
    db t = Some D \<and> list_all key_lookup (trace D)"
proof -
  let ?c = "(sample_slot False)\<lparr>inbuf := key_request\<rparr>"
  let ?s = "logged_server ?c []"
  have c: "isAuth ?c = False" "todc ?c = False"
    by (simp_all add: sample_slot_def new_CLIENT_def Initialize_def ClearSendQueue_def)
  have conn: "connections ?s = [?c]" "db ?s = Some (logged_db [])" by (simp_all add: logged_server_def)
  have arr: "getArray_at 16 6 key_request = Inr (Some (replicate 16 1))"
    by (simp add: getArray_at_def copy_ok_def key_request_fields)
  have hx: "HexString (replicate 16 1) 16 = Inr (hex (replicate 16 1))"
    using HexString_len [of 16 "replicate 16 1"] by (simp add: MAX_MESG_LEN_def)
  have "\<exists>t. ProcessPacket (logged_env sample_env) 0 ?s = Inr t"
    using c
    by (simp add: ProcessPacket_def decrypt_in_place_def refused_def key_request_fields conn
        MainPacketFunctions_def run_handler_def ServerAuth_def key_check_def hex_of_def arr hx
        logged_runs on_slot_def finish_def Let_def)
  then obtain t where t: "ProcessPacket (logged_env sample_env) 0 ?s = Inr t" ..
  from unauthenticated_peer_is_confined [OF t, of "logged_db []"] show ?thesis
    using t c conn by (auto simp: key_request_fields)
qed

section \<open>Authentication\<close>

lemma key_check_lookup:
  assumes "key_check E conns s = Inr (x, t)" "wf_packet (inbuf (cl s))"
  shows "isAuth (cl t) = isAuth (cl s) \<or>
    (\<exists>s1 s2 n g. db_open E s = Inr (DB_OK, s1) \<and> n \<noteq> 0 \<and>
      db_exec E (key_sql (hex (block 6 16 (buffer (inbuf (cl s)))))) s1 = Inr (n, s2) \<and>
      (\<exists>s3. accept_key E conns s2 = Inr (g, s3) \<and> cl t = cl s3))"
proof -
  let ?v = "block 6 16 (buffer (inbuf (cl s)))"
  have arr: "getArray_at 16 6 (inbuf (cl s)) = Inr (Some ?v)" by (simp add: getArray_at_def copy_ok_def)
  have "length ?v = 16" using assms(2) by (simp add: wf_length)
  then have hx: "HexString ?v 16 = Inr (hex ?v)" using HexString_len [of 16 ?v] by (simp add: MAX_MESG_LEN_def)
  obtain r s1 where o1: "db_open E s = Inr (r, s1)"
    and rest: "whenP (r = DB_OK)
       (bnd (hex_of ?v 16) (\<lambda>ivStr.
        bnd (db_exec E (key_sql ivStr)) (\<lambda>res.
        bnd (if res \<noteq> 0 then accept_key E conns else stm (on_slot Disconnect) (ret True)) (\<lambda>go.
        whenP go (stm (db_close E) (ret ())))))) s1 = Inr (x, t)"
    using assms(1) arr by (auto simp: key_check_def prog_simps split: sum.splits prod.splits)
  have c1: "cl s1 = cl s" using db_open_run [OF o1] .
  show ?thesis
  proof (cases "r = DB_OK")
    case False
    then show ?thesis using rest c1 by (simp add: prog_simps)
  next
    case True
    then obtain n s2 g s3 where e: "db_exec E (key_sql (hex ?v)) s1 = Inr (n, s2)"
      and a: "(if n \<noteq> 0 then accept_key E conns else stm (on_slot Disconnect) (ret True)) s2 = Inr (g, s3)"
      and w: "whenP g (stm (db_close E) (ret ())) s3 = Inr (x, t)"
      using rest hx by (auto simp: prog_simps hex_of_def split: sum.splits prod.splits)
    have c2: "cl s2 = cl s" using db_exec_run [OF e] c1 by simp
    have c3: "cl t = cl s3"
      using w by (auto simp: prog_simps dest!: db_close_run split: if_splits sum.splits)
    show ?thesis
    proof (cases "n = 0")
      case True
      then have "cl s3 = Disconnect (cl s)" using a c2 by (auto simp: prog_simps on_slot_def)
      then show ?thesis using c3 by (simp add: Disconnect_def)
    next
      case False
      then show ?thesis using a e c3 o1 True by auto
    qed
  qed
qed

lemma accept_key_result:
  assumes "accept_key E conns s = Inr (g, t)" "isAuth (cl t) \<noteq> isAuth (cl s)"
    and "slot_ok (cl s)" "slot_used (cl s)"
  shows "\<exists>v k. GetValue (results (sdb s)) 0 0 = Inr v \<and> GetValue (results (sdb s)) 0 1 = Inr k \<and>
    iv (cl t) = take 16 (bytes_of v @ [0]) \<and> key (cl t) = take 32 (bytes_of k @ [0]) \<and>
    already_connected v k conns = Inr False"
proof -
  obtain v k b where g: "already_connected v k conns = Inr b"
    and vk: "GetValue (results (sdb s)) 0 0 = Inr v" "GetValue (results (sdb s)) 0 1 = Inr k"
    and rest: "(if b then stm (steps [on_slot Disconnect, stm (db_close E) (ret ())]) (ret False)
      else bnd (lift (c_str_mem BLOCK_SIZE v)) (\<lambda>vm.
          bnd (lift (c_str_mem KEY_SIZE k)) (\<lambda>km.
          stm (steps
            [on_slot (\<lambda>c. c\<lparr>iv := overwrite 0 vm (iv c)\<rparr>),
             on_slot (\<lambda>c. c\<lparr>key := overwrite 0 km (key c)\<rparr>),
             on_slot SetAuth,
             on_slot_fault (sendAuth (rand_value E))])
          (ret True)))) s = Inr (g, t)"
    using assms(1) by (auto simp: accept_key_def prog_simps lift_result split: sum.splits)
  have b: "\<not> b"
    using rest assms(2)
    by (auto simp: prog_simps on_slot_def Disconnect_def dest!: db_close_run split: sum.splits if_splits)
  then obtain vm km where m: "c_str_mem BLOCK_SIZE v = Inr vm" "c_str_mem KEY_SIZE k = Inr km"
    and sa: "sendAuth (rand_value E) (SetAuth ((cl s)\<lparr>iv := overwrite 0 vm (iv (cl s)),
      key := overwrite 0 km (key (cl s))\<rparr>)) = Inr (cl t)"
    using rest by (auto simp: prog_simps lift_result on_slot_def on_slot_fault_def split: sum.splits)
  have len: "length vm = 16" "length km = 32"
    using c_str_mem_length [OF m(1)] c_str_mem_length [OF m(2)] by (simp_all add: BLOCK_SIZE_def KEY_SIZE_def)
  have "length (iv (cl s)) = 16" "length (key (cl s)) = 32" using assms(3) by (simp_all add: slot_ok_def)
  then have "iv (cl t) = vm" "key (cl t) = km"
    using sendAuth_ok [OF sa slot_ok_with_key [OF assms(3,4) len]] len
    by (simp_all add: same_peer_def SetAuth_def overwrite_all)
  then show ?thesis using m vk g b
    by (auto simp: c_str_mem_def BLOCK_SIZE_def KEY_SIZE_def split: if_splits)
qed

text \<open>
  C3: A peer becomes authenticated only by a stored key: the server has opened the database and looked
  up the 16 bytes of the request as a vector, the database had a row for it, the key and the vector
  of the slot are the ones of that row, and no other connection holds them.
\<close>

theorem authentication_needs_a_stored_key:
  assumes "ServerAuth E conns s = Inr (a, t)" "\<not> isAuth (cl s)" "isAuth (cl t)"
    and "slot_ok (cl s)" "slot_used (cl s)" "list_all slot_ok conns"
  shows "\<exists>D n D' v k. Open (api E) (sdb s) = Inr (DB_OK, D) \<and>
    Exec (api E) (key_sql (hex (block 6 16 (buffer (inbuf (cl s)))))) D = Inr (n, D') \<and> n \<noteq> 0 \<and>
    GetValue (results D') 0 0 = Inr v \<and> GetValue (results D') 0 1 = Inr k \<and>
    iv (cl t) = take 16 (bytes_of v @ [0]) \<and> key (cl t) = take 32 (bytes_of k @ [0]) \<and>
    (\<forall>c \<in> set conns. peer_key c \<noteq> peer_key (cl t))"
proof -
  obtain x where kc: "key_check E conns s = Inr (x, t)"
    using assms(1-3)
    by (auto simp: ServerAuth_def heartbeat_received_def on_slot_def Let_def prog_simps
        split: sum.splits if_splits)
  have wf: "wf_packet (inbuf (cl s))" using assms(4) by (simp add: slot_ok_def)
  obtain s1 s2 n g s3 where o: "db_open E s = Inr (DB_OK, s1)" "n \<noteq> 0"
    "db_exec E (key_sql (hex (block 6 16 (buffer (inbuf (cl s)))))) s1 = Inr (n, s2)"
    and ak: "accept_key E conns s2 = Inr (g, s3)" "cl t = cl s3"
    using key_check_lookup [OF kc wf] assms(2,3) by blast
  have c2: "cl s2 = cl s" using db_open_run [OF o(1)] db_exec_run [OF o(3)] by simp
  obtain v k where vk: "GetValue (results (sdb s2)) 0 0 = Inr v" "GetValue (results (sdb s2)) 0 1 = Inr k"
    "iv (cl t) = take 16 (bytes_of v @ [0])" "key (cl t) = take 32 (bytes_of k @ [0])"
    using accept_key_result [OF ak(1)] c2 ak(2) assms(2-5) by auto
  have "auth_change conns (cl s) (cl t)"
    using ServerAuth_change [OF assms(1,4-6)] by simp
  then have "\<forall>c \<in> set conns. peer_key c \<noteq> peer_key (cl t)"
    using assms(2,3) by (auto simp: auth_change_def same_peer_def)
  moreover have "Open (api E) (sdb s) = Inr (DB_OK, sdb s1)"
    "Exec (api E) (key_sql (hex (block 6 16 (buffer (inbuf (cl s)))))) (sdb s1) = Inr (n, sdb s2)"
    using o by (auto simp: db_open_def db_exec_def on_db_def split: sum.splits)
  ultimately show ?thesis using o(2) vk by blast
qed

section \<open>A stored key\<close>

lemma sendAuth_runs:
  assumes "slot_ok c" "slot_used c"
  shows "\<exists>d. sendAuth r c = Inr d \<and> same_peer c d \<and> slot_ok d"
proof -
  let ?h = "reply_header 0 0" and ?a = "append_bytes (u32_bytes r)" and ?b = "append_bytes (u32_bytes (r div 8))"
  have h: "setOffset 6 (setSize 6 (setSubType 0 (setType 0 (clearBuffer (outbuf c))))) = ?h"
    by (simp add: reply_header_def setSubType_def setType_def setOffset_def setSize_def clearBuffer_def)
  have f0: "fresh ?h" "unat (pOffset ?h) = 6"
    using reply_header_fresh [of 0 0] length_written [OF reply_header_fresh, of 0 0]
    by (simp_all add: reply_header_written)
  have f1: "fresh (?a ?h)" "unat (pOffset (?a ?h)) = 10"
    using append_fits [of ?h "u32_bytes r"] f0 length_written [of "?a ?h"] length_written [of ?h] by simp_all
  have f2: "fresh (?b (?a ?h))" "unat (pOffset (?b (?a ?h))) = 14"
    using append_fits [of "?a ?h" "u32_bytes (r div 8)"] f1 length_written [of "?b (?a ?h)"]
      length_written [of "?a ?h"] by simp_all
  let ?p = "append_bytes (pad_field 16 ''Tofuman'') (?b (?a ?h))"
  have s: "snd (appendString_as ''Tofuman'' 0x10 (?b (?a ?h))) = ?p"
    using appendString_as_pads [OF f2(1), of "''Tofuman''" "0x10"] f2(2) by simp
  have f3: "fresh ?p" "unat (pOffset ?p) = 30"
    using append_fits [of "?b (?a ?h)" "pad_field 16 ''Tofuman''"] f2 length_written [of ?p]
      length_written [of "?b (?a ?h)"] length_pad_field [of "''Tofuman''" 16] by simp_all
  then have size: "unat (pSize ?p) = 30" by (simp add: fresh_def)
  obtain p' where p': "Send_packet ?p (c\<lparr>outbuf := ?p\<rparr>) = Inr (p', (c\<lparr>outbuf := ?p\<rparr>)\<lparr>sendQueue :=
      sendQueue c @ [padded_entry (frame (drop 2 (written ?p)))]\<rparr>)"
    using Send_frame [of "c\<lparr>outbuf := ?p\<rparr>" ?p] f3(1) size assms(2) by (auto simp: slot_used_def)
  then have "\<exists>d. sendAuth r c = Inr d"
    by (simp add: sendAuth_def h append_u32_def s Send_out_def Let_def)
  then show ?thesis using sendAuth_ok [of r c] assms(1) by blast
qed

text \<open>The row of a key as SQLite hands it over: values end at their first NUL.\<close>

definition key_row :: "byte list \<Rightarrow> byte list \<Rightarrow> (cppstring \<times> byte list option) list" where
  "key_row k v = [(''key'', Some k), (''iv'', Some v)]"

lemma key_row_values:
  "GetValue [DatabaseCallback (key_row k v)] 0 0 = Inr (string_of (cstr v))"
  "GetValue [DatabaseCallback (key_row k v)] 0 1 = Inr (string_of (cstr k))"
  using server_keys_columns(1,2) [of "string_of (cstr k)" "string_of (cstr v)"]
  by (simp_all add: DatabaseCallback_def key_row_def)

lemma cstr_whole: "0 \<notin> set (butlast b) \<Longrightarrow> b \<noteq> [] \<Longrightarrow> take (length b) (cstr b @ [0]) = b"
proof (induction b)
  case (Cons x b)
  then show ?case by (cases "b = []") (auto simp: cstr_def split: if_splits)
qed simp

lemma cstr_cut: "0 \<in> set (butlast b) \<Longrightarrow> length (cstr b) + 1 < length b"
proof (induction b)
  case (Cons x b)
  then show ?case by (cases "b = []") (auto simp: cstr_def split: if_splits)
qed simp

lemma c_str_mem_cstr:
  assumes "length b = n" "0 < n"
  shows "c_str_mem n (string_of (cstr b)) = (if 0 \<in> set (butlast b) then Inl OutOfBounds else Inr b)"
proof (cases "0 \<in> set (butlast b)")
  case True
  then show ?thesis using cstr_cut [of b] assms by (simp add: c_str_mem_def)
next
  case False
  have "length (take (length b) (cstr b @ [0])) = length b"
    using cstr_whole [of b] False assms by (metis length_greater_0_conv)
  then have "\<not> length (cstr b) + 1 < n" using assms(1) by simp
  moreover have "take n (cstr b @ [0]) = b" using cstr_whole [of b] False assms by auto
  ultimately show ?thesis using False by (simp add: c_str_mem_def)
qed

lemma already_connected_cstr:
  assumes "length v = 16" "length k = 32" "0 \<notin> set (butlast v)" "\<forall>c \<in> set conns. slot_ok c"
    and "\<forall>c \<in> set conns. peer_key c \<noteq> (v, k)"
  shows "already_connected (string_of (cstr v)) (string_of (cstr k)) conns = Inr False \<or>
    0 \<in> set (butlast k) \<and> already_connected (string_of (cstr v)) (string_of (cstr k)) conns = Inl OutOfBounds"
  using assms(4,5)
proof (induction conns)
  case (Cons c conns)
  have c: "take BLOCK_SIZE (iv c) = iv c" "take KEY_SIZE (key c) = key c"
    using Cons.prems(1) by (simp_all add: slot_ok_def BLOCK_SIZE_def KEY_SIZE_def)
  show ?case
    using Cons assms c c_str_mem_cstr [of v 16] c_str_mem_cstr [of k 32]
    by (auto simp: BLOCK_SIZE_def KEY_SIZE_def peer_key_def)
qed simp

lemma bnd_lift: "bnd (lift (Inr x)) f = f x" "bnd (lift (Inl e)) f = raise e"
  by (simp_all add: fun_eq_iff bnd_run lift_run raise_run)

lemma accept_key_row:
  assumes "results (sdb s) = [DatabaseCallback (key_row k v)]"
  shows "accept_key E conns s =
    bnd (lift (already_connected (string_of (cstr v)) (string_of (cstr k)) conns)) (\<lambda>connected.
      if connected
      then stm (steps [on_slot Disconnect, stm (db_close E) (ret ())]) (ret False)
      else bnd (lift (c_str_mem BLOCK_SIZE (string_of (cstr v)))) (\<lambda>vm.
           bnd (lift (c_str_mem KEY_SIZE (string_of (cstr k)))) (\<lambda>km.
           stm (steps
             [on_slot (\<lambda>c. c\<lparr>iv := overwrite 0 vm (iv c)\<rparr>),
              on_slot (\<lambda>c. c\<lparr>key := overwrite 0 km (key c)\<rparr>),
              on_slot SetAuth,
              on_slot_fault (sendAuth (rand_value E))])
           (ret True)))) s"
  unfolding accept_key_def
  by (subst bnd_run, simp only: gets_run sum.case prod.case assms key_row_values bnd_lift)

lemma accept_key_bad:
  assumes "results (sdb s) = [DatabaseCallback (key_row k v)]" "length v = 16" "length k = 32"
    and "\<forall>c \<in> set conns. slot_ok c" "\<forall>c \<in> set conns. peer_key c \<noteq> (v, k)" "conns \<noteq> []"
    and "0 \<in> set (butlast k) \<or> 0 \<in> set (butlast v)"
  shows "accept_key E conns s = Inl OutOfBounds"
proof (cases "0 \<in> set (butlast v)")
  case True
  obtain c cs where "conns = c # cs" using assms(6) by (cases conns) auto
  then have "already_connected (string_of (cstr v)) (string_of (cstr k)) conns = Inl OutOfBounds"
    using c_str_mem_cstr [of v 16] assms(2) True by (simp add: BLOCK_SIZE_def)
  then show ?thesis using accept_key_row [OF assms(1), of E conns] by (simp only: bnd_lift raise_run)
next
  case False
  then have bad: "0 \<in> set (butlast k)" using assms(7) by simp
  then have m: "c_str_mem BLOCK_SIZE (string_of (cstr v)) = Inr v"
    "c_str_mem KEY_SIZE (string_of (cstr k)) = Inl OutOfBounds"
    using c_str_mem_cstr [of v 16] c_str_mem_cstr [of k 32] assms(2,3) False
    by (simp_all add: BLOCK_SIZE_def KEY_SIZE_def)
  show ?thesis
    using already_connected_cstr [OF assms(2,3) False assms(4,5)] accept_key_row [OF assms(1), of E conns]
    by (elim disjE conjE; simp only: bnd_lift raise_run if_False m)
qed

lemma accept_key_good:
  assumes "results (sdb s) = [DatabaseCallback (key_row k v)]" "length v = 16" "length k = 32"
    and "\<forall>c \<in> set conns. slot_ok c" "\<forall>c \<in> set conns. peer_key c \<noteq> (v, k)"
    and "0 \<notin> set (butlast k)" "0 \<notin> set (butlast v)" "slot_ok (cl s)" "slot_used (cl s)"
  shows "\<exists>d. accept_key E conns s = Inr (True, s\<lparr>cl := d\<rparr>) \<and> isAuth d \<and> peer_key d = (v, k)"
proof -
  let ?c = "SetAuth ((cl s)\<lparr>iv := overwrite 0 v (iv (cl s)), key := overwrite 0 k (key (cl s))\<rparr>)"
  have m: "c_str_mem BLOCK_SIZE (string_of (cstr v)) = Inr v" "c_str_mem KEY_SIZE (string_of (cstr k)) = Inr k"
    using c_str_mem_cstr [of v 16] c_str_mem_cstr [of k 32] assms(2,3,6,7)
    by (simp_all add: BLOCK_SIZE_def KEY_SIZE_def)
  have ac: "already_connected (string_of (cstr v)) (string_of (cstr k)) conns = Inr False"
    using already_connected_cstr [OF assms(2,3,7,4,5)] assms(6) by simp
  have ok: "slot_ok ?c" by (rule slot_ok_with_key [OF assms(8,9,2,3)])
  have "slot_used ?c" using assms(9) by (simp add: SetAuth_def slot_used_def)
  then obtain d where d: "sendAuth (rand_value E) ?c = Inr d" "same_peer ?c d"
    using sendAuth_runs [OF ok] by blast
  have "length (iv (cl s)) = 16" "length (key (cl s)) = 32" using assms(8) by (simp_all add: slot_ok_def)
  then have "isAuth d" "peer_key d = (v, k)"
    using d(2) assms(2,3) by (simp_all add: same_peer_def SetAuth_def peer_key_def overwrite_all)
  moreover have "accept_key E conns s = Inr (True, s\<lparr>cl := d\<rparr>)"
    unfolding accept_key_row [OF assms(1)] ac bnd_lift m if_False
    using d(1) by (simp add: stm_run ret_run on_slot_def modify_run on_slot_fault_def)
  ultimately show ?thesis by blast
qed

lemma key_check_stored:
  assumes "wf_packet (inbuf (cl s))" "block 6 16 (buffer (inbuf (cl s))) = v"
    and "Open (api E) (sdb s) = Inr (DB_OK, D)"
    and "Exec (api E) (key_sql (hex v)) D = Inr (1, D')"
  shows "key_check E conns s =
    bnd (accept_key E conns) (\<lambda>go. whenP go (stm (db_close E) (ret ()))) (s\<lparr>sdb := D'\<rparr>)"
proof -
  have arr: "getArray_at 16 6 (inbuf (cl s)) = Inr (Some v)" using assms(2) by (simp add: getArray_at_def copy_ok_def)
  have "length v = 16" using assms(1,2) by (auto simp: wf_length)
  then have hx: "hex_of v 16 t = Inr (hex v, t)" for t
    using HexString_len [of 16 v] by (simp add: MAX_MESG_LEN_def hex_of_def lift_run)
  have o: "db_open E s = Inr (DB_OK, s\<lparr>sdb := D\<rparr>)" using assms(3) by (simp add: db_open_def on_db_def)
  have e: "db_exec E (key_sql (hex v)) (s\<lparr>sdb := D\<rparr>) = Inr (1, s\<lparr>sdb := D'\<rparr>)"
    using assms(4) by (simp add: db_exec_def on_db_def)
  have rest: "bnd (hex_of v 16) (\<lambda>ivStr.
        bnd (db_exec E (key_sql ivStr)) (\<lambda>res.
        bnd (if res \<noteq> 0 then accept_key E conns else stm (on_slot Disconnect) (ret True)) (\<lambda>go.
        whenP go (stm (db_close E) (ret ()))))) (s\<lparr>sdb := D\<rparr>) =
      bnd (accept_key E conns) (\<lambda>go. whenP go (stm (db_close E) (ret ()))) (s\<lparr>sdb := D'\<rparr>)"
    by (subst bnd_run, simp only: hx sum.case prod.case, subst bnd_run, simp only: e sum.case prod.case)
      simp
  show ?thesis
    unfolding key_check_def
    by (subst bnd_run, simp only: gets_run sum.case prod.case arr, subst bnd_run,
        simp only: lift_run sum.case prod.case, subst bnd_run, simp only: o sum.case prod.case option.case)
      (simp only: whenP_run if_True rest simp_thms)
qed

lemma ServerAuth_key:
  assumes "getSubType (inbuf (cl s)) = 0" "pSize (inbuf (cl s)) = 0x20" "\<not> isAuth (cl s)"
  shows "ServerAuth E conns s = bnd (key_check E conns) (\<lambda>_. ret Return) s"
  using assms by (simp add: ServerAuth_def bnd_run gets_run stm_run whenP_run Let_def)

lemma db_close_total: "\<exists>n u. db_close E t = Inr (n, u) \<and> cl u = cl t"
  by (cases "Close (api E) (sdb t)")
    (auto simp: db_close_def on_db_def Close_def CloseSqlite_def CloseMysql_def case_prod_beta Let_def
      split: if_splits)

lemma ServerAuth_stored_key:
  assumes "getSubType (inbuf (cl s)) = 0" "pSize (inbuf (cl s)) = 0x20" "\<not> isAuth (cl s)"
    and "slot_ok (cl s)" "slot_used (cl s)" "block 6 16 (buffer (inbuf (cl s))) = v" "length k = 32"
    and "Open (api E) (sdb s) = Inr (DB_OK, D)" "Exec (api E) (key_sql (hex v)) D = Inr (1, D')"
    and "results D' = [DatabaseCallback (key_row k v)]"
    and "conns \<noteq> []" "\<forall>c \<in> set conns. slot_ok c" "\<forall>c \<in> set conns. peer_key c \<noteq> (v, k)"
  shows "if 0 \<in> set (butlast k) \<or> 0 \<in> set (butlast v)
    then ServerAuth E conns s = Inl OutOfBounds
    else \<exists>t. ServerAuth E conns s = Inr (Return, t) \<and> isAuth (cl t) \<and> key (cl t) = k \<and> iv (cl t) = v"
proof -
  let ?s = "s\<lparr>sdb := D'\<rparr>"
  have wf: "wf_packet (inbuf (cl s))" using assms(4) by (simp add: slot_ok_def)
  then have v: "length v = 16" using assms(6) by (auto simp: wf_length)
  have run: "ServerAuth E conns s =
      bnd (bnd (accept_key E conns) (\<lambda>go. whenP go (stm (db_close E) (ret ())))) (\<lambda>_. ret Return) ?s"
    unfolding ServerAuth_key [OF assms(1-3)]
    by (subst (1 2) bnd_run) (simp only: key_check_stored [OF wf assms(6,8,9)])
  have res: "results (sdb ?s) = [DatabaseCallback (key_row k v)]" using assms(10) by simp
  show ?thesis
  proof (cases "0 \<in> set (butlast k) \<or> 0 \<in> set (butlast v)")
    case True
    note bad = accept_key_bad [OF res v assms(7,12,13,11) True, of E]
    have "ServerAuth E conns s = Inl OutOfBounds" unfolding run by (simp only: bnd_run bad sum.case)
    then show ?thesis using True by simp
  next
    case False
    then obtain d where d: "accept_key E conns ?s = Inr (True, ?s\<lparr>cl := d\<rparr>)" "isAuth d" "peer_key d = (v, k)"
      using accept_key_good [OF res v assms(7,12,13), of E] assms(4,5) by auto
    obtain n u where u: "db_close E (?s\<lparr>cl := d\<rparr>) = Inr (n, u)" "cl u = d"
      using db_close_total [of E "?s\<lparr>cl := d\<rparr>"] by auto
    have "ServerAuth E conns s = Inr (Return, u)" unfolding run
      by (simp only: bnd_run d(1) sum.case prod.case whenP_run if_True stm_run u(1) ret_run)
    then show ?thesis using False d(2,3) u(2) by (simp add: peer_key_def)
  qed
qed

text \<open>
  A game server that sends the vector of a stored key is authenticated with that key, and gets the
  answer to it, if no byte of the key or the vector before its last is zero. SQLite's values end at
  the first zero byte, so any other stored key makes the server read past the end of the value
  instead.
\<close>

lemma stored_key_authenticates:
  assumes "getSubType (inbuf (cl s)) = 0" "pSize (inbuf (cl s)) = 0x20" "\<not> isAuth (cl s)"
    and "slot_ok (cl s)" "slot_used (cl s)" "block 6 16 (buffer (inbuf (cl s))) = v" "length k = 32"
    and "Open (api E) (sdb s) = Inr (DB_OK, D)" "Exec (api E) (key_sql (hex v)) D = Inr (1, D')"
    and "results D' = [DatabaseCallback (key_row k v)]"
    and "conns \<noteq> []" "\<forall>c \<in> set conns. slot_ok c" "\<forall>c \<in> set conns. peer_key c \<noteq> (v, k)"
  shows "if 0 \<in> set (butlast k) \<or> 0 \<in> set (butlast v)
    then ServerAuth E conns s = Inl OutOfBounds
    else \<exists>t. ServerAuth E conns s = Inr (Return, t) \<and> isAuth (cl t) \<and> key (cl t) = k \<and> iv (cl t) = v"
  using assms by (rule ServerAuth_stored_key)

text \<open>A slot that asks for the vector \<open>1, 1, \<dots>\<close>, and an engine that has a row for it.\<close>

definition asking_session :: "byte list \<Rightarrow> answer list session" where
  "asking_session k =
     \<lparr>cl = (sample_slot False)\<lparr>inbuf := key_request\<rparr>, sdb = sample_db [[key_row k (replicate 16 1)]]\<rparr>"

lemma asking_session_facts:
  fixes k :: "byte list"
  defines "s \<equiv> asking_session k"
  shows "getSubType (inbuf (cl s)) = 0" "pSize (inbuf (cl s)) = 0x20" "\<not> isAuth (cl s)"
    "slot_ok (cl s)" "slot_used (cl s)" "block 6 16 (buffer (inbuf (cl s))) = replicate 16 1"
    "Open (api sample_env) (sdb s) = Inr (DB_OK, sdb s)"
    "\<exists>D'. Exec (api sample_env) (key_sql (hex (replicate 16 1))) (sdb s) = Inr (1, D') \<and>
      results D' = [DatabaseCallback (key_row k (replicate 16 1))]"
proof -
  show "getSubType (inbuf (cl s)) = 0" "pSize (inbuf (cl s)) = 0x20"
    "block 6 16 (buffer (inbuf (cl s))) = replicate 16 1"
    by (simp_all add: s_def asking_session_def key_request_fields)
  show "\<not> isAuth (cl s)" "slot_used (cl s)"
    by (simp_all add: s_def asking_session_def slot_used_def sample_slot_def new_CLIENT_def
        Initialize_def ClearSendQueue_def)
  have wf: "wf_packet key_request"
    using sample_request_layout(1) [of "[replicate 16 1]" 0 0]
    by (simp add: key_request_def wf_cursor fresh_wf)
  have "getSizeFromBuffer key_request = 0"
    using sample_request_buffer [of "[replicate 16 1]" 0 0]
    by (simp add: getSizeFromBuffer_def key_request_def setSize_def block_def numeral_2_eq_2)
  then show "slot_ok (cl s)"
    using slot_ok_sample [of False] wf
    by (simp add: s_def asking_session_def slot_ok_def size_known_def slot_used_def key_request_fields)
  show "Open (api sample_env) (sdb s) = Inr (DB_OK, sdb s)"
    by (simp add: s_def asking_session_def sample_simps DB_OK_def)
  show "\<exists>D'. Exec (api sample_env) (key_sql (hex (replicate 16 1))) (sdb s) = Inr (1, D') \<and>
      results D' = [DatabaseCallback (key_row k (replicate 16 1))]"
    by (simp add: s_def asking_session_def sample_simps)
qed

lemma sample_peer_key: "peer_key (sample_slot auth) = (replicate 16 0, replicate 32 0)"
  by (simp add: peer_key_def sample_slot_def new_CLIENT_def Initialize_def ClearSendQueue_def
      BLOCK_SIZE_def KEY_SIZE_def)

lemma stored_key_authenticates_example:
  "(\<exists>t. ServerAuth sample_env [sample_slot True] (asking_session (replicate 32 7)) = Inr (Return, t) \<and>
      isAuth (cl t) \<and> key (cl t) = replicate 32 7) \<and>
   ServerAuth sample_env [sample_slot True] (asking_session (0 # replicate 31 7)) = Inl OutOfBounds"
proof -
  have other: "peer_key (sample_slot True) \<noteq> (replicate 16 1, k)" for k by (simp add: sample_peer_key)
  have inst: "if 0 \<in> set (butlast k) \<or> 0 \<in> set (butlast (replicate 16 1 :: byte list))
    then ServerAuth sample_env [sample_slot True] (asking_session k) = Inl OutOfBounds
    else \<exists>t. ServerAuth sample_env [sample_slot True] (asking_session k) = Inr (Return, t) \<and>
      isAuth (cl t) \<and> key (cl t) = k \<and> iv (cl t) = replicate 16 1" if "length k = 32" for k
  proof -
    note f = asking_session_facts [of k]
    obtain D' where D': "Exec (api sample_env) (key_sql (hex (replicate 16 1))) (sdb (asking_session k)) = Inr (1, D')"
      "results D' = [DatabaseCallback (key_row k (replicate 16 1))]" using f(8) by blast
    show ?thesis
      using stored_key_authenticates
        [OF f(1-6) that f(7) D', of "[sample_slot True]"] slot_ok_sample other by simp
  qed
  show ?thesis
    using inst [of "replicate 32 7"] inst [of "0 # replicate 31 7"]
    by (auto simp: butlast_conv_take take_Cons')
qed

theorem authentication_needs_a_stored_key_witness:
  "\<exists>D n D' v. Exec sample_api (key_sql (hex (replicate 16 1))) D = Inr (n, D') \<and> n \<noteq> 0 \<and>
    GetValue (results D') 0 0 = Inr v \<and> take 16 (bytes_of v @ [0]) = replicate 16 1"
proof -
  let ?k = "replicate 32 7" and ?v = "replicate 16 1"
  let ?s = "asking_session ?k" and ?conns = "[sample_slot True]"
  note f = asking_session_facts [of ?k]
  obtain D' where D': "Exec (api sample_env) (key_sql (hex ?v)) (sdb ?s) = Inr (1, D')"
    "results D' = [DatabaseCallback (key_row ?k ?v)]" using f(8) by blast
  let ?t = "?s\<lparr>sdb := D'\<rparr>"
  have "\<exists>d. accept_key sample_env ?conns ?t = Inr (True, ?t\<lparr>cl := d\<rparr>) \<and> isAuth d \<and> peer_key d = (?v, ?k)"
    using f(4,5) D'(2) slot_ok_sample by (intro accept_key_good) (simp_all add: sample_peer_key butlast_conv_take)
  then obtain d where d: "accept_key sample_env ?conns ?t = Inr (True, ?t\<lparr>cl := d\<rparr>)" "isAuth d"
    "peer_key d = (?v, ?k)" by blast
  obtain n u where u: "db_close sample_env (?t\<lparr>cl := d\<rparr>) = Inr (n, u)" "cl u = d"
    using db_close_total [of sample_env "?t\<lparr>cl := d\<rparr>"] by auto
  have wf: "wf_packet (inbuf (cl ?s))" using f(4) by (simp add: slot_ok_def)
  have "key_check sample_env ?conns ?s = Inr ((), u)"
    unfolding key_check_stored [OF wf f(6,7) D'(1)]
    by (simp only: bnd_run d(1) sum.case prod.case whenP_run if_True stm_run u(1) ret_run)
  then have r: "ServerAuth sample_env ?conns ?s = Inr (Return, u)"
    unfolding ServerAuth_key [OF f(1-3)] by (simp only: bnd_run sum.case prod.case ret_run)
  have "isAuth (cl u)" "iv (cl u) = ?v" using d u(2) by (simp_all add: peer_key_def)
  from authentication_needs_a_stored_key [OF r f(3) this(1) f(4,5)] this(2) show ?thesis
    using slot_ok_sample f(6) by (auto, metis)
qed

end
