(* ===== verification/Connection_Properties.thy ===== *)
theory Connection_Properties
  imports Samples
begin

text \<open>
  The properties of a connection as its peer sees it: the requests it sends are cut out of the
  byte stream whatever the sizes of the pieces, and the bytes it receives are the frames of the
  messages sent to it, in order. And the table of connections as a list of numbers.
\<close>

section \<open>Requests\<close>

lemma deliveries_append:
  "deliveries (xs @ ys) c =
    (let (fs, d) = deliveries xs c; (gs, e) = deliveries ys d in (fs @ gs, e))"
proof (induction xs arbitrary: c)
  case (Cons x xs)
  then show ?case by (cases "fst (recv_step x c)") (simp_all add: case_prod_beta Let_def)
qed simp

lemma room_empty: "slot_ok c \<Longrightarrow> room c []"
  by (simp add: room_def length_received slot_ok_def)

lemma next_frame_shorter: "next_frame p = Some (f, rest) \<Longrightarrow> length rest < length p"
  by (auto simp: next_frame_def Let_def split: if_splits)

text \<open>Attempts without new bytes take out what is complete.\<close>

lemma deliveries_drain:
  assumes "slot_ok c" "length (received c) \<le> n"
  shows "fst (deliveries (replicate n []) c) = fst (split_frames (received c)) \<and>
    received (snd (deliveries (replicate n []) c)) = snd (split_frames (received c))"
  using assms
proof (induction n arbitrary: c)
  case 0
  then have "next_frame (received c) = None" by (simp add: next_frame_def)
  then show ?case by (subst (1 2) split_frames.simps) simp
next
  case (Suc n)
  note st = recv_step_stream [OF Suc.prems(1) room_empty [OF Suc.prems(1)]]
  show ?case
  proof (cases "next_frame (received c)")
    case None
    then have same: "fst (recv_step [] c) = None" "received (snd (recv_step [] c)) = received c"
      using st(3) by simp_all
    have split: "split_frames (received c) = ([], received c)"
      using None by (subst split_frames.simps) simp
    have idle: "slot_ok d \<Longrightarrow> received d = received c \<Longrightarrow>
        fst (deliveries (replicate m []) d) = [] \<and>
        received (snd (deliveries (replicate m []) d)) = received c" for d m
    proof (induction m arbitrary: d)
      case (Suc m)
      note sd = recv_step_stream [OF Suc.prems(1) room_empty [OF Suc.prems(1)]]
      have "fst (recv_step [] d) = None" "received (snd (recv_step [] d)) = received c"
        using sd(3) None Suc.prems(2) by simp_all
      then show ?case using Suc.IH [OF sd(1)] by (simp add: case_prod_beta Let_def)
    qed simp
    show ?thesis using idle [of "snd (recv_step [] c)" n] st(1) same split by (simp add: case_prod_beta Let_def)
  next
    case (Some fr)
    obtain f rest where fr: "fr = (f, rest)" by (cases fr)
    have taken: "fst (recv_step [] c) = Some f" "received (snd (recv_step [] c)) = rest"
      using st(2) [of f rest] Some fr by simp_all
    have "length rest \<le> n" using next_frame_shorter [of "received c" f rest] Some fr Suc.prems(2) by simp
    then have "fst (deliveries (replicate n []) (snd (recv_step [] c))) = fst (split_frames rest) \<and>
        received (snd (deliveries (replicate n []) (snd (recv_step [] c)))) = snd (split_frames rest)"
      using Suc.IH [OF st(1)] taken(2) by simp
    moreover have "split_frames (received c) = (f # fst (split_frames rest), snd (split_frames rest))"
      using Some fr by (subst split_frames.simps) (simp add: case_prod_beta Let_def)
    ultimately show ?thesis using taken(1) by (simp add: case_prod_beta Let_def)
  qed
qed

lemma length_deliveries:
  assumes "slot_ok c" "rooms bss c" "deliveries bss c = (fs, d)"
  shows "length (received d) \<le> length (received c @ concat bss)"
  using assms
proof (induction bss arbitrary: c fs)
  case (Cons bs bss)
  let ?s = "recv_step bs c"
  have room: "room c bs" "rooms bss (snd ?s)" using Cons.prems(2) by simp_all
  note st = recv_step_stream [OF Cons.prems(1) room(1)]
  have "length (received (snd ?s)) \<le> length (received c @ bs)"
    using st(2,3) next_frame_shorter [of "received c @ bs"]
    by (cases "next_frame (received c @ bs)") (auto simp: less_imp_le)
  moreover have "deliveries bss (snd ?s) = (fst (deliveries bss (snd ?s)), d)"
    using Cons.prems(3) by (simp add: case_prod_beta Let_def prod_eq_iff)
  ultimately show ?case using Cons.IH [OF st(1) room(2)] by fastforce
qed simp

text \<open>
  C5: The requests that are taken out of a connection depend on the bytes that arrived on it only,
  not on the pieces in which \<open>recv\<close> delivered them: once the server has tried often enough, they
  are the complete frames of the stream, and the incomplete rest is still in the buffer.
\<close>

theorem frames_do_not_depend_on_chunks:
  assumes "slot_ok c" "rooms bss c" "length (received c @ concat bss) \<le> n"
  shows "fst (deliveries (bss @ replicate n []) c) = fst (split_frames (received c @ concat bss)) \<and>
    received (snd (deliveries (bss @ replicate n []) c)) = snd (split_frames (received c @ concat bss))"
proof -
  obtain fs d where d: "deliveries bss c = (fs, d)" by (cases "deliveries bss c")
  note fr = deliveries_frames [OF assms(1,2) d]
  have "length (received d) \<le> length (received c @ concat bss)"
    using length_deliveries [OF assms(1,2) d] .
  then have "length (received d) \<le> n" using assms(3) by simp
  then show ?thesis
    using fr deliveries_drain [of d n] d by (simp add: deliveries_append case_prod_beta Let_def)
qed

lemma rooms_within:
  assumes "slot_ok c" "length (received c @ concat bss) \<le> 8192"
  shows "rooms bss c"
  using assms
proof (induction bss arbitrary: c)
  case (Cons bs bss)
  have room: "room c bs" using Cons.prems(2) by (simp add: room_def)
  note st = recv_step_stream [OF Cons.prems(1) room]
  have "length (received (snd (recv_step bs c))) \<le> length (received c @ bs)"
    using st(2,3) next_frame_shorter [of "received c @ bs"]
    by (cases "next_frame (received c @ bs)") (auto simp: less_imp_le)
  then show ?case using Cons.IH [OF st(1)] Cons.prems(2) room by simp
qed simp

lemma received_sample [simp]: "received (sample_slot auth) = []"
  by (simp add: received_def sample_slot_def new_CLIENT_def Initialize_def ClearSendQueue_def)

lemma bytes_u16_pair: "bytes_u16 [a, b] = ucast a OR push_bit 8 (ucast b)"
  by simp

lemma sample_stream: "split_frames [4, 0, 1, 0, 0, 0, 4] = ([[4, 0, 1, 0, 0, 0]], [4])"
  by (subst split_frames.simps, subst split_frames.simps)
    (simp add: next_frame_def entry_size_def)

theorem frames_do_not_depend_on_chunks_witness:
  "fst (deliveries ([[4], [0, 1, 0], [0, 0, 4]] @ replicate 7 []) (sample_slot False)) =
    [[4, 0, 1, 0, 0, 0]]"
proof -
  let ?bss = "[[4], [0, 1, 0], [0, 0, 4]] :: byte list list"
  have ok: "slot_ok (sample_slot False)" by (rule slot_ok_sample)
  have "rooms ?bss (sample_slot False)" by (rule rooms_within [OF ok]) simp
  then show ?thesis
    using frames_do_not_depend_on_chunks [OF ok, of ?bss 7] sample_stream by simp
qed

text \<open>
  C32: An announced size that no frame can have stops a connection for good: whatever arrives
  afterwards, no request is ever taken out of it, and the bytes stay in the buffer.
\<close>

theorem impossible_size_blocks_connection:
  assumes "slot_ok c" "rooms bss c" "2 \<le> length (received c)"
    and "entry_size (received c) < 4 \<or> 8190 < entry_size (received c)"
  shows "fst (deliveries bss c) = [] \<and> received (snd (deliveries bss c)) = received c @ concat bss"
  using assms
proof (induction bss arbitrary: c)
  case (Cons bs bss)
  have room: "room c bs" "rooms bss (snd (recv_step bs c))" using Cons.prems(2) by simp_all
  note st = recv_step_stream [OF Cons.prems(1) room(1)]
  have size: "entry_size (received c @ bs) = entry_size (received c)"
    using Cons.prems(3) by (simp add: entry_size_def)
  have lt: "entry_size p < 65536" for p
    using unat_less [of "bytes_u16 (take 2 p)"] by (simp add: entry_size_def)
  have big: "length (received c @ bs) \<le> 8192" using room(1) by (simp add: room_def)
  have "next_frame (received c @ bs) = None"
    using Cons.prems(4) lt [of "received c"] big size
    by (cases "entry_size (received c) < 65534")
      (auto simp: next_frame_def Let_def mod_if)
  then have "fst (recv_step bs c) = None" "received (snd (recv_step bs c)) = received c @ bs"
    using st(3) by simp_all
  then show ?case
    using Cons.IH [OF st(1) room(2)] Cons.prems(3,4) size by (simp add: case_prod_beta Let_def)
qed simp

theorem impossible_size_blocks_connection_witness:
  "fst (deliveries [[1, 2, 3], [4]] (deliver [0xFF, 0xFF] (sample_slot False))) = []"
proof -
  let ?c = "deliver [0xFF, 0xFF] (sample_slot False)"
  have r: "room (sample_slot False) [0xFF, 0xFF]" by (simp add: room_def)
  have ok: "slot_ok ?c" by (rule deliver_ok [OF slot_ok_sample r])
  have rc: "received ?c = [0xFF, 0xFF]" using deliver_received [OF slot_ok_sample r] by simp
  have "rooms [[1, 2, 3], [4]] ?c" by (rule rooms_within [OF ok]) (simp add: rc)
  then show ?thesis
    using impossible_size_blocks_connection [OF ok, of "[[1, 2, 3], [4]]"] rc
    by (simp add: entry_size_def)
qed

lemma next_frame_of_delivery:
  assumes "slot_ok c" "room c bs" "next_frame (received c @ bs) = Some (f, rest)"
  shows "frame_complete (deliver bs c)" "unat (packetsize (deliver bs c)) = length f"
    "take (length f) (rcvbuf (deliver bs c)) = f" "length f \<le> 8192"
    "drop (length f) (received (deliver bs c)) = rest"
proof -
  let ?d = "deliver bs c"
  have ok: "slot_ok ?d" using deliver_ok [OF assms(1,2)] .
  have r: "received ?d = received c @ bs" using deliver_received [OF assms(1,2)] .
  show fc: "frame_complete ?d" using assms(3) deliver_size(1) [OF assms(1,2)] r by simp
  have n: "unat (packetsize ?d) = (entry_size (received ?d) + 2) mod 65536"
    using assms(3) deliver_size(2) [OF assms(1,2)] r by simp
  have fits: "unat (packetsize ?d) \<le> unat (rcvread ?d)"
    using frame_complete_fits [OF ok fc] by (simp add: frame_fits_def)
  have len: "length (received ?d) = unat (rcvread ?d)" using ok by (rule length_received)
  have f: "f = take (unat (packetsize ?d)) (received ?d)" "rest = drop (unat (packetsize ?d)) (received ?d)"
    using assms(3) n r by (auto simp: next_frame_def Let_def split: if_splits)
  show lf: "unat (packetsize ?d) = length f" using f(1) fits len by simp
  show "take (length f) (rcvbuf ?d) = f"
    using f(1) drop_frame_received(2) [OF ok fits] lf by simp
  show "length f \<le> 8192" using lf fits ok by (simp add: slot_ok_def)
  show "drop (length f) (received ?d) = rest" using f(2) lf by simp
qed

lemma Recv_run:
  assumes "k < length (connections s)" "bs \<noteq> []"
  shows "Recv E k (Received bs r) s =
    (let d = deliver bs (connections s ! k); s1 = s\<lparr>connections := (connections s)[k := d]\<rparr> in
     if frame_complete d
     then if CLIENT_BUFFER_SIZE < unat (packetsize d) then Inl OutOfBounds
          else (case CheckClientPackets E k (ucast (packetsize d)) (take (unat (packetsize d)) (rcvbuf d)) s1 of
                  Inl e \<Rightarrow> Inl e
                | Inr u \<Rightarrow> Inr (True, u\<lparr>connections := (connections u)[k := drop_frame (connections u ! k)]\<rparr>))
     else Inr (True, s1))"
  using assms by (simp add: Recv_def ProcessRecv_def deliver_def Let_def split: sum.split)

text \<open>
  A delivery of bytes on a connection hands to the packet handler the frame at the head of the
  stream, and nothing when it is incomplete; afterwards exactly that frame is gone from the
  receive buffer, whatever its handler did.
\<close>

lemma Recv_handles_the_next_frame:
  assumes "server_ok s" "k < length (connections s)" "slot_used (connections s ! k)"
    and "bs \<noteq> []" "room (connections s ! k) bs" "Recv E k (Received bs r) s = Inr (good, t)"
  shows "good \<and>
    (case next_frame (received (connections s ! k) @ bs) of
       None \<Rightarrow> t = s\<lparr>connections := (connections s)[k := deliver bs (connections s ! k)]\<rparr>
     | Some (f, rest) \<Rightarrow> received (connections t ! k) = rest \<and>
         (\<exists>u. CheckClientPackets E k (word_of_nat (length f)) f
               (s\<lparr>connections := (connections s)[k := deliver bs (connections s ! k)]\<rparr>) = Inr u \<and>
             t = u\<lparr>connections := (connections u)[k := drop_frame (connections u ! k)]\<rparr>))"
proof -
  let ?c = "connections s ! k"
  let ?d = "deliver bs ?c"
  let ?s = "s\<lparr>connections := (connections s)[k := ?d]\<rparr>"
  have slot: "slot_ok ?c" using assms(1,2) by (rule server_ok_slot)
  have fit: "length bs + unat (rcvread ?c) \<le> 8192"
    using assms(5) slot by (simp add: room_def length_received)
  note r = received_ok [OF slot fit, folded deliver_def]
  note run = Recv_run [OF assms(2,4), of E r]
  show ?thesis
  proof (cases "next_frame (received ?c @ bs)")
    case None
    then have "\<not> frame_complete ?d"
      using deliver_size(1) [OF slot assms(5)] deliver_received [OF slot assms(5)] by simp
    then show ?thesis using assms(6) run None by (simp add: Let_def)
  next
    case (Some fr)
    obtain f rest where fr: "next_frame (received ?c @ bs) = Some (f, rest)" using Some by (cases fr) simp
    note nf = next_frame_of_delivery [OF slot assms(5) fr]
    have size: "ucast (packetsize ?d) = (word_of_nat (length f) :: u32)"
      using nf(2,4) by (simp add: word_unat_eq_iff unat_ucast_u32 unat_of_nat)
    obtain u where u: "CheckClientPackets E k (ucast (packetsize ?d)) (take (unat (packetsize ?d)) (rcvbuf ?d)) ?s = Inr u"
      and t: "good" "t = u\<lparr>connections := (connections u)[k := drop_frame (connections u ! k)]\<rparr>"
      using assms(6) run nf(1,2,4) by (auto simp: Let_def split: sum.splits)
    have s1: "server_ok ?s" using assms(1,2) r(1,2) by (rule server_ok_slot_change)
    have "slot_used ?d" using r(2) assms(3) slot_used_same by simp
    then have su: "stays_ok ?s u"
      using CheckClientPackets_ok [of E k ?s u] u s1 assms(2) nf(1) by simp
    then have len: "length (connections u) = length (connections s)" using stays_ok_length by fastforce
    have link: "same_link ?d (connections u ! k)"
      using su assms(2) same_links_nth [of _ "connections u" k] by (fastforce simp: stays_ok_def)
    have "slot_ok (connections u ! k)" using su assms(2) len by (simp add: server_ok_slot stays_ok_def)
    moreover have "unat (packetsize (connections u ! k)) \<le> unat (rcvread (connections u ! k))"
      using link nf(1) frame_complete_fits [OF r(1)] by (simp add: same_link_def frame_fits_def)
    ultimately have "received (drop_frame (connections u ! k)) =
        drop (unat (packetsize (connections u ! k))) (received (connections u ! k))"
      by (rule drop_frame_received)
    also have "\<dots> = rest" using link nf(2,5) by (simp add: same_link_def received_def)
    finally have "received (connections t ! k) = rest" using t(2) assms(2) len by simp
    then show ?thesis using t u nf(2,3) size fr by auto
  qed
qed

text \<open>A request that the server answers by a disconnect: not authenticated, and not type 0.\<close>

lemma sample_inbuf:
  "inbuf (deliver bs (sample_slot auth)) = init_packet" "isAuth (deliver bs (sample_slot auth)) = auth"
  "todc (deliver bs (sample_slot auth)) = False"
  by (simp_all add: deliver_def note_size_def store_received_def sample_slot_def new_CLIENT_def
      Initialize_def ClearSendQueue_def clearBuffer_def init_packet_def Let_def)

lemma sample_refused:
  assumes "connections s = [deliver bs (sample_slot False)]"
  shows "CheckClientPackets E 0 6 [4, 0, 1, 0, 0, 0] s =
    Inr (s\<lparr>connections := [Disconnect ((deliver bs (sample_slot False))
      \<lparr>inbuf := \<lparr>buffer = overwrite 0 [4, 0, 1, 0, 0, 0] zero_buffer, pOffset = 0, pSize = 4\<rparr>\<rparr>)]\<rparr>)"
  using assms
  by (simp add: CheckClientPackets_def load_packet_def setArray_def copy_ok_def sample_inbuf
      init_packet_def overwrite_def getSizeFromBuffer_def block_def setSize_def ProcessPacket_def
      decrypt_in_place_def refused_def getType_def packet_function_count_def Let_def)

lemma Recv_handles_the_next_frame_example:
  "\<exists>t. Recv sample_env 0 (Received [4, 0, 1, 0, 0, 0, 7] False) (sample_server (sample_slot False) []) =
      Inr (True, t) \<and> received (connections t ! 0) = [7]"
proof -
  let ?s = "sample_server (sample_slot False) []" and ?bs = "[4, 0, 1, 0, 0, 0, 7] :: byte list"
  have conn: "connections ?s = [sample_slot False]" by (simp add: sample_server_def)
  have used: "slot_used (sample_slot False)" by (simp add: sample_slot_def slot_used_def)
  have room: "room (sample_slot False) ?bs" by (simp add: room_def)
  have nf: "next_frame ?bs = Some ([4, 0, 1, 0, 0, 0], [7])" by (simp add: next_frame_def entry_size_def)
  note d = next_frame_of_delivery [OF slot_ok_sample room, of "[4, 0, 1, 0, 0, 0]" "[7]"]
  have pk: "unat (packetsize (deliver ?bs (sample_slot False))) = 6" using d(2) nf by simp
  then have pk': "ucast (packetsize (deliver ?bs (sample_slot False))) = (6 :: u32)"
    by (simp add: word_unat_eq_iff unat_ucast_u32)
  have f: "take 6 (rcvbuf (deliver ?bs (sample_slot False))) = [4, 0, 1, 0, 0, 0]"
    using d(3) nf by (simp add: eval_nat_numeral)
  obtain t where t: "Recv sample_env 0 (Received ?bs False) ?s = Inr (True, t)"
    using d(1) f nf pk pk' Recv_run [of 0 ?s ?bs sample_env False] by (simp add: conn sample_refused Let_def)
  show ?thesis
    using Recv_handles_the_next_frame [OF sample_server_ok, of 0 False "[]" ?bs, OF _ _ _ _ t] t nf
    by (simp add: conn used room)
qed

end
