(* ===== verification/Fault_Properties.thy ===== *)
theory Fault_Properties
  imports Connection_Properties
begin

text \<open>
  Where a run of the server can go wrong: the socket layer, the framing, the table of connections
  and the heartbeats never do; only the handler of a packet, with what it sends afterwards, can.
\<close>

section \<open>From the loop down to the handler\<close>

text \<open>A handler that faults on a state in which the invariant holds.\<close>

definition handler_fault :: "'d env \<Rightarrow> nat \<Rightarrow> fault \<Rightarrow> bool" where
  "handler_fault E n f \<longleftrightarrow>
     (\<exists>k t u. round_inv n u \<and> k < n \<and> slot_used (connections u ! k) \<and>
        MainPacketFunctions E k t u = Inl f)"

lemma ProcessPacket_fault:
  assumes "ProcessPacket E k s = Inl f" "round_inv n s" "k < n" "slot_used (connections s ! k)"
  shows "handler_fault E n f"
proof -
  have "slot_ok (connections s ! k)" using assms(2,3) by (simp add: round_inv_def server_ok_slot)
  from ProcessPacket_run [OF this, of E] assms(1)
  have "MainPacketFunctions E k (unat (getType (inbuf (connections s ! k)))) s = Inl f"
    by (auto simp: Let_def split: if_splits)
  with assms(2-4) show ?thesis unfolding handler_fault_def by blast
qed

lemma CheckClientPackets_fault:
  assumes "CheckClientPackets E k (ucast (packetsize (connections s ! k)))
      (take (unat (packetsize (connections s ! k))) (rcvbuf (connections s ! k))) s = Inl f"
    and "round_inv n s" "k < n" "slot_used (connections s ! k)" "frame_complete (connections s ! k)"
  shows "handler_fault E n f"
proof -
  let ?c = "connections s ! k"
  have ok: "server_ok s" "k < length (connections s)" using assms(2,3) by (simp_all add: round_inv_def)
  have slot: "slot_ok ?c" using ok by (rule server_ok_slot)
  obtain c where l: "load_packet (ucast (packetsize ?c)) (take (unat (packetsize ?c)) (rcvbuf ?c)) ?c = Inr c"
    and c: "slot_ok c" "same_peer ?c c" "same_link ?c c"
    using load_packet_ok [OF slot assms(5)] by blast
  let ?s = "s\<lparr>connections := (connections s)[k := c]\<rparr>"
  have "server_ok ?s" using stays_ok_slot_change [OF ok c] by (simp add: stays_ok_def)
  then have i: "round_inv n ?s" using assms(2) by (simp add: round_inv_def)
  have "\<not> CLIENT_BUFFER_SIZE < unat (pSize (inbuf c))" using c(1) by (simp add: slot_ok_def)
  then have "ProcessPacket E k ?s = Inl f"
    using assms(1) l by (auto simp: CheckClientPackets_def split: if_splits)
  then show ?thesis
    using ProcessPacket_fault [OF _ i assms(3)] c(2) ok(2) assms(4) slot_used_same by simp
qed

lemma ProcessRecv_fault:
  assumes "ProcessRecv E k (length bs)
      (s\<lparr>connections := (connections s)[k := store_received bs (connections s ! k)]\<rparr>) = Inl f"
    and "round_inv n s" "k < n" "slot_used (connections s ! k)"
    and "length bs + unat (rcvread (connections s ! k)) \<le> 8192"
  shows "handler_fault E n f"
proof -
  let ?c = "connections s ! k"
  define c where "c = note_size (length bs) (store_received bs ?c)"
  let ?s = "s\<lparr>connections := (connections s)[k := c]\<rparr>"
  have ok: "server_ok s" "k < length (connections s)" using assms(2,3) by (simp_all add: round_inv_def)
  have slot: "slot_ok ?c" using ok by (rule server_ok_slot)
  note r = received_ok [OF slot assms(5), folded c_def]
  have "server_ok ?s" using ok r(1,2) by (rule server_ok_slot_change)
  then have i: "round_inv n ?s" using assms(2) by (simp add: round_inv_def)
  have k: "connections ?s ! k = c" using ok(2) by simp
  have used: "slot_used c" using r(2) assms(4) slot_used_same by simp
  have fc: "frame_complete c"
    using assms(1) ok(2) by (auto simp: ProcessRecv_def Let_def c_def split: if_splits)
  then have "unat (packetsize c) \<le> 8192"
    using frame_complete_fits [OF r(1) fc] r(1) by (simp add: frame_fits_def slot_ok_def)
  then have "CheckClientPackets E k (ucast (packetsize c)) (take (unat (packetsize c)) (rcvbuf c)) ?s = Inl f"
    using assms(1) ok(2) fc by (auto simp: ProcessRecv_def Let_def c_def [symmetric] split: sum.splits)
  then show ?thesis using CheckClientPackets_fault [OF _ i assms(3)] k used fc by simp
qed

lemma Recv_fault:
  assumes "Recv E k r s = Inl f" "round_inv n s" "k < n" "slot_used (connections s ! k)"
    and "recv_ok (connections s ! k) r"
  shows "handler_fault E n f"
proof (cases r)
  case (Received bs reset)
  let ?r = "ProcessRecv E k (length bs)
      (s\<lparr>connections := (connections s)[k := store_received bs (connections s ! k)]\<rparr>)"
  have "?r = Inl f"
    using assms(1) Received by (cases ?r) (auto simp: Recv_def Let_def split: if_splits prod.splits)
  then show ?thesis
    by (rule ProcessRecv_fault [OF _ assms(2-4)]) (use assms(5) Received in \<open>simp add: recv_ok_def\<close>)
next
  case RecvWouldBlock
  have "unat (rcvread (connections s ! k)) \<le> 8192"
    using assms(2,3) server_ok_slot [of s k] by (simp add: round_inv_def slot_ok_def)
  moreover have "ProcessRecv E k 0 s = Inl f"
    using assms(1) RecvWouldBlock by (auto simp: Recv_def Let_def split: if_splits sum.splits prod.splits)
  ultimately show ?thesis using ProcessRecv_fault [of E k "[]" s f n] assms(2-4) by simp
qed (use assms(1) in \<open>simp add: Recv_def Let_def\<close>)

lemma service_slot_fault:
  assumes "service_slot E e wr k s = Inl f" "round_inv n s" "k < n" "round_ok e"
  shows "handler_fault E n f"
proof (cases "slot_used (connections s ! k)")
  case False
  then show ?thesis using assms(1) by (simp add: service_slot_def slot_def slot_used_def prog_simps)
next
  case True
  have os: "\<And>m i. send_of e k m = Sent i \<Longrightarrow> i \<le> m"
    "\<And>m bs r. recv_of e k m = Received bs r \<Longrightarrow> length bs \<le> m"
    using assms(4) unfolding round_ok_def by blast+
  obtain s1 where s1: "whenP (wr k) (send_part k (send_of e k)) s = Inr ((), s1)"
    "round_inv n s1" "slot_used (connections s1 ! k)"
  proof (cases "wr k")
    case w: True
    obtain s1 where s1: "send_part k (send_of e k) s = Inr ((), s1)" "round_inv n s1"
      using send_part_run [OF assms(2,3) os(1)] by blast
    then show ?thesis
      using that w send_part_used [OF s1(1) assms(2,3) os(1) True] by (simp add: whenP_run)
  qed (use assms(2) True that in \<open>simp add: whenP_run\<close>)
  let ?c = "connections s1 ! k"
  show ?thesis
  proof (cases "recv_part E k (recv_of e k) s1")
    case (Inl g)
    then have "g = f" using assms(1) True s1(1)
      by (simp add: service_slot_def slot_def slot_used_def bnd_run stm_run gets_run whenP_run)
    then have "Recv E k (recv_of e k (max_read ?c)) s1 = Inl f"
      using Inl by (auto simp: recv_part_def bnd_run slot_def gets_run change_slot_def prog_simps
          split: sum.splits if_splits)
    moreover have "unat (rcvread ?c) \<le> 8192"
      using s1(2) assms(3) server_ok_slot [of s1 k] by (simp add: round_inv_def slot_ok_def)
    then have "recv_ok ?c (recv_of e k (max_read ?c))"
      using os(2) [of "max_read ?c"]
      by (fastforce simp: recv_ok_def max_read_def split: recv_result.splits)
    ultimately show ?thesis using Recv_fault s1(2,3) assms(3) by blast
  next
    case (Inr xt)
    obtain s2 where s2: "recv_part E k (recv_of e k) s1 = Inr ((), s2)" using Inr by (cases xt) simp
    have i2: "round_inv n s2" using recv_part_inv [OF s2 s1(2) assms(3) s1(3) os(2)] .
    obtain s3 where s3: "bnd (slot k) (\<lambda>c. whenP (todc c) (act (InitializeConnection k))) s2 = Inr ((), s3)"
      "round_inv n s3"
      using disconnect_part_inv [OF i2 assms(3)] by blast
    obtain s4 where "heartbeat_part k e s3 = Inr ((), s4)"
      using heartbeat_part_inv [OF s3(2) assms(3)] by blast
    then have "service_slot E e wr k s = Inr ((), s4)"
      using True s1(1) s2 s3(1)
      by (simp add: service_slot_def slot_def slot_used_def bnd_run stm_run gets_run whenP_run ret_run)
    then show ?thesis using assms(1) by simp
  qed
qed

lemma service_slots_fault:
  assumes "for_each ks (service_slot E e wr) s = Inl f" "round_inv n s" "round_ok e"
    and "list_all (\<lambda>k. k < n) ks"
  shows "handler_fault E n f"
  using assms
proof (induction ks arbitrary: s)
  case (Cons k ks)
  show ?case
  proof (cases "service_slot E e wr k s")
    case (Inl g)
    then show ?thesis using Cons.prems service_slot_fault [of E e wr k s g n] by (simp add: stm_run)
  next
    case (Inr xt)
    obtain u where u: "service_slot E e wr k s = Inr ((), u)" using Inr by (cases xt) simp
    have "round_inv n u" using service_slot_inv [OF u Cons.prems(2) _ Cons.prems(3)] Cons.prems(4) by simp
    then show ?thesis using Cons.IH [of u] Cons.prems u by (simp add: stm_run)
  qed
qed (simp add: ret_run)

lemma accept_part_runs:
  assumes "round_inv n s" "round_ok e"
  shows "\<exists>t. accept_part e s = Inr ((), t) \<and> round_inv n t"
proof (cases "accept_ready e")
  case True
  have fd: "\<forall>a \<in> set (pending e). 0 \<le> in_fd a" using assms(2) by (simp add: round_ok_def)
  obtain b rest t where t: "AcceptConnection (pending e) s = Inr (b, rest, t)"
    using AcceptConnection_ok [of s "pending e"] assms(1) fd by (auto simp: round_inv_def server_ok_def)
  then show ?thesis
    using AcceptConnection_inv [OF t assms(1) fd] True by (simp add: accept_part_def whenP_run act_def)
qed (use assms(1) in \<open>simp add: accept_part_def whenP_run\<close>)


section \<open>The table of handlers\<close>

text \<open>
  The test of the packet type lets one number too many through: for an authenticated peer, type 6
  calls past the end of the table of handlers, while any larger type only disconnects the peer.
\<close>

lemma type_six_calls_past_the_table:
  assumes "slot_ok (connections s ! k)" "isAuth (connections s ! k)" "\<not> todc (connections s ! k)"
    and "16 \<le> unat (pSize (inbuf (connections s ! k)))" "6 \<le> unat (getType (inbuf (connections s ! k)))"
  shows "ProcessPacket E k s =
    (if unat (getType (inbuf (connections s ! k))) = 6 then Inl WildCall
     else Inr (s\<lparr>connections := (connections s)[k := Disconnect (connections s ! k)]\<rparr>))"
  using assms
  by (auto simp: ProcessPacket_run Let_def refused_def packet_function_count_def MainPacketFunctions_def)

text \<open>A slot that has received a frame of type 6.\<close>

definition wild_frame :: "byte list" where
  "wild_frame = [16, 0, 6] @ replicate 15 0"

definition wild_slot :: client where
  "wild_slot = deliver wild_frame (sample_slot True)"

definition idle_round :: round_env where
  "idle_round =
     \<lparr>accept_ready = False, pending = [], writable = (\<lambda>_. False), send_of = (\<lambda>_ _. SendWouldBlock),
      recv_of = (\<lambda>_ _. RecvWouldBlock), time_test = (\<lambda>_. 0), time_set = (\<lambda>_. 0), tick = (\<lambda>_. 0)\<rparr>"

lemma wild_slot_facts:
  "slot_ok wild_slot" "frame_complete wild_slot" "unat (packetsize wild_slot) = 18"
  "take 18 (rcvbuf wild_slot) = wild_frame" "inbuf wild_slot = init_packet" "isAuth wild_slot"
  "\<not> todc wild_slot" "unat (rcvread wild_slot) = 18" "slot_used wild_slot"
proof -
  have room: "room (sample_slot True) wild_frame" by (simp add: room_def wild_frame_def)
  have n: "next_frame (received (sample_slot True) @ wild_frame) = Some (wild_frame, [])"
    by (simp add: next_frame_def entry_size_def wild_frame_def)
  have len: "length wild_frame = 18" by (simp add: wild_frame_def)
  note d = next_frame_of_delivery [OF slot_ok_sample room n, unfolded len]
  show ok: "slot_ok wild_slot" unfolding wild_slot_def by (rule deliver_ok [OF slot_ok_sample room])
  show "frame_complete wild_slot" "unat (packetsize wild_slot) = 18" "take 18 (rcvbuf wild_slot) = wild_frame"
    using d(1-3) by (simp_all add: wild_slot_def)
  show "inbuf wild_slot = init_packet" "isAuth wild_slot" "\<not> todc wild_slot"
    by (simp_all add: wild_slot_def sample_inbuf)
  have "length (received wild_slot) = 18"
    using deliver_received [OF slot_ok_sample room] len by (simp add: wild_slot_def)
  then show "unat (rcvread wild_slot) = 18" using length_received [OF ok] by simp
  show "slot_used wild_slot"
    by (simp add: wild_slot_def deliver_def note_size_def store_received_def slot_used_def Let_def
        sample_slot_def)
qed

definition wild_request :: client where
  "wild_request =
     wild_slot\<lparr>inbuf := \<lparr>buffer = wild_frame @ replicate 8174 0, pOffset = 0, pSize = 16\<rparr>\<rparr>"

lemma wild_packet:
  "load_packet 18 wild_frame wild_slot = Inr wild_request"
proof -
  have "overwrite 0 wild_frame zero_buffer = wild_frame @ replicate 8174 0"
    by (simp add: overwrite_def drop_zero_buffer wild_frame_def)
  then show ?thesis
    by (simp add: load_packet_def setArray_def copy_ok_def wild_slot_facts init_packet_def
        getSizeFromBuffer_def block_def setSize_def wild_request_def) (simp add: wild_frame_def)
qed

lemma wild_request_facts:
  "slot_ok wild_request" "isAuth wild_request" "\<not> todc wild_request"
  "unat (pSize (inbuf wild_request)) = 16" "unat (getType (inbuf wild_request)) = 6"
proof -
  let ?p = "inbuf wild_request"
  have p: "?p = \<lparr>buffer = wild_frame @ replicate 8174 0, pOffset = 0, pSize = 16\<rparr>" by (simp add: wild_request_def)
  have "getSizeFromBuffer ?p = 16" by (simp add: p getSizeFromBuffer_def block_def wild_frame_def)
  moreover have "wf_packet ?p" by (simp add: p wf_packet_def wild_frame_def nth_append)
  ultimately show "slot_ok wild_request"
    using wild_slot_facts(1) p by (simp add: wild_request_def slot_ok_def size_known_def slot_used_def)
  show "unat (getType ?p) = 6" "unat (pSize ?p) = 16"
    by (simp_all add: p getType_def block_def wild_frame_def)
  show "isAuth wild_request" "\<not> todc wild_request" using wild_slot_facts by (simp_all add: wild_request_def)
qed

lemma type_six_calls_past_the_table_example:
  "ProcessPacket sample_env 0 (sample_server wild_request []) = Inl WildCall"
proof -
  have c: "connections (sample_server wild_request []) ! 0 = wild_request" by (simp add: sample_server_def)
  show ?thesis
    using type_six_calls_past_the_table [of "sample_server wild_request []" 0 sample_env]
      wild_request_facts by (simp add: c)
qed


end
