(* ===== verification/Link_Properties.thy ===== *)
theory Link_Properties
  imports Output_Properties Connection_Properties
begin

text \<open>
  A connection between two ends that both run this code: what one end's \<open>CLIENT::Send\<close> and \<open>Server::Send\<close>
  put on the wire, the other end's \<open>Recv\<close> and \<open>ProcessRecv\<close> take apart.
\<close>

lemma length_message_frame:
  assumes "message_ok p"
  shows "length (message_frame p) = padded_size (unat (pSize p) - 2) + 2"
  using message_size(1) [OF assms] by (simp add: message_frame_def length_frame)

text \<open>The first frame of a stream that starts with a message is this message.\<close>

lemma next_frame_message:
  assumes "message_ok p"
  shows "next_frame (message_frame p @ rest) = Some (message_frame p, rest)"
proof -
  let ?n = "padded_size (unat (pSize p) - 2)"
  note sz = message_size(2,3) [OF assms] and len = length_message_frame [OF assms]
  have "take 2 (message_frame p @ rest) = u16_bytes (word_of_nat ?n)"
    using message_size(1) [OF assms] by (simp add: message_frame_def frame_def)
  then have "entry_size (message_frame p @ rest) = ?n"
    using sz by (simp add: entry_size_def c16.dec_enc unat_of_nat)
  then show ?thesis using sz len by (simp add: next_frame_def Let_def)
qed

lemma split_messages:
  "list_all message_ok ps \<Longrightarrow> split_frames (concat (map message_frame ps)) = (map message_frame ps, [])"
proof (induction ps)
  case Nil
  show ?case by (simp add: split_frames.simps next_frame_def)
next
  case (Cons p ps)
  then show ?case
    using next_frame_message [of p "concat (map message_frame ps)"]
    by (subst split_frames.simps) simp
qed

lemma messages_ok: "events_ok es c \<Longrightarrow> list_all message_ok (messages es)"
  by (induction es c rule: events_ok.induct) (auto split: sum.splits prod.splits)

text \<open>
  C8: Two ends that run this code understand each other: when one end has sent a list of messages, however
  its socket took the bytes, the other end, however the bytes arrive, takes out of the stream or finds
  complete in its buffer exactly the frames of these messages, in their order, and nothing is left over.
\<close>

theorem messages_sent_are_frames_received:
  assumes "slot_ok c" "0 \<le> ClientSocket c" "unsent c = []" "events_ok es c"
    and "link_run es c = Inr (wire, d)" "unsent d = []"
    and "slot_ok r" "received r = []" "rooms bss r" "concat bss = wire" "deliveries bss r = (fs, e)"
  shows "fs @ fst (split_frames (received e)) = map message_frame (messages es) \<and>
    snd (split_frames (received e)) = []"
proof -
  note run = link_run_queue [OF assms(1,2,4)]
  have "outgoing.run (map queue_event es) c = (wire, d)" using run assms(5) by simp
  then have "wire = concat (map message_frame (messages es))"
    using outgoing.conserved [OF assms(1), of "map queue_event es"] run assms(3,6) put_in_messages [OF assms(4)] by simp
  then show ?thesis
    using deliveries_frames [OF assms(7,9,11)] assms(8,10) split_messages [OF messages_ok [OF assms(4)]] by simp
qed

theorem messages_sent_are_frames_received_witness:
  "\<exists>c wire d fs e. link_run [Message (sample_request 0 1 [u32_bytes 9]),
        Writable (Sent (max_send (fetch_frame c)))] (sample_slot True) = Inr (wire, d) \<and> wire \<noteq> [] \<and>
     deliveries [take 5 wire, drop 5 wire] (sample_slot False) = (fs, e) \<and>
     fs @ fst (split_frames (received e)) = [message_frame (sample_request 0 1 [u32_bytes 9])]"
proof -
  let ?p = "sample_request 0 1 [u32_bytes 9]"
  let ?c = "enqueue (padded_entry (message_frame ?p)) (sample_slot True)"
  let ?es = "[Message ?p, Writable (Sent (max_send (fetch_frame ?c)))]"
  have m: "message_ok ?p" by (rule message_ok_request) simp
  obtain p' where p': "Send_packet ?p (sample_slot True) = Inr (p', ?c)"
    using Send_message [OF m, of "sample_slot True"] by auto
  have c: "slot_ok ?c" using slot_ok_queue [OF slot_ok_sample frame_entry(2) [OF m]] by (simp add: enqueue_def)
  have t: "socket_takes ?c (Sent (max_send (fetch_frame ?c)))" by (simp add: socket_takes_def)
  define d where "d = snd (send_all ?c)"
  have "frames_left ?c = 1"
    by (simp add: frames_left_def enqueue_def sample_slot_def new_CLIENT_def Initialize_def ClearSendQueue_def)
  then have ud: "unsent d = []" using send_all_step(3) [OF c] no_frames_left [of d] by (simp add: d_def)
  obtain b where "Server_Send (Sent (max_send (fetch_frame ?c))) ?c = Inr (b, d)"
    using transmit_run [OF c t] by (auto simp: d_def send_all_def)
  then have run: "link_run ?es (sample_slot True) = Inr (fst (send_all ?c), d)" using p' by (simp add: send_all_def)
  have ev: "events_ok ?es (sample_slot True)" using m p' t by simp
  let ?w = "fst (send_all ?c)"
  have "unsent ?c = message_frame ?p"
    using frame_entry(1) [OF m]
    by (simp add: enqueue_def unsent_def sample_slot_def new_CLIENT_def Initialize_def ClearSendQueue_def)
  then have w: "?w = message_frame ?p" using send_all_step(2) [OF c] ud unfolding d_def by simp
  then have lw: "length ?w \<le> 8192" "?w \<noteq> []"
    using length_message_frame [OF m] message_size(2) [OF m] by auto
  obtain fs e where del: "deliveries [take 5 ?w, drop 5 ?w] (sample_slot False) = (fs, e)"
    by (cases "deliveries [take 5 ?w, drop 5 ?w] (sample_slot False)")
  have "rooms [take 5 ?w, drop 5 ?w] (sample_slot False)"
    by (rule rooms_within [OF slot_ok_sample]) (use lw in \<open>simp add: received_sample\<close>)
  from messages_sent_are_frames_received [OF slot_ok_sample _ _ ev run ud slot_ok_sample received_sample this _ del]
  have "fs @ fst (split_frames (received e)) = [message_frame ?p]" by simp
  then show ?thesis using run del lw(2) by blast
qed

end
