(* ===== verification/Exchange.thy ===== *)
theory Exchange
  imports Samples
begin

text \<open>
  Requests and replies field by field: a calculus for the calls with which a handler reads its request
  and writes its reply. A call that \<open>reads\<close> some bytes as a value does so at the cursor of any
  request; a call that \<open>writes\<close> some fields appends them to any reply that has room.
\<close>

section \<open>Reading\<close>

definition asks :: "'d session \<Rightarrow> byte list \<Rightarrow> bool" where
  "asks s bs \<longleftrightarrow> wf_packet (inbuf (cl s)) \<and> unread (inbuf (cl s)) = bs"

definition skip_in :: "nat \<Rightarrow> 'd session \<Rightarrow> 'd session" where
  "skip_in n s = s\<lparr>cl := (cl s)\<lparr>inbuf := addOffset (word_of_nat n) (inbuf (cl s))\<rparr>\<rparr>"

lemma skip_in_skip_in [simp]: "skip_in m (skip_in n s) = skip_in (n + m) s"
  by (simp add: skip_in_def addOffset_def add.assoc)

lemma skip_in_fields [simp]:
  "sdb (skip_in n s) = sdb s" "outbuf (cl (skip_in n s)) = outbuf (cl s)"
  by (simp_all add: skip_in_def)

lemma asks_cursor:
  assumes "asks s (bs @ rest)" "bs \<noteq> []"
  shows "unat (pOffset (inbuf (cl s))) + length bs \<le> 8192"
    and "block (unat (pOffset (inbuf (cl s)))) (length bs) (buffer (inbuf (cl s))) = bs"
    and "drop (unat (pOffset (inbuf (cl s)))) (buffer (inbuf (cl s))) = bs @ rest"
proof -
  let ?k = "unat (pOffset (inbuf (cl s)))"
  show d: "drop ?k (buffer (inbuf (cl s))) = bs @ rest" using assms(1) by (simp add: asks_def unread_def)
  have "length (drop ?k (buffer (inbuf (cl s)))) = 8192 - ?k"
    using assms(1) by (simp add: asks_def wf_length)
  then have "8192 - ?k = length bs + length rest" by (simp add: d)
  then show "?k + length bs \<le> 8192" using assms(2) by (cases bs) simp_all
  show "block ?k (length bs) (buffer (inbuf (cl s))) = bs" by (simp add: block_def d)
qed

lemma asks_skip: "asks s (bs @ rest) \<Longrightarrow> asks (skip_in (length bs) s) rest"
proof (cases "bs = []")
  case True
  then show "asks s (bs @ rest) \<Longrightarrow> ?thesis" by (simp add: skip_in_def addOffset_def asks_def unread_def)
next
  case False
  assume a: "asks s (bs @ rest)"
  note c = asks_cursor [OF a False]
  have "unat (pOffset (inbuf (cl s)) + word_of_nat (length bs)) = unat (pOffset (inbuf (cl s))) + length bs"
    using c(1) by (simp add: unat_word_ariths unat_of_nat)
  then have "drop (unat (pOffset (inbuf (cl s)) + word_of_nat (length bs))) (buffer (inbuf (cl s))) = rest"
    using c(3) by (metis add.commute append_eq_conv_conj drop_drop)
  then show ?thesis
    using a by (simp add: asks_def skip_in_def addOffset_def unread_def wf_packet_def)
qed

definition reads :: "('d session, 'a) prog \<Rightarrow> byte list \<Rightarrow> 'a \<Rightarrow> bool" where
  "reads m bs x \<longleftrightarrow> (\<forall>s rest. asks s (bs @ rest) \<longrightarrow> m s = Inr (x, skip_in (length bs) s))"

lemma reads_bnd:
  assumes "reads m bs x" "asks s (bs @ rest)"
  shows "bnd m f s = f x (skip_in (length bs) s)" "asks (skip_in (length bs) s) rest"
proof -
  have "m s = Inr (x, skip_in (length bs) s)" using assms unfolding reads_def by blast
  then show "bnd m f s = f x (skip_in (length bs) s)" by (simp add: bnd_run)
  show "asks (skip_in (length bs) s) rest" using assms(2) by (rule asks_skip)
qed

named_theorems reads_rules \<open>what the calls that read a request read\<close>

lemma reads_get:
  assumes "asks s (bs @ rest)" "bs \<noteq> []"
  shows "get_bytes (length bs) (inbuf (cl s)) =
    (bs, addOffset (word_of_nat (length bs)) (inbuf (cl s)))"
  using asks_cursor [OF assms] by (simp add: get_bytes_def addOffset_def)

lemma u8_bytes_single: "u8_bytes b = [b]"
  by (simp add: le_bytes_def)

lemma reads_u8 [reads_rules]: "reads in_u8 [b] b"
proof -
  have "bytes_u8 [b] = b" using c8.dec_enc [of b] by (simp add: u8_bytes_single del: One_nat_def)
  moreover have "get_bytes 1 (inbuf (cl s)) = ([b], addOffset 1 (inbuf (cl s)))"
    if "asks s ([b] @ rest)" for s :: "'a session" and rest
    using reads_get [OF that] by simp
  ultimately show ?thesis
    by (simp add: reads_def in_u8_def on_in_def get_u8_def skip_in_def del: One_nat_def)
qed

lemma reads_u32 [reads_rules]: "reads in_u32 (u32_bytes w) w"
proof -
  have "get_bytes 4 (inbuf (cl s)) = (u32_bytes w, addOffset 4 (inbuf (cl s)))"
    if "asks s (u32_bytes w @ rest)" for s :: "'a session" and rest
    using reads_get [OF that] by (simp flip: length_greater_0_conv)
  then show ?thesis by (auto simp: reads_def in_u32_def on_in_def get_u32_def skip_in_def c32.dec_enc)
qed

text \<open>A text field whose text ends before the field does.\<close>

definition text_ok :: "nat \<Rightarrow> cppstring \<Rightarrow> bool" where
  "text_ok n t \<longleftrightarrow> length t < n \<and> CHR 0x00 \<notin> set t"

lemma bytes_of_no_nul: "CHR 0x00 \<notin> set t \<Longrightarrow> 0 \<notin> set (bytes_of t)"
proof -
  assume a: "CHR 0x00 \<notin> set t"
  have "byte_of c \<noteq> 0" if "c \<in> set t" for c
  proof
    assume "byte_of c = 0"
    then have "c = char_of_byte 0" using char_of_byte_of [of c] by simp
    moreover have "char_of_byte 0 = CHR 0x00" by (simp add: char_of_byte_def char_of_def)
    ultimately show False using a that by simp
  qed
  then show ?thesis by (auto simp: bytes_of_def)
qed

lemma pad_field_text:
  "text_ok n t \<Longrightarrow> pad_field n t = bytes_of t @ replicate (n - length t) 0 \<and> length (pad_field n t) = n"
  by (simp add: text_ok_def pad_field_def bytes_of_no_nul cstr_id)

lemma reads_string [reads_rules]:
  assumes "text_ok (unat n) t" "unat n \<le> 8192"
  shows "reads (in_string n) (pad_field (unat n) t) t"
  unfolding reads_def
proof (intro allI impI)
  fix s :: "'a session" and rest assume a: "asks s (pad_field (unat n) t @ rest)"
  note p = pad_field_text [OF assms(1)]
  have n: "0 < unat n" using assms(1) by (simp add: text_ok_def)
  then have ne: "pad_field (unat n) t \<noteq> []" using p by auto
  note c = asks_cursor [OF a ne]
  obtain m where m: "unat n - length t = Suc m" using assms(1) by (auto simp: text_ok_def dest: less_imp_Suc_add)
  have p1: "pad_field (unat n) t = bytes_of t @ replicate (unat n - length t) 0"
    and p2: "length (pad_field (unat n) t) = unat n" using p by blast+
  have "cstr (pad_field (unat n) t @ rest) = bytes_of t"
    using assms(1) by (simp add: p1 m text_ok_def bytes_of_no_nul cstr_append_nul)
  then have d: "string_of (cstr (drop (unat (pOffset (inbuf (cl s)))) (buffer (inbuf (cl s))))) = t"
    by (simp add: c(3))
  have "wf_packet (inbuf (cl s))" using a by (simp add: asks_def)
  moreover have "unat (pOffset (inbuf (cl s))) + unat n \<le> 8192" using c(1) by (simp only: p2)
  ultimately have "getStringA n (inbuf (cl s)) =
      Inr (t, (inbuf (cl s))\<lparr>pOffset := pOffset (inbuf (cl s)) + ucast n\<rparr>)"
    using getStringA_wf [of "inbuf (cl s)" n] n by (simp only: d)
  moreover have "word_of_nat (unat n) = (ucast n :: u16)" by simp
  ultimately show "in_string n s = Inr (t, skip_in (length (pad_field (unat n) t)) s)"
    unfolding p2 by (simp add: in_string_def on_in_fault_def skip_in_def addOffset_def)
qed

section \<open>Writing\<close>

abbreviation message_of :: "u16 \<Rightarrow> u16 \<Rightarrow> byte list list \<Rightarrow> packet" where
  "message_of \<equiv> sample_request"

definition set_out :: "packet \<Rightarrow> 'd session \<Rightarrow> 'd session" where
  "set_out p s = s\<lparr>cl := (cl s)\<lparr>outbuf := p\<rparr>\<rparr>"

lemma set_out_simps [simp]:
  "set_out p (set_out q s) = set_out p s" "outbuf (cl (set_out p s)) = p" "sdb (set_out p s) = sdb s"
  "inbuf (cl (set_out p s)) = inbuf (cl s)"
  by (simp_all add: set_out_def)

definition writes :: "('d session, unit) prog \<Rightarrow> byte list list \<Rightarrow> bool" where
  "writes m fs \<longleftrightarrow> (\<forall>s t sub gs. outbuf (cl s) = message_of t sub gs \<longrightarrow>
     length (concat gs) + length (concat fs) \<le> 8000 \<longrightarrow>
     m s = Inr ((), set_out (message_of t sub (gs @ fs)) s))"

named_theorems writes_rules \<open>what the calls that write a reply append\<close>

lemma message_of_append: "message_of t sub (gs @ [bs]) = append_bytes bs (message_of t sub gs)"
  by (simp add: sample_request_def)

lemma writes_Nil [writes_rules]: "writes (steps []) []"
  by (simp add: writes_def ret_run set_out_def)

lemma writes_Cons [writes_rules]:
  assumes "writes m fs" "writes (steps ms) gs"
  shows "writes (steps (m # ms)) (fs @ gs)"
  using assms by (simp add: writes_def stm_run)

lemma writes_out: "(\<And>p. f p = append_bytes bs p) \<Longrightarrow> writes (out f) [bs]"
  by (simp add: writes_def out_def modify_run set_out_def message_of_append)

lemma writes_numbers [writes_rules]:
  "writes (out_u8 b) [[b]]" "writes (out_u32 w) [u32_bytes w]" "writes (out_u64 d) [u64_bytes d]"
  unfolding out_u8_def out_u32_def out_u64_def
  by (rule writes_out, simp add: append_u8_def append_u32_def append_u64_def u8_bytes_single del: One_nat_def)+

lemma writes_string [writes_rules]:
  assumes "length t \<le> unat n" "unat n \<le> 8000"
  shows "writes (out_string t n) [pad_field (unat n) t]"
  unfolding writes_def
proof (intro allI impI)
  fix s :: "'a session" and ty sub gs
  assume o: "outbuf (cl s) = message_of ty sub gs"
    and l: "length (concat gs) + length (concat [pad_field (unat n) t]) \<le> 8000"
  then have g: "length (concat gs) \<le> 8000" by simp
  note m = sample_request_layout [OF g, of ty sub]
  have "unat (pOffset (message_of ty sub gs)) + unat n < 8192"
    using m(3) l length_pad_field [OF assms(1)] by simp
  then show "out_string t n s = Inr ((), set_out (message_of ty sub (gs @ [pad_field (unat n) t])) s)"
    using appendString_as_pads [OF m(1) assms(1)] o
    by (simp add: out_string_def out_def modify_run set_out_def message_of_append)
qed

lemma writes_stoul [writes_rules]: "writes (out_stoul (dec_word w)) [u32_bytes w]"
  using writes_numbers(2) [of w] by (simp add: writes_def out_stoul_def stoulP_def stoul_dec bnd_run lift_run)

lemma writes_stoul8 [writes_rules]: "writes (out_stoul8 (dec_word (w :: u32))) [[ucast w]]"
  using writes_numbers(1) [of "ucast w"]
  by (simp add: writes_def out_stoul8_def stoulP_def stoul_dec bnd_run lift_run)

lemma writes_stoull [writes_rules]: "writes (out_stoull (dec_word w)) [u64_bytes w]"
  using writes_numbers(3) [of w]
  by (simp add: writes_def out_stoull_def stoullP_def stoull_dec bnd_run lift_run)

text \<open>
  Blocks: an array of a given size, and zeros that are skipped. Behind the cursor of a message that
  has room all bytes are zero.
\<close>

lemma room_behind_message:
  assumes "length (concat gs) + n \<le> 8000" "p = message_of t sub gs"
  shows "fresh p" "unat (pOffset p) + n < 8192" "length (buffer p) = 8192" "pSize p = pOffset p"
    and "drop (unat (pOffset p)) (buffer p) = replicate (8192 - unat (pOffset p)) 0"
proof -
  have g: "length (concat gs) \<le> 8000" using assms(1) by simp
  note m = sample_request_layout [OF g, of t sub]
  show "fresh p" "unat (pOffset p) + n < 8192" "pSize p = pOffset p" using m(1,3,4) assms by simp_all
  then show "length (buffer p) = 8192" "drop (unat (pOffset p)) (buffer p) = replicate (8192 - unat (pOffset p)) 0"
    by (simp_all add: fresh_def wf_length)
qed

lemma writes_skip [writes_rules]:
  assumes "unat n \<le> 8000"
  shows "writes (out_skip n) [replicate (unat n) 0]"
  unfolding writes_def
proof (intro allI impI)
  fix s :: "'a session" and ty sub gs
  assume o: "outbuf (cl s) = message_of ty sub gs"
    and "length (concat gs) + length (concat [replicate (unat n) (0 :: byte)]) \<le> 8000"
  then have l: "length (concat gs) + unat n \<le> 8000" by simp
  note m = room_behind_message [OF l o]
  have "overwrite (unat (pOffset (outbuf (cl s)))) ([] @ replicate (unat n) 0) (buffer (outbuf (cl s))) =
      overwrite (unat (pOffset (outbuf (cl s)))) [] (buffer (outbuf (cl s)))"
    by (rule overwrite_zeros [OF m(5)]) (use m(2,3) in simp_all)
  moreover have "word_of_nat (unat n) = (ucast n :: u16)" by simp
  ultimately have "addOffset (ucast n) (addSize (ucast n) (outbuf (cl s))) =
      append_bytes (replicate (unat n) 0) (outbuf (cl s))"
    using m(2) by (cases "outbuf (cl s)") (simp add: addOffset_def addSize_def append_bytes_def)
  then show "out_skip n s = Inr ((), set_out (message_of ty sub (gs @ [replicate (unat n) 0])) s)"
    using o by (simp add: out_skip_def out_def modify_run set_out_def message_of_append)
qed

lemma writes_array [writes_rules]:
  assumes "unat n \<le> length bs" "unat n \<le> 8000"
  shows "writes (out_array bs n) [take (unat n) bs]"
  unfolding writes_def
proof (intro allI impI)
  fix s :: "'a session" and ty sub gs
  assume o: "outbuf (cl s) = message_of ty sub gs"
    and l: "length (concat gs) + length (concat [take (unat n) bs]) \<le> 8000"
  then have "length (concat gs) + unat n \<le> 8000" using assms(1) by simp
  note m = room_behind_message [OF this o]
  have "word_of_nat (unat n) = (ucast n :: u16)" by simp
  then have "appendArray bs n (outbuf (cl s)) = Inr (append_bytes (take (unat n) bs) (outbuf (cl s)))"
    using m(2) assms by (simp add: appendArray_def append_bytes_def copy_ok_def unat_add_ucast min_def)
  then show "out_array bs n s = Inr ((), set_out (message_of ty sub (gs @ [take (unat n) bs])) s)"
    using o by (simp add: out_array_def out_fault_def set_out_def message_of_append)
qed

text \<open>Characters that are stored at the cursor, over which the cursor is then moved.\<close>

lemma writes_text_block:
  assumes "length t \<le> 16" "CHR 0x00 \<notin> set t" "writes (steps ms) fs"
  shows "writes (steps (out_set_array (bytes_of t @ [0]) (word_of_nat (length t)) # out_move 16 # ms))
    ([pad_field 16 t] @ fs)"
  unfolding writes_def
proof (intro allI impI)
  fix s :: "'a session" and ty sub gs
  assume o: "outbuf (cl s) = message_of ty sub gs"
    and l: "length (concat gs) + length (concat ([pad_field 16 t] @ fs)) \<le> 8000"
  let ?p = "outbuf (cl s)" and ?n = "word_of_nat (length t) :: u32"
  have n: "unat ?n = length t" using assms(1) by (simp add: unat_of_nat)
  have pad: "pad_field 16 t = bytes_of t @ replicate (16 - length t) 0" "length (pad_field 16 t) = 16"
    using assms(1) length_pad_field [OF assms(1)] by (simp_all add: pad_field_def bytes_of_no_nul [OF assms(2)] cstr_id)
  have l16: "length (concat gs) + 16 \<le> 8000" using l pad(2) by simp
  note m = room_behind_message [OF l16 o]
  have c: "unat (ucast (pOffset ?p) :: u32) = unat (pOffset ?p)"
    by (rule unat_ucast_u32)
  have "unat (ucast (pOffset ?p) + ?n) < 8192" using m(2) assms(1) n by (simp add: unat_add_ucast)
  then have set: "setArray (bytes_of t @ [0]) ?n (ucast (pOffset ?p)) ?p =
      Inr (?p\<lparr>buffer := overwrite (unat (pOffset ?p)) (bytes_of t) (buffer ?p)\<rparr>)"
    using m(2) assms(1) n c by (simp add: setArray_def copy_ok_def)
  have "overwrite (unat (pOffset ?p)) (bytes_of t @ replicate (16 - length t) 0) (buffer ?p) =
      overwrite (unat (pOffset ?p)) (bytes_of t) (buffer ?p)"
    by (rule overwrite_zeros [OF m(5)]) (use m(2,3) assms(1) in simp_all)
  moreover have "(ucast (ucast w + (16 :: u32)) :: u16) = w + 16" for w :: u16
  proof -
    have "unat (ucast w + (16 :: u32)) = unat w + 16"
      using unat_less [of w] by (simp add: unat_add_ucast)
    moreover have "(ucast v :: u16) = word_of_nat (unat v)" for v :: u32 by simp
    ultimately have "(ucast (ucast w + (16 :: u32)) :: u16) = word_of_nat (unat w + 16)" by metis
    then show ?thesis by simp
  qed
  ultimately have "setSize (ucast (ucast (pSize q) + (16 :: u32))) (setOffset (ucast (ucast (pOffset q) + (16 :: u32))) q) =
      append_bytes (pad_field 16 t) ?p"
    if "q = ?p\<lparr>buffer := overwrite (unat (pOffset ?p)) (bytes_of t) (buffer ?p)\<rparr>" for q
    using m(2,4) pad assms(1) that by (simp add: setSize_def setOffset_def append_bytes_def)
  then have "steps (out_set_array (bytes_of t @ [0]) ?n # out_move 16 # ms) s =
      steps ms (set_out (message_of ty sub (gs @ [pad_field 16 t])) s)"
    using set o by (simp add: stm_run out_set_array_def out_fault_def out_move_def out_def modify_run set_out_def
        message_of_append)
  then show "steps (out_set_array (bytes_of t @ [0]) ?n # out_move 16 # ms) s =
      Inr ((), set_out (message_of ty sub (gs @ [pad_field 16 t] @ fs)) s)"
    using assms(3) l pad(2) by (simp add: writes_def)
qed

text \<open>A whole reply.\<close>

lemma clearBuffer_init: "clearBuffer p = init_packet"
  by (simp add: clearBuffer_def init_packet_def)

lemma start_reply_run: "start_reply t sub s = Inr ((), set_out (message_of t sub []) s)"
  by (simp add: start_reply_def out_def modify_run set_out_def sample_request_def reply_header_def
      clearBuffer_init)

lemma reply_run:
  assumes "writes (steps ms) fs" "length (concat fs) \<le> 8000"
  shows "steps (start_reply t sub # ms) s = Inr ((), set_out (message_of t sub fs) s)"
  using assms by (simp add: stm_run start_reply_run writes_def)

end
