(* ===== verification/Chat_Properties.thy ===== *)
theory Chat_Properties
  imports Exchange Output_Properties
begin

text \<open>
  Chat between players of different game servers: a request is passed on to every connection as it
  came, under the header of the reply.
\<close>

section \<open>Messages\<close>

text \<open>The three messages, and the fields in which they travel in both directions.\<close>

datatype chat =
    Offline byte cppstring cppstring cppstring
  | Inform cppstring cppstring u32
  | TeamChat cppstring cppstring u32

fun chat_sub :: "chat \<Rightarrow> u16" where
  "chat_sub (Offline ty from to msg) = 0"
| "chat_sub (Inform to msg colour) = 1"
| "chat_sub (TeamChat from msg team) = 2"

fun chat_fields :: "chat \<Rightarrow> byte list list" where
  "chat_fields (Offline ty from to msg) = [[ty], pad_field 16 from, pad_field 16 to, pad_field 78 msg]"
| "chat_fields (Inform to msg colour) = [pad_field 16 to, pad_field 78 msg, u32_bytes colour]"
| "chat_fields (TeamChat from msg team) = [pad_field 16 from, pad_field 78 msg, u32_bytes team]"

fun chat_ok :: "chat \<Rightarrow> bool" where
  "chat_ok (Offline ty from to msg) \<longleftrightarrow> text_ok 16 from \<and> text_ok 16 to \<and> text_ok 78 msg"
| "chat_ok (Inform to msg colour) \<longleftrightarrow> text_ok 16 to \<and> text_ok 78 msg"
| "chat_ok (TeamChat from msg team) \<longleftrightarrow> text_ok 16 from \<and> text_ok 78 msg"

lemma text_field: "text_ok n t \<Longrightarrow> length (pad_field n t) = n" "text_ok n t \<Longrightarrow> length t \<le> n"
  using pad_field_text [of n t] by (auto simp: text_ok_def)

lemma chat_length: "chat_ok m \<Longrightarrow> length (concat (chat_fields m)) \<le> 111"
  by (cases m) (simp_all add: text_field)

lemma reads_text:
  "text_ok 16 t \<Longrightarrow> reads (in_string 0x10) (pad_field 16 t) t"
  "text_ok 78 t \<Longrightarrow> reads (in_string 0x4E) (pad_field 78 t) t"
  using reads_string [of 16 t] reads_string [of 78 t] by simp_all

lemma writes_text:
  "text_ok 16 t \<Longrightarrow> writes (out_string t 0x10) [pad_field 16 t]"
  "text_ok 78 t \<Longrightarrow> writes (out_string t 0x4E) [pad_field 78 t]"
  using writes_string [of t 16] writes_string [of t 78] text_field(2) [of 16 t] text_field(2) [of 78 t]
  by simp_all

section \<open>The handlers\<close>

text \<open>What a chat handler does with a session that asks for \<open>m\<close>.\<close>

definition relays :: "('d session, after) prog \<Rightarrow> chat \<Rightarrow> bool" where
  "relays h m \<longleftrightarrow> (\<forall>s rest. asks s (concat (chat_fields m) @ rest) \<longrightarrow>
     h s = Inr (BroadcastReturn, set_out (message_of 4 (chat_sub m) (chat_fields m))
       (skip_in (length (concat (chat_fields m))) s)))"

lemma reply_out:
  assumes "writes (steps ms) fs" "length (concat fs) \<le> 8000"
  shows "stm (steps (start_reply t sub # ms)) (ret BroadcastReturn) s =
    Inr (BroadcastReturn, set_out (message_of t sub fs) s)"
  using reply_run [OF assms, of t sub s] by (simp add: stm_run ret_run)

lemma offline_chat_relays:
  assumes "text_ok 16 f" "text_ok 16 g" "text_ok 78 msg"
  shows "relays offline_chat (Offline ty f g msg)"
  unfolding relays_def
proof (intro allI impI)
  fix s :: "'a session" and rest
  assume "asks s (concat (chat_fields (Offline ty f g msg)) @ rest)"
  then have a: "asks s ([ty] @ pad_field 16 f @ pad_field 16 g @ pad_field 78 msg @ rest)" by simp
  note b1 = reads_bnd [OF reads_u8 a]
  note b2 = reads_bnd [OF reads_text(1) [OF assms(1)] b1(2)]
  note b3 = reads_bnd [OF reads_text(1) [OF assms(2)] b2(2)]
  note b4 = reads_bnd [OF reads_text(2) [OF assms(3)] b3(2)]
  have "writes (steps [out_u8 ty, out_string f 0x10, out_string g 0x10, out_string msg 0x4E])
      ([[ty]] @ [pad_field 16 f] @ [pad_field 16 g] @ [pad_field 78 msg] @ [])"
    using assms by (intro writes_rules writes_text)
  from reply_out [OF this] show "offline_chat s =
      Inr (BroadcastReturn, set_out (message_of 4 (chat_sub (Offline ty f g msg)) (chat_fields (Offline ty f g msg)))
        (skip_in (length (concat (chat_fields (Offline ty f g msg)))) s))"
    unfolding offline_chat_def b1(1) b2(1) b3(1) b4(1)
    by (simp add: text_field(1) assms)
qed

lemma inform_client_relays:
  assumes "text_ok 16 f" "text_ok 78 msg"
  shows "relays inform_client (Inform f msg w)"
  unfolding relays_def
proof (intro allI impI)
  fix s :: "'a session" and rest
  assume "asks s (concat (chat_fields (Inform f msg w)) @ rest)"
  then have a: "asks s (pad_field 16 f @ pad_field 78 msg @ u32_bytes w @ rest)" by simp
  note b1 = reads_bnd [OF reads_text(1) [OF assms(1)] a]
  note b2 = reads_bnd [OF reads_text(2) [OF assms(2)] b1(2)]
  note b3 = reads_bnd [OF reads_u32 b2(2)]
  have "writes (steps [out_string f 0x10, out_string msg 0x4E, out_u32 w])
      ([pad_field 16 f] @ [pad_field 78 msg] @ [u32_bytes w] @ [])"
    using assms by (intro writes_rules writes_text)
  from reply_out [OF this] show "inform_client s =
      Inr (BroadcastReturn, set_out (message_of 4 (chat_sub (Inform f msg w)) (chat_fields (Inform f msg w)))
        (skip_in (length (concat (chat_fields (Inform f msg w)))) s))"
    unfolding inform_client_def b1(1) b2(1) b3(1)
    by (simp add: text_field(1) assms)
qed

lemma team_chat_relays:
  assumes "text_ok 16 f" "text_ok 78 msg"
  shows "relays team_chat (TeamChat f msg w)"
  unfolding relays_def
proof (intro allI impI)
  fix s :: "'a session" and rest
  assume "asks s (concat (chat_fields (TeamChat f msg w)) @ rest)"
  then have a: "asks s (pad_field 16 f @ pad_field 78 msg @ u32_bytes w @ rest)" by simp
  note b1 = reads_bnd [OF reads_text(1) [OF assms(1)] a]
  note b2 = reads_bnd [OF reads_text(2) [OF assms(2)] b1(2)]
  note b3 = reads_bnd [OF reads_u32 b2(2)]
  have "writes (steps [out_string f 0x10, out_string msg 0x4E, out_u32 w])
      ([pad_field 16 f] @ [pad_field 78 msg] @ [u32_bytes w] @ [])"
    using assms by (intro writes_rules writes_text)
  from reply_out [OF this] show "team_chat s =
      Inr (BroadcastReturn, set_out (message_of 4 (chat_sub (TeamChat f msg w)) (chat_fields (TeamChat f msg w)))
        (skip_in (length (concat (chat_fields (TeamChat f msg w)))) s))"
    unfolding team_chat_def b1(1) b2(1) b3(1)
    by (simp add: text_field(1) assms)
qed

text \<open>A slot whose request is \<open>m\<close>; what is behind the message does not matter.\<close>

definition chat_request :: "client \<Rightarrow> chat \<Rightarrow> bool" where
  "chat_request c m \<longleftrightarrow>
     getSubType (inbuf c) = chat_sub m \<and> (\<exists>rest. drop 6 (buffer (inbuf c)) = concat (chat_fields m) @ rest)"

lemma ClientOperations_relays:
  assumes "chat_request (cl s) m" "chat_ok m" "wf_packet (inbuf (cl s))"
  shows "\<exists>q. ClientOperations s =
    Inr (BroadcastReturn, s\<lparr>cl := (cl s)\<lparr>inbuf := q, outbuf := message_of 4 (chat_sub m) (chat_fields m)\<rparr>\<rparr>)"
proof -
  let ?s = "s\<lparr>cl := (cl s)\<lparr>inbuf := setOffset 6 (inbuf (cl s))\<rparr>\<rparr>"
  obtain rest where rest: "drop 6 (buffer (inbuf (cl s))) = concat (chat_fields m) @ rest"
    and sub: "getSubType (inbuf (cl s)) = chat_sub m"
    using assms(1) by (auto simp: chat_request_def)
  have "asks ?s (concat (chat_fields m) @ rest)"
    using rest assms(3) by (simp add: asks_def unread_def setOffset_def wf_packet_def)
  moreover have "relays (if chat_sub m = 0 then offline_chat else if chat_sub m = 1 then inform_client else team_chat :: ('a session, after) prog) m"
    using assms(2) by (cases m) (simp_all add: offline_chat_relays inform_client_relays team_chat_relays)
  ultimately have "(if chat_sub m = 0 then offline_chat else if chat_sub m = 1 then inform_client else team_chat) ?s =
      Inr (BroadcastReturn, set_out (message_of 4 (chat_sub m) (chat_fields m))
        (skip_in (length (concat (chat_fields m))) ?s))"
    unfolding relays_def by blast
  moreover have "getSubType (setOffset 6 (inbuf (cl s))) = chat_sub m"
    using sub by (simp add: getSubType_def setOffset_def)
  moreover have "chat_sub m = 0 \<or> chat_sub m = 1 \<or> chat_sub m = 2" by (cases m) simp_all
  ultimately have "ClientOperations s = Inr (BroadcastReturn,
      set_out (message_of 4 (chat_sub m) (chat_fields m)) (skip_in (length (concat (chat_fields m))) ?s))"
    by (auto simp: ClientOperations_def stm_run in_offset_def on_in_def bnd_run gets_run)
  then show ?thesis by (auto simp: set_out_def skip_in_def)
qed

section \<open>Through the server\<close>

lemma enqueue_packets: "enqueue e (c\<lparr>inbuf := p, outbuf := q\<rparr>) = (enqueue e c)\<lparr>inbuf := p, outbuf := q\<rparr>"
  by (cases c) (simp add: enqueue_def)

text \<open>
  C15: A chat message of an authenticated game server reaches every connection, its own included: each
  gets one more frame in its queue, the message with the fields of the request, nothing else in the
  server changes but the two packets of the sender, and the database is not asked.
\<close>

theorem chat_reaches_every_connection:
  assumes "server_ok s" "k < length (connections s)" "isAuth (connections s ! k)"
    and "\<not> todc (connections s ! k)" "16 \<le> unat (pSize (inbuf (connections s ! k)))"
    and "getType (inbuf (connections s ! k)) = 4" "chat_request (connections s ! k) m" "chat_ok m"
    and "length (connections s) \<le> 4000"
  shows "\<exists>p q. ProcessPacket E k s = Inr (s\<lparr>connections :=
      (to_used (message_frame (message_of 4 (chat_sub m) (chat_fields m))) (connections s))
        [k := (to_used (message_frame (message_of 4 (chat_sub m) (chat_fields m))) (connections s) ! k)
          \<lparr>inbuf := p, outbuf := q\<rparr>]\<rparr>)"
proof -
  let ?c = "connections s ! k" and ?msg = "message_of 4 (chat_sub m) (chat_fields m)"
  have slot: "slot_ok ?c" using assms(1,2) by (rule server_ok_slot)
  obtain D where D: "db s = Some D" using assms(1) by (auto simp: server_ok_def)
  obtain p where p: "ClientOperations \<lparr>cl = ?c, sdb = D\<rparr> =
      Inr (BroadcastReturn, \<lparr>cl = ?c\<lparr>inbuf := p, outbuf := ?msg\<rparr>, sdb = D\<rparr>)"
    using ClientOperations_relays [of "\<lparr>cl = ?c, sdb = D\<rparr>" m] assms(7,8) slot by (auto simp: slot_ok_def)
  define u where "u = s\<lparr>connections := (connections s)[k := ?c\<lparr>inbuf := p, outbuf := ?msg\<rparr>]\<rparr>"
  have "s\<lparr>connections := cs, db := Some D\<rparr> = s\<lparr>connections := cs\<rparr>" for cs using D by (cases s) simp
  note same = this
  have "unat (getType (inbuf ?c)) = 4" using assms(6) by simp
  then have pp: "ProcessPacket E k s = SendToAll k u"
    using assms(3-6) slot D p
    by (simp add: ProcessPacket_run Let_def refused_def packet_function_count_def MainPacketFunctions_def
        run_handler_def finish_def u_def same)
  have out: "outbuf (connections u ! k) = ?msg" "k < length (connections u)" using assms(2) by (simp_all add: u_def)
  have len: "length (concat (chat_fields m)) \<le> 111" by (rule chat_length [OF assms(8)])
  then have msg: "message_ok ?msg" by (intro message_ok_request) simp
  have "broadcast_fits ?msg (connections u)"
  proof -
    have "used_count (connections u) \<le> 4000"
      using assms(9) length_filter_le [of slot_used "connections u"] by (simp add: used_count_def u_def)
    moreover have "padded_size (unat (pSize ?msg) - 2) \<le> max 32 (unat (pSize ?msg) - 2 + 15)"
      by (rule padded_size_props)
    moreover have "unat (pSize ?msg) \<le> 117"
      using sample_request_layout(3,4) [of "chat_fields m" 4 "chat_sub m"] len by simp
    ultimately show ?thesis unfolding broadcast_fits_def by linarith
  qed
  then obtain q where q: "SendToAll k u = Inr (u\<lparr>connections :=
      (to_used (message_frame ?msg) (connections u))[k := (to_used (message_frame ?msg) (connections u) ! k)\<lparr>outbuf := q\<rparr>]\<rparr>)"
    using send_each_message(1) [OF msg, of "connections u"] out by (auto simp: SendToAll_def)
  have "to_used (message_frame ?msg) (connections u) =
      (to_used (message_frame ?msg) (connections s))[k := (to_used (message_frame ?msg) (connections s) ! k)
        \<lparr>inbuf := p, outbuf := ?msg\<rparr>]"
    using assms(2) enqueue_packets by (simp add: u_def to_used_def map_update slot_used_def)
  then have "SendToAll k u = Inr (s\<lparr>connections :=
      (to_used (message_frame ?msg) (connections s))[k := (to_used (message_frame ?msg) (connections s) ! k)
        \<lparr>inbuf := p, outbuf := q\<rparr>]\<rparr>)"
    unfolding q using assms(2) by (simp add: to_used_def) (simp add: u_def)
  then show ?thesis unfolding pp by blast
qed

definition greeting :: chat where
  "greeting = Inform ''bob'' ''hi'' 7"

lemma greeting_fields: "chat_ok greeting" "length (concat (chat_fields greeting)) = 98" "chat_sub greeting = 1"
  by (simp_all add: greeting_def text_ok_def text_field)

theorem chat_reaches_every_connection_witness:
  "\<exists>t. ProcessPacket sample_env 0 (sample_server ((sample_slot True)
      \<lparr>inbuf := message_of 4 1 (chat_fields greeting)\<rparr>) []) = Inr t \<and>
    sendQueue (connections t ! 0) = [padded_entry (message_frame (message_of 4 1 (chat_fields greeting)))]"
proof -
  let ?c = "(sample_slot True)\<lparr>inbuf := message_of 4 1 (chat_fields greeting)\<rparr>"
  let ?s = "sample_server ?c []"
  have fits: "length (concat (chat_fields greeting)) \<le> 8000" by (simp add: greeting_fields)
  note b = sample_request_buffer [OF fits, of 4 1] and l = sample_request_layout [OF fits, of 4 1]
  have conn: "connections ?s = [?c]" by (simp add: sample_server_def)
  have ok: "server_ok ?s"
    by (rule sample_server_slot_ok [OF slot_ok_request [OF fits]]) (simp add: same_peer_def)
  have n: "(u16_bytes 4 :: byte list) = [4, 0]" "(u16_bytes 1 :: byte list) = [1, 0]"
    by (simp_all add: le_bytes_def upt_conv_Cons)
  let ?f = "concat (chat_fields greeting)"
  have buf: "buffer (inbuf ?c) = [0, 0, 4, 0, 1, 0] @ ?f @ replicate (8186 - length ?f) 0"
    using b by (simp add: n del: concat.simps chat_fields.simps)
  have "drop 6 (buffer (inbuf ?c)) = ?f @ replicate (8186 - length ?f) 0" unfolding buf by simp
  moreover have "getSubType (inbuf ?c) = 1" "getType (inbuf ?c) = 4"
    unfolding getSubType_def getType_def buf by (simp_all add: block_def)
  ultimately have req: "chat_request ?c greeting" "getType (inbuf ?c) = 4"
    unfolding chat_request_def greeting_fields(3) by blast+
  have "unat (pSize (inbuf ?c)) = 104" using l(3,4) by (simp add: greeting_fields)
  moreover have "sendQueue ?c = []" "slot_used ?c" "isAuth ?c" "\<not> todc ?c"
    by (simp_all add: sample_slot_def new_CLIENT_def Initialize_def ClearSendQueue_def slot_used_def)
  ultimately show ?thesis
    using chat_reaches_every_connection [OF ok, of 0 greeting sample_env] req
    by (auto simp: conn greeting_fields to_used_def enqueue_def)
qed

end
