(* ===== verification/Login_Properties.thy ===== *)
theory Login_Properties
  imports Exchange Security_Properties
begin

text \<open>
  What the login of a player answers: the values of the account's row, that the account is in use, or
  that the login failed; and what a request does that is too short.
\<close>

section \<open>Accounts\<close>

record account =
  a_license :: u32
  a_handle :: cppstring
  a_cp :: u64
  a_level :: u32
  a_points :: u32
  a_playerwin :: u32
  a_playerlose :: u32
  a_rivalwin :: u32
  a_rivallose :: u32
  a_activecar :: u32
  a_privileges :: u32
  a_teamid :: u32
  a_teamarea :: u32
  a_state :: u32
  a_beginner :: u32
  a_garagecount :: u32

text \<open>
  The columns of the account's row, as a save request stores them, and the record the code reads them
  into. A team number with its highest bit set stands for no team and is stored as NULL.
\<close>

definition account_columns :: "account \<Rightarrow> (cppstring \<times> cppstring) list" where
  "account_columns a =
     [(''license'', dec_word (a_license a)), (''handle'', a_handle a), (''cp'', dec_word (a_cp a)),
      (''level'', dec_word (a_level a)), (''points'', dec_word (a_points a)),
      (''playerwin'', dec_word (a_playerwin a)), (''playerlose'', dec_word (a_playerlose a)),
      (''rivalwin'', dec_word (a_rivalwin a)), (''rivallose'', dec_word (a_rivallose a)),
      (''activecar'', dec_word (a_activecar a)), (''privileges'', dec_word (a_privileges a)),
      (''teamid'', teamIDStr (a_teamid a)), (''teamarea'', dec_word (a_teamarea a)),
      (''state'', dec_word (a_state a)), (''beginner'', dec_word (a_beginner a)),
      (''garagecount'', dec_word (a_garagecount a))]"

definition account_texts :: "account \<Rightarrow> account_row" where
  "account_texts a =
     \<lparr>ac_license = dec_word (a_license a), ac_handle = a_handle a, ac_cp = dec_word (a_cp a),
      ac_level = dec_word (a_level a), ac_points = dec_word (a_points a),
      ac_playerwin = dec_word (a_playerwin a), ac_playerlose = dec_word (a_playerlose a),
      ac_rivalwin = dec_word (a_rivalwin a), ac_rivallose = dec_word (a_rivallose a),
      ac_activecar = dec_word (a_activecar a), ac_privileges = dec_word (a_privileges a),
      ac_teamid = teamIDStr (a_teamid a), ac_teamarea = dec_word (a_teamarea a),
      ac_state = dec_word (a_state a), ac_notbeginner = dec_word (a_beginner a),
      ac_garagecount = dec_word (a_garagecount a)\<rparr>"

text \<open>Without a team the code goes on with the text -1, and sends the largest number.\<close>

definition in_team :: "account \<Rightarrow> bool" where
  "in_team a \<longleftrightarrow> 0 \<le> sint (a_teamid a)"

definition account_values :: "account \<Rightarrow> account_row" where
  "account_values a = (account_texts a)\<lparr>ac_teamid := if in_team a then dec_word (a_teamid a) else ''-1''\<rparr>"

definition team_number :: "account \<Rightarrow> u32" where
  "team_number a = (if in_team a then a_teamid a else 0xFFFFFFFF)"

lemma teamIDStr_number:
  assumes "0 \<le> sint t"
  shows "teamIDStr t = dec_word t"
proof -
  have "\<not> bit t 31" using assms bit_last_iff [of t] by simp
  then have "\<not> bit (uint t) 31" by (simp add: bit_uint_iff)
  then have "sint t = take_bit 31 (uint t)" by (simp add: sint_uint signed_take_bit_eq_if_positive)
  moreover have "take_bit (Suc 31) (uint t) = take_bit 31 (uint t)"
    using \<open>\<not> bit (uint t) 31\<close> by (simp only: take_bit_Suc_from_most) simp
  moreover have "take_bit (Suc 31) (uint t) = uint t" using uint_sint [of t] by simp
  ultimately have "sint t = uint t" by simp
  then show ?thesis using assms by (simp add: teamIDStr_def dec_int_def)
qed

lemma stoul_minus_one: "stoul ''-1'' = Inr 0xFFFFFFFF"
  by (simp add: stoul_def parse_ul_def is_space_def is_digit_def digits_val_def digit_val_def less_eq_char_def Let_def)

lemma team_number_text: "stoul (if in_team a then dec_word (a_teamid a) else ''-1'') = Inr (team_number a)"
  by (simp add: team_number_def stoul_dec stoul_minus_one)

lemma db_value_run:
  assumes "results (sdb s) = row_of kvs # rs" "map_of kvs col = Some v"
  shows "db_value 0 col s = Inr (v, s)"
  using assms by (simp add: db_value_def bnd_run gets_run GetValue_name_def map_of_row_of lift_run)

lemma read_account_run:
  assumes "results (sdb s) = row_of (account_columns a @ xs) # rs"
  shows "read_account s = Inr (account_texts a, s)"
proof -
  have v: "map_of (account_columns a @ xs) col = Some v \<Longrightarrow> db_value 0 col s = Inr (v, s)" for col v
    using assms by (rule db_value_run)
  show ?thesis
    unfolding read_account_def bnd_run
    by (simp add: v account_columns_def account_texts_def ret_run)
qed

lemma dec_not_null: "dec n \<noteq> []" "dec n \<noteq> ''NULL''"
proof -
  have d: "list_all is_digit (dec n)" "dec n \<noteq> []" using dec_digits by auto
  show "dec n \<noteq> []" by (rule d)
  have "\<not> is_digit CHR ''N''" by (simp add: is_digit_def less_eq_char_def)
  then show "dec n \<noteq> ''NULL''" using d(1) by auto
qed

lemma if_null_or_empty_dec: "if_null_or_empty d (dec n) = dec n" "if_empty d (dec n) = dec n"
  using dec_not_null by (simp_all add: if_null_or_empty_def if_empty_def)

lemma account_defaults_texts:
  assumes "a_handle a \<noteq> ''NULL''"
  shows "account_defaults (account_texts a) = account_values a"
proof -
  have "if_null_or_empty ''-1'' (teamIDStr (a_teamid a)) = (if in_team a then dec_word (a_teamid a) else ''-1'')"
  proof (cases "in_team a")
    case True
    then have "teamIDStr (a_teamid a) = dec_word (a_teamid a)" unfolding in_team_def by (rule teamIDStr_number)
    then show ?thesis using True by (simp add: if_null_or_empty_dec)
  next
    case False
    then have "teamIDStr (a_teamid a) = ''NULL''" unfolding in_team_def teamIDStr_def not_le by (rule if_P)
    then show ?thesis using False by (simp add: if_null_or_empty_def)
  qed
  then show ?thesis
    using assms dec_not_null
    by (simp add: account_defaults_def account_texts_def account_values_def if_null_or_empty_dec Let_def)
qed

section \<open>The reply\<close>

definition account_fields :: "u32 \<Rightarrow> account \<Rightarrow> byte list \<Rightarrow> byte list list" where
  "account_fields k a rival =
     [u32_bytes k, u32_bytes (a_license a), [0], pad_field 16 (a_handle a), u64_bytes (a_cp a),
      [ucast (a_level a)], u32_bytes (a_points a), u32_bytes (a_playerwin a), u32_bytes (a_playerlose a),
      u32_bytes (a_rivalwin a), u32_bytes (a_rivallose a), rival, [ucast (a_activecar a)],
      [ucast (a_privileges a)], [ucast (a_beginner a)], u32_bytes (team_number a), u32_bytes (a_state a)]"

text \<open>The rivals: the blob when it has its size, else zeros.\<close>

definition rival_field :: "db_blob \<Rightarrow> byte list" where
  "rival_field b = (if blob_size b = 0x4B0 then take 0x4B0 (blob_data b) else replicate 0x4B0 0)"

definition blob_ok :: "db_blob \<Rightarrow> bool" where
  "blob_ok b \<longleftrightarrow> length (blob_data b) = unat (blob_size b)"

lemma writes_rivals:
  assumes "blob_ok b"
  shows "writes (if blob_size b \<noteq> 0x4B0 then out_skip 0x4B0 else out_array (blob_data b) (blob_size b)) [rival_field b]"
proof (cases "blob_size b = 0x4B0")
  case True
  then have "unat (blob_size b) = 1200" by simp
  then show ?thesis
    using writes_array [of "blob_size b" "blob_data b"] assms True by (simp add: rival_field_def blob_ok_def)
next
  case False
  then show ?thesis using writes_skip [of "0x4B0"] by (simp add: rival_field_def)
qed

lemma player_details_writes:
  assumes "length (a_handle a) \<le> 16" "CHR 0x00 \<notin> set (a_handle a)" "blob_ok b"
  obtains ms where "player_details k (account_values a) b = steps (start_reply 1 0 # ms)"
    and "writes (steps ms) (account_fields k a (rival_field b))"
proof -
  note w = writes_rules writes_rivals [OF assms(3)]
  have tm: "writes (out_stoul (if in_team a then dec_word (a_teamid a) else ''-1'')) [u32_bytes (team_number a)]"
    using writes_numbers(2) [of "team_number a"]
    by (simp only: writes_def out_stoul_def stoulP_def team_number_text bnd_run lift_run sum.case prod.case simp_thms)
  have "account_fields k a (rival_field b) = [u32_bytes k] @ [u32_bytes (a_license a)] @ [[0]] @
      [pad_field 16 (a_handle a)] @ [u64_bytes (a_cp a)] @ [[ucast (a_level a)]] @ [u32_bytes (a_points a)] @
      [u32_bytes (a_playerwin a)] @ [u32_bytes (a_playerlose a)] @ [u32_bytes (a_rivalwin a)] @
      [u32_bytes (a_rivallose a)] @ [rival_field b] @ [[ucast (a_activecar a)]] @ [[ucast (a_privileges a)]] @
      [[ucast (a_beginner a)]] @ [u32_bytes (team_number a)] @ [u32_bytes (a_state a)] @ []"
    by (simp add: account_fields_def)
  moreover have "writes (steps
     [out_u32 k, out_stoul (ac_license (account_values a)), out_u8 0,
      out_set_array (bytes_of (ac_handle (account_values a)) @ [0]) (word_of_nat (length (ac_handle (account_values a)))),
      out_move 16,
      out_stoull (ac_cp (account_values a)), out_stoul8 (ac_level (account_values a)), out_stoul (ac_points (account_values a)),
      out_stoul (ac_playerwin (account_values a)), out_stoul (ac_playerlose (account_values a)),
      out_stoul (ac_rivalwin (account_values a)), out_stoul (ac_rivallose (account_values a)),
      if blob_size b \<noteq> 0x4B0 then out_skip 0x4B0 else out_array (blob_data b) (blob_size b),
      out_stoul8 (ac_activecar (account_values a)), out_stoul8 (ac_privileges (account_values a)),
      out_stoul8 (ac_notbeginner (account_values a)), out_stoul (ac_teamid (account_values a)),
      out_stoul (ac_state (account_values a))]) (account_fields k a (rival_field b))"
    unfolding calculation account_values_def account_texts_def account_row.simps
    by (intro writes_Cons writes_text_block assms(1,2) writes_Nil w tm)
  ultimately show ?thesis
    by (intro that [OF player_details_def]) simp
qed

lemma player_details_run:
  fixes s :: "'d session"
  assumes "length (a_handle a) \<le> 16" "CHR 0x00 \<notin> set (a_handle a)" "blob_ok b"
  shows "player_details k (account_values a) b s =
    Inr ((), set_out (message_of 1 0 (account_fields k a (rival_field b))) s)"
proof -
  have len: "length (rival_field b) = 1200"
    using assms(3) by (auto simp: rival_field_def blob_ok_def)
  have "length (pad_field 16 (a_handle a)) = 16" using assms(1) by (rule length_pad_field)
  then have fits: "length (concat (account_fields k a (rival_field b))) \<le> 8000"
    by (simp add: account_fields_def len)
  obtain ms :: "('d session, unit) prog list"
    where "player_details k (account_values a) b = steps (start_reply 1 0 # ms)"
    "writes (steps ms) (account_fields k a (rival_field b))"
    using player_details_writes [OF assms] .
  then show ?thesis using reply_run [OF _ fits, of ms 1 0 s] by (simp only:)
qed

text \<open>
  When a login has found the row of an account, the reply starts with what the row holds: for an
  account whose columns are numbers and a handle, the details that are sent are, field by field and
  in their widths, the columns of the row, with the connection of the player before them and the rivals
  between them.
\<close>

lemma login_sends_the_account:
  assumes "results (sdb s) = row_of (account_columns a @ xs) # rs"
    and "length (a_handle a) \<le> 16" "CHR 0x00 \<notin> set (a_handle a)" "a_handle a \<noteq> ''NULL''" "blob_ok b"
  shows "bnd read_account (\<lambda>raw. player_details k (account_defaults raw) b) s =
    Inr ((), set_out (message_of 1 0 (account_fields k a (rival_field b))) s)"
  using player_details_run [OF assms(2,3,5)] account_defaults_texts [OF assms(4)]
  by (simp add: bnd_run read_account_run [OF assms(1)])

lemma already_logged_in_run:
  "already_logged_in k (account_values a) s =
    Inr ((), set_out (message_of 1 0 [u32_bytes k, u32_bytes (a_license a), [1]]) s)"
proof -
  have "writes (steps [out_u32 k, out_stoul (dec_word (a_license a)), out_u8 1])
      ([u32_bytes k] @ [u32_bytes (a_license a)] @ [[1]] @ [])"
    by (intro writes_rules)
  from reply_run [OF this, of 1 0 s] show ?thesis
    by (simp add: already_logged_in_def account_values_def account_texts_def)
qed

lemma login_failed_run:
  "login_failed k s = Inr ((), set_out (message_of 1 0 [u32_bytes k, u32_bytes 0xFFFFFFFF]) s)"
proof -
  have "writes (steps [out_u32 k, out_u32 0xFFFFFFFF]) ([u32_bytes k] @ [u32_bytes 0xFFFFFFFF] @ [])"
    by (intro writes_rules)
  from reply_run [OF this, of 1 0 s] show ?thesis by (simp add: login_failed_def)
qed

text \<open>
  An account whose state has its highest bit set is in use: the login only tells the game server so,
  with the license, and nothing is asked of the database but the rivals.
\<close>

lemma account_in_use_is_refused:
  assumes "results (sdb s) = row_of (account_columns a @ xs) # rs" "a_handle a \<noteq> ''NULL''"
    and "bit (a_state a) 31"
    and "db_blob_of E (sql [''SELECT rivalstatus FROM rival_data WHERE license = '', dec_word (a_license a)]) s =
      Inr (b, u)"
  shows "login_account E k s =
    Inr (True, set_out (message_of 1 0 [u32_bytes k, u32_bytes (a_license a), [1]]) u)"
proof -
  have "a_state a AND 0x80000000 \<noteq> 0"
  proof
    assume "a_state a AND 0x80000000 = 0"
    then have "\<not> bit (a_state a AND 0x80000000) 31" by simp
    moreover have "bit (0x80000000 :: u32) 31" by simp
    ultimately show False using assms(3) by (simp add: bit_and_iff)
  qed
  moreover have "ac_license (account_texts a) = dec_word (a_license a)"
    "ac_state (account_values a) = dec_word (a_state a)"
    by (simp_all add: account_texts_def account_values_def)
  ultimately show ?thesis
    using assms(4)
    by (simp add: login_account_def bnd_run read_account_run [OF assms(1)] account_defaults_texts [OF assms(2)]
        Let_def stoulP_def stoul_dec lift_run already_logged_in_run stm_run ret_run)
qed

section \<open>The whole request\<close>

text \<open>
  A request with a name, and a password that AuthDataDecrypt makes of the characters that follow it up to
  the first NUL.
\<close>

definition asks_login :: "'d env \<Rightarrow> packet \<Rightarrow> u32 \<Rightarrow> cppstring \<Rightarrow> cppstring \<Rightarrow> bool" where
  "asks_login E p k name password \<longleftrightarrow>
     wf_packet p \<and> 30 < unat (pSize p) \<and> unat (pSize p) \<le> 8190 \<and> text_ok 20 name \<and>
     (\<exists>rest. drop 6 (buffer p) = u32_bytes k @ pad_field 20 name @ rest \<and>
       AuthDataDecrypt E ''authgenki'' (string_of (cstr rest)) = Some password)"

lemma hex_text_run:
  assumes "length t \<le> 4096"
  shows "hex_of_string t s = Inr (hex (bytes_of t), s)"
proof (cases "t = []")
  case True
  then show ?thesis
    using HexString_cstr [of "[0]"]
    by (simp add: hex_of_string_def hex_of_def lift_run bytes_of_def cstr_def)
next
  case False
  then show ?thesis using hex_of_string_run assms by (simp add: MAX_MESG_LEN_def)
qed

text \<open>The statement that looks for the account.\<close>

definition account_sql :: "'d env \<Rightarrow> cppstring \<Rightarrow> cppstring \<Rightarrow> cppstring" where
  "account_sql E name password = login_sql (hex (bytes_of (tolower name)))
     (hex (snd (GetHash E (bytes_of (HASH_SECRET @ ''.'' @ password)) (replicate 32 0))))"

lemma login_reads:
  assumes "asks_login E (inbuf (cl s)) k name password"
  shows "\<exists>q. login E s =
    bnd (db_open E) (\<lambda>res.
      stm (whenP (res = DB_OK)
             (steps [login_check E k (tolower name) (Some password), db_close_only E]))
      (ret FallOut)) (s\<lparr>cl := (cl s)\<lparr>inbuf := q\<rparr>\<rparr>)"
proof -
  let ?p = "inbuf (cl s)"
  let ?s = "s\<lparr>cl := (cl s)\<lparr>inbuf := setOffset 6 ?p\<rparr>\<rparr>"
  have p: "wf_packet ?p" "30 < unat (pSize ?p)" "unat (pSize ?p) \<le> 8190" "text_ok 20 name"
    using assms by (simp_all add: asks_login_def)
  obtain rest where rest: "drop 6 (buffer ?p) = u32_bytes k @ pad_field 20 name @ rest"
    and pw: "AuthDataDecrypt E ''authgenki'' (string_of (cstr rest)) = Some password"
    using assms by (auto simp: asks_login_def)
  have a: "asks ?s (u32_bytes k @ pad_field 20 name @ rest)"
    using rest p(1) by (simp add: asks_def unread_def setOffset_def wf_packet_def)
  note b1 = reads_bnd [OF reads_u32 a]
  have r: "reads (in_string 0x14) (pad_field 20 name) name" using reads_string [of 20 name] p(4) by simp
  note b2 = reads_bnd [OF r b1(2)]
  define u where "u = skip_in (length (pad_field 20 name)) (skip_in (length (u32_bytes k)) ?s)"
  have l20: "length (pad_field 20 name) = 20" using pad_field_text [OF p(4)] by blast
  have o: "pOffset (inbuf (cl u)) = 30" "pSize (inbuf (cl u)) = pSize ?p"
    by (simp_all add: u_def l20 skip_in_def addOffset_def setOffset_def)
  have d: "drop 30 (buffer (inbuf (cl u))) = rest" "wf_packet (inbuf (cl u))"
    using b2(2) o(1) unfolding u_def [symmetric] by (simp_all add: asks_def unread_def)
  let ?n = "ucast (pSize ?p) - 30 :: u32"
  have "30 \<le> (ucast (pSize ?p) :: u32)" using p(2) by (simp add: word_le_nat_alt unat_ucast_u32)
  then have n: "unat ?n = unat (pSize ?p) - 30" by (simp add: unat_sub unat_ucast_u32)
  have "getStringA ?n (inbuf (cl u)) =
      Inr (string_of (cstr rest), (inbuf (cl u))\<lparr>pOffset := pOffset (inbuf (cl u)) + ucast ?n\<rparr>)"
    using getStringA_wf [OF d(2), of ?n] p(2,3) by (simp add: n o d(1))
  then have "in_string ?n u = Inr (string_of (cstr rest), u\<lparr>cl := (cl u)\<lparr>inbuf :=
      (inbuf (cl u))\<lparr>pOffset := pOffset (inbuf (cl u)) + ucast ?n\<rparr>\<rparr>\<rparr>)"
    by (simp add: in_string_def on_in_fault_def)
  moreover have "login E s = bnd in_u32 (\<lambda>clientSocket.
      bnd (in_string 0x14) (\<lambda>name.
      bnd (gets (\<lambda>s. ucast (pSize (inbuf (cl s))) - 30)) (\<lambda>rest.
      bnd (in_string rest) (\<lambda>protectedpassword.
      let password = AuthDataDecrypt E ''authgenki'' protectedpassword in
      bnd (db_open E) (\<lambda>res.
      stm (whenP (res = DB_OK)
             (steps [login_check E clientSocket (tolower name) password, db_close_only E]))
      (ret FallOut)))))) ?s"
    by (simp add: login_def stm_run in_offset_def on_in_def)
  ultimately have "login E s =
    bnd (db_open E) (\<lambda>res.
      stm (whenP (res = DB_OK)
             (steps [login_check E k (tolower name) (Some password), db_close_only E]))
      (ret FallOut)) (u\<lparr>cl := (cl u)\<lparr>inbuf :=
      (inbuf (cl u))\<lparr>pOffset := pOffset (inbuf (cl u)) + ucast ?n\<rparr>\<rparr>\<rparr>)"
    unfolding b1(1) b2(1) u_def [symmetric] using pw o(2) by (simp add: bnd_run gets_run Let_def)
  then show ?thesis by (auto simp: u_def skip_in_def)
qed

text \<open>
  A login is refused unless exactly one account has the name, in lower case, and the hash of the
  password: the reply is the player's connection and the number \<open>0xFFFFFFFF\<close>.
\<close>

lemma login_needs_exactly_one_account:
  assumes "getSubType (inbuf (cl s)) = 0" "asks_login E (inbuf (cl s)) k name password" "sha_ok E"
    and "Open (api E) (sdb s) = Inr (DB_OK, D)"
    and "Exec (api E) (account_sql E name password) D = Inr (n, D')" "length (results D') \<noteq> 1"
  shows "\<exists>t. ClientAuth E s = Inr (FallOut, t) \<and>
    outbuf (cl t) = message_of 1 0 [u32_bytes k, u32_bytes 0xFFFFFFFF]"
proof -
  obtain q where q: "login E s =
    bnd (db_open E) (\<lambda>res.
      stm (whenP (res = DB_OK)
             (steps [login_check E k (tolower name) (Some password), db_close_only E]))
      (ret FallOut)) (s\<lparr>cl := (cl s)\<lparr>inbuf := q\<rparr>\<rparr>)"
    using login_reads [OF assms(2)] by blast
  let ?s = "s\<lparr>cl := (cl s)\<lparr>inbuf := q\<rparr>, sdb := D\<rparr>"
  have o: "db_open E (s\<lparr>cl := (cl s)\<lparr>inbuf := q\<rparr>\<rparr>) = Inr (DB_OK, ?s)"
    using assms(4) by (simp add: db_open_def on_db_def)
  have "length (tolower name) \<le> 4096"
    using assms(2) by (simp add: asks_login_def text_ok_def tolower_def)
  then have h: "hex_of_string (tolower name) ?s = Inr (hex (bytes_of (tolower name)), ?s)" by (rule hex_text_run)
  have "db_exec E (account_sql E name password) ?s = Inr (n, ?s\<lparr>sdb := D'\<rparr>)"
    using assms(5) by (simp add: db_exec_def on_db_def)
  then have lc: "login_check E k (tolower name) (Some password) ?s =
      Inr ((), set_out (message_of 1 0 [u32_bytes k, u32_bytes 0xFFFFFFFF]) (?s\<lparr>sdb := D'\<rparr>))"
    using assms(6) unfolding login_check_def account_sql_def
    by (simp add: bnd_run h password_hash_hex [OF assms(3)] lift_run stm_run gets_run ret_run login_failed_run)
  obtain m u where "db_close E (set_out (message_of 1 0 [u32_bytes k, u32_bytes 0xFFFFFFFF]) (?s\<lparr>sdb := D'\<rparr>)) = Inr (m, u)"
    "cl u = cl (set_out (message_of 1 0 [u32_bytes k, u32_bytes 0xFFFFFFFF]) (?s\<lparr>sdb := D'\<rparr>))"
    using db_close_total by blast
  then have "login E s = Inr (FallOut, u)" "outbuf (cl u) = message_of 1 0 [u32_bytes k, u32_bytes 0xFFFFFFFF]"
    unfolding q by (simp_all add: bnd_run o stm_run whenP_run lc db_close_only_def ret_run)
  then show ?thesis using assms(1) by (simp add: ClientAuth_def bnd_run gets_run)
qed

text \<open>
  A login request with fewer than 30 bytes ends the program: the length of the password is computed
  without a test and wraps, and nothing catches the exception of the string that cannot have it.
\<close>

lemma short_login_ends_the_program:
  assumes "server_ok s" "k < length (connections s)" "isAuth (connections s ! k)"
    and "\<not> todc (connections s ! k)" "16 \<le> unat (pSize (inbuf (connections s ! k)))"
    and "unat (pSize (inbuf (connections s ! k))) < 30"
    and "getType (inbuf (connections s ! k)) = 1" "getSubType (inbuf (connections s ! k)) = 0"
  shows "ProcessPacket E k s = Inl Uncaught"
proof -
  let ?c = "connections s ! k" and ?p = "inbuf (connections s ! k)"
  have slot: "slot_ok ?c" using assms(1,2) by (rule server_ok_slot)
  then have wf: "wf_packet ?p" by (simp add: slot_ok_def)
  obtain D where D: "db s = Some D" using assms(1) by (auto simp: server_ok_def)
  have g: "get_u32 (setOffset 6 ?p) = (bytes_u32 (block 6 4 (buffer ?p)), setOffset 10 ?p)"
    by (simp add: get_u32_def get_bytes_def setOffset_def)
  have a: "getStringA 0x14 (setOffset 10 ?p) =
      Inr (string_of (cstr (drop 10 (buffer ?p))), setOffset 30 ?p)"
    using getStringA_wf [of "setOffset 10 ?p" "0x14"] wf by (simp add: setOffset_def wf_packet_def)
  let ?n = "ucast (pSize ?p) - 30 :: u32"
  have "unat (ucast (30 :: u16) + ?n) = unat (pSize ?p)" by (simp add: unat_ucast_u32)
  moreover have "string_max_size < unat ?n"
  proof -
    have "unat ?n = (unat (ucast (pSize ?p) :: u32) + 2 ^ 32 - 30) mod 2 ^ 32"
      using assms(6) by (simp add: unat_sub_if_size word_size unat_ucast_u32)
    then show ?thesis using assms(6) by (simp add: unat_ucast_u32 string_max_size_def)
  qed
  ultimately have b: "getStringA ?n (setOffset 30 ?p) = Inl Uncaught"
    using assms(6) by (simp add: getStringA_def setOffset_def)
  have "login E \<lparr>cl = ?c, sdb = D\<rparr> = Inl Uncaught"
    by (simp add: login_def stm_run in_offset_def on_in_def bnd_run in_u32_def g in_string_def on_in_fault_def
        a gets_run b) (simp add: setOffset_def b [unfolded setOffset_def])
  then show ?thesis
    using assms(3-5,7,8) slot D
    by (simp add: ProcessPacket_run Let_def refused_def packet_function_count_def MainPacketFunctions_def
        run_handler_def finish_def ClientAuth_def bnd_run gets_run)
qed

section \<open>Examples\<close>

definition sample_account :: account where
  "sample_account =
     \<lparr>a_license = 100001, a_handle = ''genki'', a_cp = 25000, a_level = 3, a_points = 40, a_playerwin = 5,
      a_playerlose = 6, a_rivalwin = 7, a_rivallose = 8, a_activecar = 1, a_privileges = 0, a_teamid = 12,
      a_teamarea = 0, a_state = 0x80000000, a_beginner = 1, a_garagecount = 2\<rparr>"

definition account_session :: "answer list session" where
  "account_session = (sample_session (message_of 1 0 []) [])
     \<lparr>sdb := (sample_db [])\<lparr>results := [row_of (account_columns sample_account)]\<rparr>\<rparr>"

definition no_blob :: db_blob where
  "no_blob = \<lparr>blob_size = 0, blob_data = []\<rparr>"

lemma sample_account_facts:
  "length (a_handle sample_account) \<le> 16" "CHR 0x00 \<notin> set (a_handle sample_account)"
  "a_handle sample_account \<noteq> ''NULL''" "bit (a_state sample_account) 31" "blob_ok no_blob"
  "results (sdb account_session) = row_of (account_columns sample_account @ []) # []"
  by (simp_all add: sample_account_def no_blob_def blob_ok_def account_session_def)

lemma login_sends_the_account_example:
  "bnd read_account (\<lambda>raw. player_details 7 (account_defaults raw) no_blob) account_session =
    Inr ((), set_out (message_of 1 0 (account_fields 7 sample_account (replicate 1200 0))) account_session)"
proof -
  note f = sample_account_facts
  have "rival_field no_blob = replicate 1200 0" by (simp add: rival_field_def no_blob_def)
  with login_sends_the_account [OF f(6,1,2,3,5), of 7] show ?thesis by (simp only:)
qed

lemma account_in_use_is_refused_example:
  "login_account sample_env 7 account_session =
    Inr (True, set_out (message_of 1 0 [u32_bytes 7, u32_bytes 100001, [1]]) account_session)"
proof -
  note f = sample_account_facts
  have "db_blob_of sample_env q account_session = Inr (no_blob, account_session)" for q
    by (simp add: db_blob_of_def on_db_def GetBlob_def GetBlobSqlite_def sample_env_def sample_api_def
        account_session_def no_blob_def SQLITE_OK_def SQLITE_ROW_def)
  from account_in_use_is_refused [OF f(6,3,4) this, of 7] show ?thesis
    by (simp add: sample_account_def)
qed

definition bobs_fields :: "byte list list" where
  "bobs_fields = [u32_bytes 7, pad_field 20 ''bob'', [120, 120]]"

definition bobs_login :: packet where
  "bobs_login = message_of 1 0 bobs_fields"

lemma bobs_login_facts:
  assumes "AuthDataDecrypt E ''authgenki'' ''xx'' = Some ''xx''"
  shows "asks_login E bobs_login 7 ''bob'' ''xx''" "getSubType bobs_login = 0"
proof -
  have len: "length (concat bobs_fields) = 26"
    using pad_field_text [of 20 "''bob''"] by (simp add: bobs_fields_def text_ok_def)
  then have fits: "length (concat bobs_fields) \<le> 8000" by simp
  note b = sample_request_buffer [OF fits, of 1 0] and l = sample_request_layout [OF fits, of 1 0]
  have h: "length ([0, 0] @ u16_bytes 1 @ u16_bytes 0 :: byte list) = 6" by simp
  have d: "drop 6 (buffer bobs_login) = concat bobs_fields @ replicate (8186 - 26) 0"
    unfolding bobs_login_def b len using h by simp
  have wf: "wf_packet bobs_login" unfolding bobs_login_def by (rule fresh_wf [OF l(1)])
  have size: "unat (pSize bobs_login) = 32" using l(3,4) len by (simp add: bobs_login_def)
  have "cstr ([120, 120] @ replicate (8186 - 26) 0) = [120, 120]"
    using cstr_append_nul [of "[120, 120]" "replicate 8159 0"] by (simp add: replicate_Suc [symmetric] del: replicate_Suc)
  moreover have "string_of [120, 120] = ''xx''"
    using string_of_bytes_of [of "''xx''"] by (simp add: bytes_of_def byte_of_def)
  ultimately show "asks_login E bobs_login 7 ''bob'' ''xx''"
    using d wf size assms by (auto simp: asks_login_def bobs_fields_def text_ok_def)
  show "getSubType bobs_login = 0"
    using b by (simp add: bobs_login_def getSubType_def block_def le_bytes_def upt_conv_Cons)
qed

lemma login_needs_exactly_one_account_example:
  "\<exists>t. ClientAuth sample_env (sample_session bobs_login []) = Inr (FallOut, t) \<and>
    outbuf (cl t) = message_of 1 0 [u32_bytes 7, u32_bytes 0xFFFFFFFF]"
proof -
  let ?s = "sample_session bobs_login []"
  have i: "inbuf (cl ?s) = bobs_login" by (simp add: sample_session_def)
  have o: "Open (api sample_env) (sdb ?s) = Inr (DB_OK, sdb ?s)"
    by (simp add: sample_session_def sample_env_def sample_simps DB_OK_def)
  obtain D' where e: "Exec (api sample_env) (account_sql sample_env ''bob'' ''xx'') (sdb ?s) = Inr (0, D')"
    "results D' = []"
    by (simp add: sample_session_def sample_env_def sample_simps)
  have "sha_ok sample_env" by (simp add: sha_ok_def sample_env_def)
  moreover have "AuthDataDecrypt sample_env ''authgenki'' ''xx'' = Some ''xx''" by (simp add: sample_env_def)
  ultimately show ?thesis
    using login_needs_exactly_one_account [OF _ _ _ o e(1)] bobs_login_facts [of sample_env] e(2) by (simp add: i)
qed

lemma short_login_ends_the_program_example:
  "ProcessPacket sample_env 0 (sample_server ((sample_slot True)\<lparr>inbuf := message_of 1 0 [replicate 10 0]\<rparr>) []) =
    Inl Uncaught"
proof -
  let ?c = "(sample_slot True)\<lparr>inbuf := message_of 1 0 [replicate 10 0]\<rparr>"
  let ?s = "sample_server ?c []"
  have fits: "length (concat [replicate 10 (0 :: byte)]) \<le> 8000" by simp
  note b = sample_request_buffer [OF fits, of 1 0] and l = sample_request_layout [OF fits, of 1 0]
  have ok: "server_ok ?s"
    by (rule sample_server_slot_ok [OF slot_ok_request [OF fits]]) (simp add: same_peer_def)
  have conn: "connections ?s = [?c]" by (simp add: sample_server_def)
  have "unat (pSize (inbuf ?c)) = 16" using l(3,4) by simp
  moreover have "getType (inbuf ?c) = 1" "getSubType (inbuf ?c) = 0"
    using b by (simp_all add: getSubType_def getType_def block_def le_bytes_def upt_conv_Cons)
  moreover have "isAuth ?c" "\<not> todc ?c"
    by (simp_all add: sample_slot_def new_CLIENT_def Initialize_def ClearSendQueue_def)
  ultimately show ?thesis
    using short_login_ends_the_program [OF ok, of 0 sample_env] by (simp add: conn)
qed

end
