(* ===== verification/Team_Properties.thy ===== *)
theory Team_Properties
  imports Login_Properties
begin

text \<open>
  The requests on teams: who may change one, which requests only read, and what is answered to the
  creation of a team.
\<close>

section \<open>Statements that only read\<close>

definition is_select :: "cppstring \<Rightarrow> bool" where
  "is_select q \<longleftrightarrow> take 6 q = ''SELECT''"

lemma admits_select: "is_select (c_str q) \<Longrightarrow> admits (list_all is_select) q"
  by (rule admits_all)

lemma select_text: "is_select (c_str (''SELECT'' @ q))"
  by (simp add: is_select_def c_str_def)

lemma select_sql:
  "is_select (c_str (sql (in_team_sql l)))" "is_select (c_str (sql (account_in_team_sql l)))"
  "is_select (c_str (sql (leads_sql t l)))" "is_select (c_str (sql (member_sql m t)))"
  using select_text
  by (simp_all add: in_team_sql_def account_in_team_sql_def leads_sql_def member_sql_def is_select_def c_str_def)

section \<open>The leader\<close>

text \<open>
  The database says that the account is in a team and that it leads this team, when it is asked \<open>q\<close> for
  the account in the state \<open>D1\<close>, and then for the team. A request asks on the database it has opened.
\<close>

definition leads_from :: "'d env \<Rightarrow> cppstring list \<Rightarrow> u32 \<Rightarrow> 'd database \<Rightarrow> bool" where
  "leads_from E q license D1 \<longleftrightarrow>
     (\<exists>n D2 teamid m D3. Exec (api E) (sql q) D1 = Inr (n, D2) \<and> n \<noteq> 0 \<and>
        GetValue_name (results D2) 0 ''teamid'' = Inr teamid \<and>
        Exec (api E) (sql (leads_sql teamid license)) D2 = Inr (m, D3) \<and> m \<noteq> 0)"

definition leads_team :: "'d env \<Rightarrow> cppstring list \<Rightarrow> u32 \<Rightarrow> 'd database \<Rightarrow> bool" where
  "leads_team E q license D \<longleftrightarrow> (\<exists>D1. Open (api E) D = Inr (DB_OK, D1) \<and> leads_from E q license D1)"

text \<open>A program that only reads when it starts on \<open>D\<close>, and the rules for it.\<close>

abbreviation only_selects :: "('d \<times> cppstring list) session \<Rightarrow> bool" where
  "only_selects \<equiv> trace_inv (list_all is_select)"

definition harmless :: "('d \<times> cppstring list) database \<Rightarrow> (('d \<times> cppstring list) session, 'a) prog \<Rightarrow> bool" where
  "harmless D m \<longleftrightarrow> (\<forall>s x t. sdb s = D \<longrightarrow> m s = Inr (x, t) \<longrightarrow> only_selects t)"

lemma bnd_Inr: "bnd m f s = Inr (x, t) \<longleftrightarrow> (\<exists>y u. m s = Inr (y, u) \<and> f y u = Inr (x, t))"
  by (auto simp: bnd_run split: sum.splits)

lemma db_value_Inr: "db_value r col s = Inr (v, t) \<longleftrightarrow> t = s \<and> GetValue_name (results (sdb s)) r col = Inr v"
  by (auto simp: db_value_def bnd_run gets_run lift_def split: sum.splits)

lemma db_exec_Inr:
  "db_exec E q s = Inr (n, t) \<longleftrightarrow> (\<exists>D. Exec (api E) q (sdb s) = Inr (n, D) \<and> t = s\<lparr>sdb := D\<rparr>)"
  by (auto simp: db_exec_def on_db_def split: sum.splits)

lemma db_open_Inr:
  "db_open E s = Inr (n, t) \<longleftrightarrow> (\<exists>D. Open (api E) (sdb s) = Inr (n, D) \<and> t = s\<lparr>sdb := D\<rparr>)"
  by (auto simp: db_open_def on_db_def split: sum.splits)

lemma harmless_read: "leaves_db m \<Longrightarrow> (\<And>x. harmless D (f x)) \<Longrightarrow> harmless D (bnd m f)"
  unfolding harmless_def
proof (intro allI impI)
  fix s y t
  assume m: "leaves_db m" "\<And>x. \<forall>s y t. sdb s = D \<longrightarrow> f x s = Inr (y, t) \<longrightarrow> only_selects t"
    and s: "sdb s = D" and "bnd m f s = Inr (y, t)"
  then obtain z u where u: "m s = Inr (z, u)" "f z u = Inr (y, t)" unfolding bnd_Inr by blast
  have "sdb u = D" using leaves_dbD [OF m(1) u(1)] s by simp
  with m(2) u(2) show "only_selects t" by blast
qed

lemma harmless_then: "harmless D m \<Longrightarrow> (\<And>x. keeps only_selects (f x)) \<Longrightarrow> harmless D (bnd m f)"
  unfolding harmless_def
proof (intro allI impI)
  fix s x t
  assume m: "\<forall>s x t. sdb s = D \<longrightarrow> m s = Inr (x, t) \<longrightarrow> only_selects t" "\<And>x. keeps only_selects (f x)"
    and s: "sdb s = D" and "bnd m f s = Inr (x, t)"
  then obtain y u where u: "m s = Inr (y, u)" "f y u = Inr (x, t)" unfolding bnd_Inr by blast
  then have "only_selects u" using m(1) s by blast
  from keepsD [OF m(2) this u(2)] show "only_selects t" .
qed

lemma harmless_stm: "harmless D m \<Longrightarrow> keeps only_selects n \<Longrightarrow> harmless D (stm m n)"
  unfolding stm_def by (rule harmless_then)

lemma harmless_keeps: "list_all is_select (trace D) \<Longrightarrow> keeps only_selects m \<Longrightarrow> harmless D m"
  unfolding harmless_def
proof (intro allI impI)
  fix s x t assume a: "list_all is_select (trace D)" "keeps only_selects m" "sdb s = D" "m s = Inr (x, t)"
  then have "only_selects s" by (simp add: trace_inv_def)
  from keepsD [OF a(2) this a(4)] show "only_selects t" .
qed

lemma harmless_open:
  assumes "\<And>D1. Open (api (logged_env E)) D = Inr (DB_OK, D1) \<Longrightarrow> list_all is_select (trace D1) \<Longrightarrow> harmless D1 (f DB_OK)"
    and "\<And>r. r \<noteq> DB_OK \<Longrightarrow> keeps only_selects (f r)" "list_all is_select (trace D)"
  shows "harmless D (bnd (db_open (logged_env E)) f)"
  unfolding harmless_def
proof (intro allI impI)
  fix s x t assume s: "sdb s = D" and "bnd (db_open (logged_env E)) f s = Inr (x, t)"
  then obtain r D1 where D1: "Open (api (logged_env E)) D = Inr (r, D1)" "f r (s\<lparr>sdb := D1\<rparr>) = Inr (x, t)"
    by (auto simp: bnd_Inr db_open_Inr)
  have sel: "list_all is_select (trace D1)" using trace_Open [of "api E" D r D1] D1(1) assms(3) by simp
  show "only_selects t"
  proof (cases "r = DB_OK")
    case True
    then have "harmless D1 (f DB_OK)" using assms(1) sel D1(1) by blast
    from this [unfolded harmless_def, rule_format, of "s\<lparr>sdb := D1\<rparr>" x t] show ?thesis
      using D1(2) True by simp
  next
    case False
    then show ?thesis using keepsD [OF assms(2) [OF False] _ D1(2)] sel by (simp add: trace_inv_def)
  qed
qed

lemma harmless_queries:
  assumes "is_select (c_str (sql q))" "list_all is_select (trace D)" "\<not> leads_from (logged_env E) q license D"
    and "keeps only_selects no" "\<And>t. keeps only_selects (other t)"
  shows "harmless D (bnd (db_exec (logged_env E) (sql q)) (\<lambda>res.
    if res \<noteq> 0
    then bnd (db_value 0 ''teamid'') (\<lambda>teamid.
         bnd (db_exec (logged_env E) (sql (leads_sql teamid license))) (\<lambda>res.
         if res \<noteq> 0 then body teamid else other teamid))
    else no))"
  unfolding harmless_def
proof (intro allI impI)
  fix s x t
  assume s: "sdb s = D" and run: "bnd (db_exec (logged_env E) (sql q)) (\<lambda>res.
    if res \<noteq> 0
    then bnd (db_value 0 ''teamid'') (\<lambda>teamid.
         bnd (db_exec (logged_env E) (sql (leads_sql teamid license))) (\<lambda>res.
         if res \<noteq> 0 then body teamid else other teamid))
    else no) s = Inr (x, t)"
  have i: "only_selects s" using assms(2) s by (simp add: trace_inv_def)
  have ad: "admits (list_all is_select) (sql q)" "admits (list_all is_select) (sql (leads_sql v license))" for v
    by (rule admits_select, rule assms(1), rule admits_select, rule select_sql)
  obtain n s1 where e1: "db_exec (logged_env E) (sql q) s = Inr (n, s1)"
    and rest: "(if n \<noteq> 0
    then bnd (db_value 0 ''teamid'') (\<lambda>teamid.
         bnd (db_exec (logged_env E) (sql (leads_sql teamid license))) (\<lambda>res.
         if res \<noteq> 0 then body teamid else other teamid))
    else no) s1 = Inr (x, t)"
    using run unfolding bnd_Inr [of "db_exec (logged_env E) (sql q)"] by blast
  have i1: "only_selects s1" using keepsD [OF keeps_trace_exec [OF ad(1)] i e1] .
  show "only_selects t"
  proof (cases "n = 0")
    case True
    then show ?thesis using rest keepsD [OF assms(4) i1] by simp
  next
    case False
    then obtain v where v: "GetValue_name (results (sdb s1)) 0 ''teamid'' = Inr v"
      and rest2: "bnd (db_exec (logged_env E) (sql (leads_sql v license))) (\<lambda>res.
         if res \<noteq> 0 then body v else other v) s1 = Inr (x, t)"
      using rest by (auto simp: bnd_Inr [of "db_value 0 ''teamid''"] db_value_Inr)
    obtain m s2 where e2: "db_exec (logged_env E) (sql (leads_sql v license)) s1 = Inr (m, s2)"
      and rest3: "(if m \<noteq> 0 then body v else other v) s2 = Inr (x, t)"
      using rest2 unfolding bnd_Inr [of "db_exec (logged_env E) (sql (leads_sql v license))"] by blast
    have i2: "only_selects s2" using keepsD [OF keeps_trace_exec [OF ad(2)] i1 e2] .
    obtain D2 where D2: "Exec (api (logged_env E)) (sql q) D = Inr (n, D2)" "sdb s1 = D2"
      using e1 s unfolding db_exec_Inr by auto
    obtain D3 where D3: "Exec (api (logged_env E)) (sql (leads_sql v license)) D2 = Inr (m, D3)"
      using e2 D2(2) unfolding db_exec_Inr by auto
    have "m = 0"
    proof (rule ccontr)
      assume "m \<noteq> 0"
      then have "leads_from (logged_env E) q license D"
        unfolding leads_from_def using D2 D3 v False by blast
      with assms(3) show False ..
    qed
    then show ?thesis using rest3 keepsD [OF assms(5) i2] by simp
  qed
qed

text \<open>In the requests, the two queries follow the opening of the database.\<close>

lemma as_leader_queries:
  "as_leader E license body =
    bnd (db_open E) (\<lambda>res.
     if res = DB_OK
     then bnd (bnd (db_exec E (sql (in_team_sql license))) (\<lambda>res.
          if res \<noteq> 0
          then bnd (db_value 0 ''teamid'') (\<lambda>teamid.
               bnd (db_exec E (sql (leads_sql teamid license))) (\<lambda>res.
               if res \<noteq> 0 then stm (body teamid) (ret (teamid, 0)) else ret (teamid, 3)))
          else ret (''0'', 2))) (\<lambda>r.
          stm (db_close_only E) (ret r))
     else ret (''0'', 1))"
  unfolding as_leader_def bnd_assoc by (rule arg_cong [of _ _ "bnd (db_open E)"]) (simp add: fun_eq_iff bnd_assoc cong: if_cong)

lemma harmless_as_leader:
  assumes "\<not> leads_team (logged_env E) (in_team_sql license) license D" "list_all is_select (trace D)"
  shows "harmless D (as_leader (logged_env E) license body)"
  unfolding as_leader_queries
proof (rule harmless_open)
  fix D1 assume o: "Open (api (logged_env E)) D = Inr (DB_OK, D1)" "list_all is_select (trace D1)"
  have "\<not> leads_from (logged_env E) (in_team_sql license) license D1"
    using assms(1) o(1) unfolding leads_team_def by blast
  note q = harmless_queries [OF select_sql(1) o(2) this keeps_ret keeps_ret]
  show "harmless D1 (if DB_OK = DB_OK
     then bnd (bnd (db_exec (logged_env E) (sql (in_team_sql license))) (\<lambda>res.
          if res \<noteq> 0
          then bnd (db_value 0 ''teamid'') (\<lambda>teamid.
               bnd (db_exec (logged_env E) (sql (leads_sql teamid license))) (\<lambda>res.
               if res \<noteq> 0 then stm (body teamid) (ret (teamid, 0)) else ret (teamid, 3)))
          else ret (''0'', 2))) (\<lambda>r.
          stm (db_close_only (logged_env E)) (ret r))
     else ret (''0'', 1))"
    unfolding simp_thms if_True by (rule harmless_then, rule q) (intro trace_intros trace_rules)
qed (use assms(2) in \<open>simp_all add: keeps_ret\<close>)

text \<open>The license a request carries first.\<close>

definition asked_license :: "packet \<Rightarrow> u32" where
  "asked_license p = bytes_u32 (block 6 4 (buffer p))"

lemma in_u32_after_header:
  "stm (in_offset 6) (bnd in_u32 f) s =
    f (asked_license (inbuf (cl s))) (s\<lparr>cl := (cl s)\<lparr>inbuf := setOffset 10 (inbuf (cl s))\<rparr>\<rparr>)"
  by (simp add: stm_run bnd_run in_offset_def on_in_def in_u32_def get_u32_def get_bytes_def setOffset_def
      asked_license_def)

definition team_query :: "u16 \<Rightarrow> u32 \<Rightarrow> cppstring list" where
  "team_query sub license = (if sub < 7 then in_team_sql license else account_in_team_sql license)"

definition team_change :: "'d env \<Rightarrow> u16 \<Rightarrow> ('d session, after) prog" where
  "team_change E sub =
     (if sub = 4 then update_invite E else if sub = 5 then update_comment E
      else if sub = 6 then delete_team E else if sub = 8 then adjust_team_area E else remove_member E)"

lemma team_change_runs:
  assumes "getSubType (inbuf (cl s)) = sub" "sub \<in> {4, 5, 6, 8, 9}"
  shows "ClientRequests E s = stm (in_offset 6) (team_change E sub) s"
  using assms
  by (auto simp: ClientRequests_def team_change_def stm_run in_offset_def on_in_def bnd_run gets_run
      getSubType_def setOffset_def)

lemma harmless_take_member:
  assumes "\<not> leads_from (logged_env E) (account_in_team_sql license) license D" "list_all is_select (trace D)"
  shows "harmless D (take_member (logged_env E) license member)"
  unfolding take_member_def by (rule harmless_queries [OF select_sql(2) assms(2,1)]) (rule keeps_ret)+

lemma harmless_area:
  assumes "\<not> leads_from (logged_env E) (account_in_team_sql license) license D" "list_all is_select (trace D)"
  shows "harmless D (bnd (db_exec (logged_env E) (sql (account_in_team_sql license))) (\<lambda>res. whenP (res \<noteq> 0)
          (bnd (db_value 0 ''teamid'') (\<lambda>teamid.
           bnd (db_exec (logged_env E) (sql (leads_sql teamid license))) (\<lambda>res. whenP (res \<noteq> 0) (body teamid))))))"
  unfolding whenP_def by (rule harmless_queries [OF select_sql(2) assms(2,1)]) (rule keeps_ret)+

lemma leaves_db_wide: "leaves_db in_u8_wide"
  by (auto simp: leaves_db_def in_u8_wide_def bnd_Inr ret_run dest: leaves_dbD [OF leaves_db_reads(2)])

lemma harmless_requests:
  assumes "list_all is_select (trace D)"
  shows "\<not> leads_team (logged_env E) (in_team_sql l) l D \<Longrightarrow> harmless D
      (bnd in_u8 (\<lambda>b. bnd (as_leader (logged_env E) l (set_invite (logged_env E) l (b AND 1))) (\<lambda>(teamid, result).
       stm (steps [start_reply 2 1, out_u32 l, out_stoul teamid, out_u8 result, out_u8 (b AND 1)]) (ret FallOut))))"
    and "\<not> leads_team (logged_env E) (in_team_sql l) l D \<Longrightarrow> harmless D
      (bnd (in_string 0x28) (\<lambda>teamComment. bnd (hex_of_string teamComment) (\<lambda>teamCommentHex.
       bnd (as_leader (logged_env E) l (\<lambda>teamid. run_sql (logged_env E)
       [''UPDATE team_data SET '', ''teamcomment = '', xlit teamCommentHex, '' WHERE leader = '', dec_word l]))
       (\<lambda>(teamid, result). stm (steps [start_reply 2 2, out_u32 l, out_stoul teamid, out_u8 result,
        out_string teamComment 0x28]) (ret FallOut)))))"
    and "\<not> leads_team (logged_env E) (in_team_sql l) l D \<Longrightarrow> harmless D
      (bnd (as_leader (logged_env E) l (drop_team (logged_env E))) (\<lambda>(teamid, result).
       stm (steps [start_reply 2 3, out_u32 l, out_stoul teamid, out_u8 result]) (ret FallOut)))"
  by (intro harmless_read harmless_then harmless_as_leader trace_intros trace_rules leaves_db_all assms; assumption)+

lemma harmless_steps: "harmless D m \<Longrightarrow> keeps only_selects (steps ms) \<Longrightarrow> harmless D (steps (m # ms))"
  by (simp add: harmless_stm)

lemma harmless_adjust:
  assumes "list_all is_select (trace D)" "\<not> leads_team (logged_env E) (account_in_team_sql l) l D"
  shows "harmless D
     (bnd in_u32 (\<lambda>memberID.
     bnd in_u8_wide (\<lambda>access.
     bnd (db_open (logged_env E)) (\<lambda>res.
     stm (whenP (res = DB_OK) (steps
       [bnd (db_exec (logged_env E) (sql (account_in_team_sql l))) (\<lambda>res. whenP (res \<noteq> 0)
          (bnd (db_value 0 ''teamid'') (\<lambda>teamid.
           bnd (db_exec (logged_env E) (sql (leads_sql teamid l))) (\<lambda>res. whenP (res \<noteq> 0)
             (bnd (db_exec (logged_env E) (sql (member_sql memberID teamid))) (\<lambda>res. whenP (res \<noteq> 0)
                (run_sql (logged_env E) [''UPDATE account_data SET '', ''teamarea = '', dec_word access,
                   '' WHERE license = '', dec_word memberID]))))))),
        db_close_only (logged_env E)]))
     (ret Return)))))"
proof (rule harmless_read, rule leaves_db_reads, rule harmless_read, rule leaves_db_wide, rule harmless_open)
  fix member access :: u32 and D1
  assume o: "Open (api (logged_env E)) D = Inr (DB_OK, D1)" "list_all is_select (trace D1)"
  then have n: "\<not> leads_from (logged_env E) (account_in_team_sql l) l D1"
    using assms(2) unfolding leads_team_def by blast
  show "harmless D1 (stm (whenP (DB_OK = DB_OK) (steps
       [bnd (db_exec (logged_env E) (sql (account_in_team_sql l))) (\<lambda>res. whenP (res \<noteq> 0)
          (bnd (db_value 0 ''teamid'') (\<lambda>teamid.
           bnd (db_exec (logged_env E) (sql (leads_sql teamid l))) (\<lambda>res. whenP (res \<noteq> 0)
             (bnd (db_exec (logged_env E) (sql (member_sql member teamid))) (\<lambda>res. whenP (res \<noteq> 0)
                (run_sql (logged_env E) [''UPDATE account_data SET '', ''teamarea = '', dec_word access,
                   '' WHERE license = '', dec_word member]))))))),
        db_close_only (logged_env E)]))
     (ret Return))"
    unfolding simp_thms whenP_def [of True] if_True
    by (rule harmless_stm [OF harmless_steps [OF harmless_area [OF n o(2)]]]) (intro trace_intros trace_rules)+
qed (use assms(1) in \<open>simp_all add: whenP_def stm_def keeps_ret keeps_bnd\<close>)

lemma harmless_remove:
  assumes "list_all is_select (trace D)" "\<not> leads_team (logged_env E) (account_in_team_sql l) l D"
  shows "harmless D
     (bnd in_u32 (\<lambda>memberID.
     bnd (db_open (logged_env E)) (\<lambda>res.
     bnd (if res = DB_OK \<and> l \<noteq> memberID
          then bnd (take_member (logged_env E) l memberID) (\<lambda>result.
               stm (db_close_only (logged_env E)) (ret result))
          else ret 1) (\<lambda>result.
     stm (steps [start_reply 2 5, out_u32 l, out_u8 result])
     (ret FallOut)))))"
proof (rule harmless_read, rule leaves_db_reads, rule harmless_open)
  fix member D1
  assume o: "Open (api (logged_env E)) D = Inr (DB_OK, D1)" "list_all is_select (trace D1)"
  then have n: "\<not> leads_from (logged_env E) (account_in_team_sql l) l D1"
    using assms(2) unfolding leads_team_def by blast
  have "harmless D1 (if l \<noteq> member
      then bnd (take_member (logged_env E) l member) (\<lambda>result.
           stm (db_close_only (logged_env E)) (ret result))
      else ret 1)"
  proof (cases "l = member")
    case True
    then show ?thesis using harmless_keeps [OF o(2) keeps_ret] by simp
  next
    case False
    have "harmless D1 (bnd (take_member (logged_env E) l member) (\<lambda>result.
           stm (db_close_only (logged_env E)) (ret result)))"
      by (rule harmless_then [OF harmless_take_member [OF n o(2)]]) (intro trace_intros trace_rules)
    with False show ?thesis by simp
  qed
  then show "harmless D1 (bnd (if DB_OK = DB_OK \<and> l \<noteq> member
          then bnd (take_member (logged_env E) l member) (\<lambda>result.
               stm (db_close_only (logged_env E)) (ret result))
          else ret 1) (\<lambda>result.
     stm (steps [start_reply 2 5, out_u32 l, out_u8 result])
     (ret FallOut)))"
    unfolding simp_thms by (rule harmless_then) (intro trace_intros trace_rules)
next
  fix member r
  assume "r \<noteq> DB_OK"
  then show "keeps only_selects (bnd (if r = DB_OK \<and> l \<noteq> member
          then bnd (take_member (logged_env E) l member) (\<lambda>result.
               stm (db_close_only (logged_env E)) (ret result))
          else ret 1) (\<lambda>result.
     stm (steps [start_reply 2 5, out_u32 l, out_u8 result])
     (ret FallOut)))"
    unfolding simp_thms by (simp only: if_False simp_thms) (intro trace_intros trace_rules)
qed (rule assms(1))

text \<open>
  C12: Only the leader changes a team: a request to set its invitations or its comment, to delete it, to
  give a member an area or to remove one changes nothing in the database, it sends only \<open>SELECT\<close>
  statements, unless the database says that the account it names is in a team and leads it.
\<close>

theorem only_the_leader_changes_a_team:
  assumes "ClientRequests (logged_env E) s = Inr (a, t)" "trace (sdb s) = []"
    and "getSubType (inbuf (cl s)) = sub" "sub \<in> {4, 5, 6, 8, 9}"
    and "\<not> leads_team (logged_env E) (team_query sub (asked_license (inbuf (cl s))))
           (asked_license (inbuf (cl s))) (sdb s)"
  shows "list_all is_select (trace (sdb t))"
proof -
  define l D where "l = asked_license (inbuf (cl s))" and "D = sdb s"
  define s1 where "s1 = s\<lparr>cl := (cl s)\<lparr>inbuf := setOffset 10 (inbuf (cl s))\<rparr>\<rparr>"
  have D: "list_all is_select (trace D)" "sdb s1 = D" using assms(2) by (simp_all add: D_def s1_def)
  have n: "\<not> leads_team (logged_env E) (team_query sub l) l D" using assms(5) by (simp add: l_def D_def)
  have run: "stm (in_offset 6) (team_change (logged_env E) sub) s = Inr (a, t)"
    using assms(1) unfolding team_change_runs [OF assms(3,4)] .
  have from_harmless: ?thesis
    if "team_change (logged_env E) sub = p" "p = bnd in_u32 f" "harmless D (f l)"
    for p and f :: "u32 \<Rightarrow> (_, after) prog"
  proof -
    have "f l s1 = Inr (a, t)"
      using run in_u32_after_header [of f s] unfolding that(1,2) l_def s1_def by simp
    then show ?thesis using that(3) D(2) unfolding harmless_def by (metis trace_inv_def)
  qed
  consider "sub = 4" | "sub = 5" | "sub = 6" | "sub = 8" | "sub = 9" using assms(4) by blast
  then show ?thesis
  proof cases
    case 1
    have "team_change (logged_env E) sub = update_invite (logged_env E)" by (simp add: team_change_def 1)
    from from_harmless [OF this update_invite_def] harmless_requests(1) [OF D(1)] show ?thesis using n 1 by (simp add: team_query_def)
  next
    case 2
    have "team_change (logged_env E) sub = update_comment (logged_env E)" by (simp add: team_change_def 2)
    from from_harmless [OF this update_comment_def] harmless_requests(2) [OF D(1)] show ?thesis using n 2 by (simp add: team_query_def)
  next
    case 3
    have "team_change (logged_env E) sub = delete_team (logged_env E)" by (simp add: team_change_def 3)
    from from_harmless [OF this delete_team_def] harmless_requests(3) [OF D(1)] show ?thesis using n 3 by (simp add: team_query_def)
  next
    case 4
    have "team_change (logged_env E) sub = adjust_team_area (logged_env E)" by (simp add: team_change_def 4)
    from from_harmless [OF this adjust_team_area_def] harmless_adjust [OF D(1)] show ?thesis using n 4 by (simp add: team_query_def)
  next
    case 5
    have "team_change (logged_env E) sub = remove_member (logged_env E)" by (simp add: team_change_def 5)
    from from_harmless [OF this remove_member_def] harmless_remove [OF D(1)] show ?thesis using n 5 by (simp add: team_query_def)
  qed
qed

section \<open>Requests that only read\<close>

lemma select_literals:
  "is_select (c_str (sql (''SELECT * FROM account_data WHERE license = '' # xs)))"
  "is_select (c_str (sql (''SELECT * FROM account_data WHERE teamid = '' # xs)))"
  "is_select (c_str (sql (''SELECT * FROM team_data WHERE teamid = '' # xs)))"
  "is_select (c_str (sql (''SELECT handle FROM account_data WHERE license = '' # xs)))"
  by (simp_all add: is_select_def c_str_def)

text \<open>
  A request for the data of a team changes nothing in the database: whatever it finds, it sends only
  \<open>SELECT\<close> statements.
\<close>

lemma reading_a_team_changes_nothing:
  assumes "ClientRequests (logged_env E) s = Inr (a, t)" "trace (sdb s) = []"
    and "getSubType (inbuf (cl s)) = 7"
  shows "list_all is_select (trace (sdb t))"
proof -
  have "keeps (trace_inv (list_all is_select)) (get_team_data (logged_env E))"
    unfolding get_team_data_def no_team_reply_def team_reply_def
    by (intro trace_intros trace_rules admits_select select_literals)
  from keepsD [OF this] have k: "trace_inv (list_all is_select) u \<Longrightarrow>
      get_team_data (logged_env E) u = Inr (a, t) \<Longrightarrow> trace_inv (list_all is_select) t" for u .
  have "get_team_data (logged_env E) (s\<lparr>cl := (cl s)\<lparr>inbuf := setOffset 6 (inbuf (cl s))\<rparr>\<rparr>) = Inr (a, t)"
    using assms(1,3)
    by (simp add: ClientRequests_def stm_run in_offset_def on_in_def bnd_run gets_run getSubType_def setOffset_def)
  from k [OF _ this] show ?thesis using assms(2) by (simp add: trace_inv_def)
qed

section \<open>The answer to a new team\<close>

text \<open>The search for the name and the insertion of the row, of which the reply only shows the result.\<close>

definition new_team :: "'d env \<Rightarrow> u32 \<Rightarrow> cppstring \<Rightarrow> ('d session, byte) prog" where
  "new_team E license teamName =
     bnd (hex_of_string (tolower teamName)) (\<lambda>teamNameHex.
     bnd (db_open E) (\<lambda>res.
     if res = DB_OK
     then bnd (db_exec E (sql (no_team_sql license))) (\<lambda>res.
          bnd (if res \<noteq> 0
               then bnd (db_exec E (sql [''SELECT * FROM team_data WHERE HEX(LOWER(teamname)) = '',
                           quoted teamNameHex])) (\<lambda>res.
                    if res = 0 then insert_team E license teamName else ret 1)
               else ret 2) (\<lambda>result.
          stm (db_close_only E) (ret result)))
     else ret 1))"

lemma create_team_request:
  assumes "getSubType (inbuf (cl s)) = 3" "wf_packet (inbuf (cl s))"
    and "drop 6 (buffer (inbuf (cl s))) = u32_bytes license @ pad_field 16 name @ rest" "text_ok 16 name"
  shows "\<exists>p. ClientRequests E s = bnd (new_team E license name) (\<lambda>result.
      stm (steps [start_reply 2 0, out_u32 license, out_stoul ''0'', out_u8 result, out_string name 0x10])
      (ret FallOut)) (s\<lparr>cl := (cl s)\<lparr>inbuf := p\<rparr>\<rparr>)"
proof -
  let ?s = "s\<lparr>cl := (cl s)\<lparr>inbuf := setOffset 6 (inbuf (cl s))\<rparr>\<rparr>"
  have c: "ClientRequests E s = create_team E ?s"
    using assms(1)
    by (simp add: ClientRequests_def stm_run in_offset_def on_in_def bnd_run gets_run getSubType_def setOffset_def)
  have asks: "asks ?s (u32_bytes license @ pad_field 16 name @ rest)"
    using assms(2,3) by (simp add: asks_def unread_def setOffset_def wf_packet_def)
  note b1 = reads_bnd [OF reads_u32 asks]
  have r: "reads (in_string 0x10) (pad_field 16 name) name" using reads_string [of 16 name] assms(4) by simp
  note b2 = reads_bnd [OF r b1(2)]
  have "create_team E ?s = bnd (new_team E license name) (\<lambda>result.
      stm (steps [start_reply 2 0, out_u32 license, out_stoul ''0'', out_u8 result, out_string name 0x10])
      (ret FallOut)) (skip_in (length (pad_field 16 name)) (skip_in (length (u32_bytes license)) ?s))"
    unfolding create_team_def b1(1) b2(1) new_team_def by (simp only: bnd_assoc)
  moreover have "\<exists>p. skip_in n (skip_in m ?s) = s\<lparr>cl := (cl s)\<lparr>inbuf := p\<rparr>\<rparr>" for m n
    by (simp add: skip_in_def) blast
  ultimately show ?thesis unfolding c by metis
qed

lemma create_team_reply:
  assumes "text_ok 16 name"
  shows "stm (steps [start_reply 2 0, out_u32 license, out_stoul ''0'', out_u8 result, out_string name 0x10])
      (ret FallOut) u =
    Inr (FallOut, set_out (message_of 2 0 [u32_bytes license, u32_bytes 0, [result], pad_field 16 name]) u)"
proof -
  have w: "writes (steps [out_u32 license, out_stoul ''0'', out_u8 result, out_string name 0x10])
      ([u32_bytes license] @ [u32_bytes 0] @ [[result]] @ [pad_field 16 name] @ [])"
  proof -
    have "''0'' = dec_word (0 :: u32)" by code_simp
    then have "writes (out_stoul ''0'') [u32_bytes 0]" using writes_stoul [of 0] by simp
    moreover have "writes (out_string name 0x10) [pad_field 16 name]"
      using writes_string [of name 16] assms by (simp add: text_ok_def)
    ultimately show ?thesis by (intro writes_rules)
  qed
  have l: "length (concat ([u32_bytes license] @ [u32_bytes 0] @ [[result]] @ [pad_field 16 name] @ [])) \<le> 8000"
    using length_pad_field [of name 16] assms by (simp add: text_ok_def)
  show ?thesis unfolding stm_run [of "steps _"] reply_run [OF w l] by (simp add: ret_run)
qed

text \<open>
  The game server never learns the number of the team it has created: whatever the database does, the
  answer carries the number 0.
\<close>

lemma created_team_number_zero:
  assumes "ClientRequests E s = Inr (a, t)" "getSubType (inbuf (cl s)) = 3" "wf_packet (inbuf (cl s))"
    and "drop 6 (buffer (inbuf (cl s))) = u32_bytes license @ pad_field 16 name @ rest" "text_ok 16 name"
  shows "\<exists>r. outbuf (cl t) = message_of 2 0 [u32_bytes license, u32_bytes 0, [r], pad_field 16 name]"
proof -
  obtain p where "ClientRequests E s = bnd (new_team E license name) (\<lambda>result.
      stm (steps [start_reply 2 0, out_u32 license, out_stoul ''0'', out_u8 result, out_string name 0x10])
      (ret FallOut)) (s\<lparr>cl := (cl s)\<lparr>inbuf := p\<rparr>\<rparr>)" using create_team_request [OF assms(2-5)] by blast
  with assms(1,5) obtain r v where
    "t = set_out (message_of 2 0 [u32_bytes license, u32_bytes 0, [r], pad_field 16 name]) v"
    by (auto simp: bnd_Inr create_team_reply simp del: steps.simps)
  then show ?thesis by auto
qed

section \<open>Examples\<close>

text \<open>A session whose request is on teams, and an answer of the database that has one row.\<close>

definition team_session :: "u16 \<Rightarrow> byte list list \<Rightarrow> answer list \<Rightarrow> (answer list \<times> cppstring list) session" where
  "team_session sub fs d = logged_session ((sample_slot True)\<lparr>inbuf := message_of 2 sub fs\<rparr>) d"

definition in_team_one :: answer where
  "in_team_one = [[(''teamid'', Some [0x31])]]"

lemma team_session_fields [simp]:
  "inbuf (cl (team_session sub fs d)) = message_of 2 sub fs" "sdb (team_session sub fs d) = logged_db d"
  by (simp_all add: team_session_def)

lemma team_request_facts:
  assumes "length (concat fs) \<le> 8000"
  shows "getSubType (message_of 2 sub fs) = sub" "wf_packet (message_of 2 sub fs)"
    and "drop 6 (buffer (message_of 2 sub fs)) = concat fs @ replicate (8186 - length (concat fs)) 0"
proof -
  note b = sample_request_buffer [OF assms, of 2 sub] and l = sample_request_layout [OF assms, of 2 sub]
  show "getSubType (message_of 2 sub fs) = sub"
    unfolding getSubType_def b by (simp add: block_def c16.dec_enc)
  show "wf_packet (message_of 2 sub fs)" by (rule fresh_wf [OF l(1)])
  show "drop 6 (buffer (message_of 2 sub fs)) = concat fs @ replicate (8186 - length (concat fs)) 0"
    unfolding b by simp
qed

text \<open>Account 7 is in team 1, which it does not lead, and asks to delete it.\<close>

abbreviation "deserter \<equiv> team_session 6 [u32_bytes 7] [in_team_one, []]"

lemma deserter_asks: "asked_license (inbuf (cl deserter)) = 7" "getSubType (inbuf (cl deserter)) = 6"
proof -
  have l: "length (concat [u32_bytes 7]) \<le> 8000" by simp
  show "getSubType (inbuf (cl deserter)) = 6" using team_request_facts(1) [OF l] by simp
  have "block 6 4 (buffer (message_of 2 6 [u32_bytes 7])) = u32_bytes 7"
    unfolding block_def team_request_facts(3) [OF l] by simp
  then show "asked_license (inbuf (cl deserter)) = 7" by (simp add: asked_license_def c32.dec_enc)
qed

lemma not_leading: "\<not> leads_team (logged_env sample_env) q l (logged_db [in_team_one, []])"
  by (simp add: leads_team_def leads_from_def logged_runs)

lemma not_leading_run:
  assumes "sdb s = logged_db [in_team_one, []]"
  shows "\<exists>t. as_leader (logged_env sample_env) l body s = Inr ((''1'', 3), t) \<and>
    trace (sdb t) = [c_str (sql (in_team_sql l)), c_str (sql (leads_sql ''1'' l))]"
proof -
  have "GetValue_name (map DatabaseCallback in_team_one) 0 ''teamid'' = Inr ''1''" by code_simp
  moreover have "length in_team_one = 1" by (simp add: in_team_one_def)
  ultimately show ?thesis
    using assms by (simp add: as_leader_def logged_runs db_value_def db_close_only_def trace_def)
qed

theorem only_the_leader_changes_a_team_witness:
  "\<exists>t. ClientRequests (logged_env sample_env) deserter = Inr (FallOut, t) \<and>
     outbuf (cl t) = message_of 2 3 [u32_bytes 7, u32_bytes 1, [3]] \<and>
     trace (sdb t) \<noteq> [] \<and> list_all is_select (trace (sdb t))"
proof -
  obtain u where u: "\<And>f :: u32 \<Rightarrow> (_, after) prog. stm (in_offset 6) (bnd in_u32 f) deserter = f 7 u" "sdb u = logged_db [in_team_one, []]"
    using in_u32_after_header [of _ deserter] unfolding deserter_asks(1) by fastforce
  from not_leading_run [OF u(2), of 7 "drop_team (logged_env sample_env)"] obtain v where v:
    "as_leader (logged_env sample_env) 7 (drop_team (logged_env sample_env)) u = Inr ((''1'', 3), v)"
    "trace (sdb v) \<noteq> []" by auto
  have one: "''1'' = dec_word (1 :: u32)" by code_simp
  have w: "writes (steps [out_u32 7, out_stoul ''1'', out_u8 3])
      ([u32_bytes 7] @ [u32_bytes 1] @ [[3]] @ [])"
    unfolding one by (intro writes_rules)
  have "stm (in_offset 6) (delete_team (logged_env sample_env)) deserter =
      Inr (FallOut, set_out (message_of 2 3 [u32_bytes 7, u32_bytes 1, [3]]) v)"
    unfolding delete_team_def u(1)
    by (simp add: bnd_run v(1) stm_run [of "steps _"] reply_run [OF w] ret_run del: steps.simps)
  moreover have "ClientRequests (logged_env sample_env) deserter =
      stm (in_offset 6) (delete_team (logged_env sample_env)) deserter"
    unfolding team_change_runs [OF deserter_asks(2), simplified] by (simp add: team_change_def)
  ultimately have r: "ClientRequests (logged_env sample_env) deserter =
      Inr (FallOut, set_out (message_of 2 3 [u32_bytes 7, u32_bytes 1, [3]]) v)" by simp
  have "list_all is_select (trace (sdb (set_out (message_of 2 3 [u32_bytes 7, u32_bytes 1, [3]]) v)))"
    by (rule only_the_leader_changes_a_team [OF r _ deserter_asks(2)]) (simp_all add: not_leading deserter_asks(1))
  then show ?thesis using r v(2) by simp
qed

text \<open>The database has no row for the account, or one row, or two.\<close>

lemma reading_a_team_changes_nothing_example:
  "\<exists>a t. ClientRequests (logged_env sample_env) (team_session 7 [u32_bytes 7] []) = Inr (a, t) \<and>
     list_all is_select (trace (sdb t))"
proof -
  let ?s = "team_session 7 [u32_bytes 7] []"
  have l: "length (concat [u32_bytes 7]) \<le> 8000" by simp
  have g: "getSubType (inbuf (cl ?s)) = 7" using team_request_facts(1) [OF l] by simp
  have "\<exists>t. ClientRequests (logged_env sample_env) ?s = Inr (Return, t)"
    using g
    by (simp add: ClientRequests_def stm_run in_offset_def on_in_def bnd_run gets_run getSubType_def
        setOffset_def get_team_data_def in_u32_def get_u32_def get_bytes_def logged_runs db_close_only_def)
  then obtain t where r: "ClientRequests (logged_env sample_env) ?s = Inr (Return, t)" ..
  from reading_a_team_changes_nothing [OF r _ g] r show ?thesis by auto
qed

lemma created_team_number_zero_example:
  "\<exists>t. ClientRequests sample_env
        (sample_session (message_of 2 3 [u32_bytes 7, pad_field 16 ''crew'']) []) = Inr (FallOut, t) \<and>
     (\<exists>r. outbuf (cl t) = message_of 2 0 [u32_bytes 7, u32_bytes 0, [r], pad_field 16 ''crew''])"
proof -
  let ?fs = "[u32_bytes 7, pad_field 16 ''crew'']" and ?ok = "text_ok 16 ''crew''"
  let ?s = "sample_session (message_of 2 3 ?fs) []"
  have ok: ?ok by (simp add: text_ok_def)
  have l: "length (concat ?fs) \<le> 8000" using pad_field_text [OF ok] by simp
  note f = team_request_facts [OF l, of 3]
  have i: "inbuf (cl ?s) = message_of 2 3 ?fs" by (simp add: sample_session_def)
  have d: "drop 6 (buffer (inbuf (cl ?s))) =
      u32_bytes 7 @ pad_field 16 ''crew'' @ replicate (8186 - length (concat ?fs)) 0"
    unfolding i f(3) by simp
  have g: "getSubType (inbuf (cl ?s)) = 3" "wf_packet (inbuf (cl ?s))" unfolding i by (fact f)+
  obtain p where p: "ClientRequests sample_env ?s = bnd (new_team sample_env 7 ''crew'') (\<lambda>result.
      stm (steps [start_reply 2 0, out_u32 7, out_stoul ''0'', out_u8 result, out_string ''crew'' 0x10])
      (ret FallOut)) (?s\<lparr>cl := (cl ?s)\<lparr>inbuf := p\<rparr>\<rparr>)"
    using create_team_request [OF g d ok] by blast
  define u where "u = ?s\<lparr>cl := (cl ?s)\<lparr>inbuf := p\<rparr>\<rparr>"
  note u = p [folded u_def]
  have db: "sdb u = sample_db []" by (simp add: u_def sample_session_def)
  have h: "hex_of_string (tolower ''crew'') u = Inr (hex (bytes_of (tolower ''crew'')), u)"
    by (rule hex_text_run) (simp add: tolower_def)
  have "\<exists>v. new_team sample_env 7 ''crew'' u = Inr (2, v)"
    by (simp add: new_team_def bnd_run h db db_open_def db_exec_def db_close_only_def db_close_def on_db_def
        sample_simps DB_OK_def stm_run ret_run)
  then obtain t where r: "ClientRequests sample_env ?s = Inr (FallOut, t)"
    unfolding u by (auto simp: bnd_run create_team_reply [OF ok] simp del: steps.simps)
  from created_team_number_zero [OF r g d ok] r show ?thesis by blast
qed

end
