(* ===== verification/Save_Properties.thy ===== *)
theory Save_Properties
  imports Team_Properties
begin

text \<open>
  The save request: what a game server encodes is what the handler decodes, and the database runs
  exactly the statements that store it.
\<close>

section \<open>Reading a whole request\<close>

text \<open>
  As \<open>reads\<close>, for calls that refuse the last byte of the buffer: there is something behind what they
  take.
\<close>

definition takes :: "('d session, 'a) prog \<Rightarrow> byte list \<Rightarrow> 'a \<Rightarrow> bool" where
  "takes m bs x \<longleftrightarrow>
     (\<forall>s rest. asks s (bs @ rest) \<longrightarrow> rest \<noteq> [] \<longrightarrow> m s = Inr (x, skip_in (length bs) s))"

named_theorems takes_rules \<open>what the calls that read a request take\<close>

lemma takes_reads: "reads m bs x \<Longrightarrow> takes m bs x"
  unfolding takes_def reads_def by blast

lemma takes_run:
  assumes "takes m bs x" "asks s (bs @ rest)" "rest \<noteq> []"
  shows "m s = Inr (x, skip_in (length bs) s)"
  using assms unfolding takes_def by blast

lemma takes_bnd [takes_rules]:
  assumes "takes m as x" "takes (f x) bs y"
  shows "takes (bnd m f) (as @ bs) y"
  unfolding takes_def
proof (intro allI impI)
  fix s :: "'a session" and rest assume a: "asks s ((as @ bs) @ rest)" "rest \<noteq> []"
  then have as: "asks s (as @ (bs @ rest))" "bs @ rest \<noteq> []" by simp_all
  have "m s = Inr (x, skip_in (length as) s)" using takes_run [OF assms(1) as] .
  moreover have "f x (skip_in (length as) s) = Inr (y, skip_in (length bs) (skip_in (length as) s))"
    using takes_run [OF assms(2) asks_skip [OF as(1)] a(2)] .
  ultimately show "bnd m f s = Inr (y, skip_in (length (as @ bs)) s)" by (simp add: bnd_run)
qed

lemma takes_ret [takes_rules]: "takes (ret x) [] x"
  by (simp add: takes_def ret_run skip_in_def addOffset_def)

lemma takes_ret_eq: "x = y \<Longrightarrow> takes (ret x) [] y"
  by (simp add: takes_ret)

lemma takes_then_ret:
  assumes "takes m bs x"
  shows "takes (bnd m (\<lambda>x. ret (f x))) bs (f x)"
  using takes_bnd [OF assms takes_ret, of f] by simp

lemma reads_number:
  assumes "\<And>p. get p = (d (fst (get_bytes (length bs) p)), snd (get_bytes (length bs) p))" "d bs = w" "bs \<noteq> []"
  shows "reads (on_in get :: ('d session, 'a) prog) bs w"
  unfolding reads_def
proof (intro allI impI)
  fix s :: "'d session" and rest assume "asks s (bs @ rest)"
  from reads_get [OF this assms(3)] show "on_in get s = Inr (w, skip_in (length bs) s)"
    by (simp add: on_in_def assms(1,2) skip_in_def)
qed

lemma reads_u16: "reads in_u16 (u16_bytes w) w"
  unfolding in_u16_def
  by (rule reads_number [where d = bytes_u16]) (simp_all add: get_u16_def case_prod_beta c16.dec_enc flip: length_greater_0_conv)

lemma reads_u64: "reads in_u64 (u64_bytes w) w"
  unfolding in_u64_def
  by (rule reads_number [where d = bytes_u64]) (simp_all add: get_u64_def case_prod_beta c64.dec_enc flip: length_greater_0_conv)

lemmas takes_numbers [takes_rules] =
  takes_reads [OF reads_u8] takes_reads [OF reads_u16] takes_reads [OF reads_u32] takes_reads [OF reads_u64]

lemma takes_u8_wide [takes_rules]:
  assumes "unat w < 256"
  shows "takes in_u8_wide [ucast w] w"
proof -
  have "(ucast (ucast w :: byte) :: u32) = w"
    using assms by (simp add: word_unat_eq_iff unsigned_ucast_eq unsigned_take_bit_eq take_bit_nat_def)
  then show ?thesis
    unfolding in_u8_wide_def using takes_then_ret [OF takes_reads [OF reads_u8], of "ucast :: byte \<Rightarrow> u32" "ucast w"]
    by simp
qed

lemma takes_text [takes_rules]: "text_ok 16 t \<Longrightarrow> takes (in_string 0x10) (pad_field 16 t) t"
  using takes_reads [OF reads_string [of 16 t]] by simp

lemma takes_array:
  assumes "length bs = n" "0 < n" "n \<le> 8192"
  shows "takes (in_array_into n old :: ('d session, byte list) prog) bs bs"
proof -
  have n: "unat (word_of_nat n :: u32) = n" using assms(3) by (simp add: unat_of_nat)
  have "takes (in_array (word_of_nat n) :: ('d session, byte list option) prog) bs (Some bs)"
    unfolding takes_def
  proof (intro allI impI)
    fix s :: "'d session" and rest assume a: "asks s (bs @ rest)" "rest \<noteq> []"
    have ne: "bs \<noteq> []" using assms by auto
    note c = asks_cursor [OF a(1) ne]
    have "length (drop (unat (pOffset (inbuf (cl s)))) (buffer (inbuf (cl s)))) = length bs + length rest"
      by (simp add: c(3))
    moreover have "length (buffer (inbuf (cl s))) = 8192" using a(1) by (simp add: asks_def wf_length)
    ultimately have "8192 - unat (pOffset (inbuf (cl s))) = n + length rest" using assms(1) by simp
    moreover have "0 < length rest" using a(2) by simp
    ultimately have lt: "unat (pOffset (inbuf (cl s))) + n < 8192" by linarith
    then have "unat (ucast (pOffset (inbuf (cl s))) + (word_of_nat n :: u32)) < 8192"
      by (simp add: unat_add_ucast n)
    moreover have "(ucast (word_of_nat n :: u32) :: u16) = word_of_nat (unat (word_of_nat n :: u32))" by simp
    ultimately have "getArray (word_of_nat n) (inbuf (cl s)) =
        Inr (Some bs, addOffset (word_of_nat n) (inbuf (cl s)))"
      using c(2) lt assms(1) by (simp add: getArray_def copy_ok_def n addOffset_def)
    then show "in_array (word_of_nat n) s = Inr (Some bs, skip_in (length bs) s)"
      using assms(1) by (simp add: in_array_def on_in_fault_def skip_in_def)
  qed
  from takes_then_ret [OF this, of "\<lambda>r. case r of None \<Rightarrow> old | Some bs \<Rightarrow> bs"] show ?thesis
    unfolding in_array_into_def by simp
qed

lemma takes_collect [takes_rules]:
  assumes "\<And>y. y \<in> set ys \<Longrightarrow> takes m (enc y) y" "length xs = length ys"
  shows "takes (collect xs (\<lambda>_. m)) (concat (map enc ys)) ys"
  using assms(2,1)
proof (induction xs ys rule: list_induct2)
  case Nil
  show ?case by (simp add: takes_ret)
next
  case (Cons x xs y ys)
  have "takes (bnd (collect xs (\<lambda>_. m)) (\<lambda>zs. ret (y # zs))) (concat (map enc ys)) (y # ys)"
    using takes_then_ret [OF Cons.IH] Cons.prems by simp
  then show ?case
    unfolding collect.simps list.map concat.simps by (rule takes_bnd [rotated]) (simp add: Cons.prems)
qed

section \<open>The request\<close>

text \<open>How a game server encodes a car and a save request, and the requests it can encode.\<close>

definition car_bytes :: "CAR \<Rightarrow> byte list" where
  "car_bytes c = u32_bytes (carID c) @ u32_bytes (KMs c) @ cardata c @ u32_bytes (engineCondition c) @
     u32_bytes (bay c)"

definition save_bytes :: "save_data \<Rightarrow> byte list" where
  "save_bytes v =
     u32_bytes (sv_license v) @ pad_field 16 (sv_handle v) @ u64_bytes (sv_CP v) @ [ucast (sv_level v)] @
     u32_bytes (sv_points v) @ u32_bytes (sv_playerWin v) @ u32_bytes (sv_playerLose v) @
     u32_bytes (sv_rivalWin v) @ u32_bytes (sv_rivalLose v) @ sv_rivalStatus v @
     [ucast (sv_activeCar v)] @ [ucast (sv_privileges v)] @ [ucast (sv_notBeginner v)] @
     u32_bytes (sv_teamId v) @
     [word_of_nat (length (sv_garages v))] @ concat (map (\<lambda>g. [g]) (sv_garages v)) @
     [word_of_nat (length (sv_cars v))] @ concat (map car_bytes (sv_cars v)) @
     u32_bytes (word_of_nat (length (sv_items v))) @ concat (map u16_bytes (sv_items v)) @
     sv_sign v"

definition save_shape :: "save_data \<Rightarrow> bool" where
  "save_shape v \<longleftrightarrow> text_ok 16 (sv_handle v) \<and> unat (sv_level v) < 256 \<and> unat (sv_activeCar v) < 256 \<and>
     unat (sv_privileges v) < 256 \<and> unat (sv_notBeginner v) < 256 \<and>
     length (sv_rivalStatus v) = 1200 \<and> length (sv_garages v) < 256 \<and> length (sv_cars v) < 256 \<and>
     (\<forall>c \<in> set (sv_cars v). length (cardata c) = 187) \<and> length (sv_items v) < 4096 \<and> length (sv_sign v) = 54"

lemma takes_car: "length (cardata c) = 187 \<Longrightarrow> takes read_car (car_bytes c) c"
proof -
  assume "length (cardata c) = 187"
  then have a: "takes (in_array_into sizeof_cardata (replicate sizeof_cardata 0)) (cardata c) (cardata c)"
    by (intro takes_array) (simp_all add: sizeofs)
  have "takes read_car (car_bytes c @ []) c"
    unfolding read_car_def car_bytes_def append_assoc
    by (rule takes_bnd [OF takes_numbers(3)] takes_bnd [OF a] takes_ret_eq)+ (cases c, simp)
  then show "takes read_car (car_bytes c) c" by simp
qed

text \<open>The handler decodes what was encoded.\<close>

lemma takes_save:
  assumes "save_shape v"
  shows "takes (read_save E) (save_bytes v) v"
proof -
  have count8: "unat (word_of_nat n :: u32) = n" "(ucast (word_of_nat n :: u32) :: byte) = word_of_nat n"
    "length (indices (word_of_nat n)) = n" if "n < 256" for n
    using that by (simp_all add: unat_of_nat indices_def word_unat_eq_iff unsigned_ucast_eq take_bit_nat_def)
  have count32: "length (indices (word_of_nat n)) = n" if "n < 4096" for n
    using that by (simp add: indices_def unat_of_nat)
  have arr: "takes (in_array_into sizeof_rivalStatus (stack_rival E)) (sv_rivalStatus v) (sv_rivalStatus v)"
    "takes (in_array_into sizeof_sign (stack_sign E)) (sv_sign v) (sv_sign v)"
    using assms by (intro takes_array; simp add: sizeofs save_shape_def)+
  note sh = assms [unfolded save_shape_def]
  have cnt: "takes in_u8_wide [word_of_nat (length (sv_garages v))] (word_of_nat (length (sv_garages v)))"
    "takes in_u8_wide [word_of_nat (length (sv_cars v))] (word_of_nat (length (sv_cars v)))"
    using takes_u8_wide [of "word_of_nat (length (sv_garages v))"] takes_u8_wide [of "word_of_nat (length (sv_cars v))"]
      count8 sh by simp_all
  have col: "takes (collect (indices (word_of_nat (length (sv_garages v)))) (\<lambda>_. in_u8))
      (concat (map (\<lambda>g. [g]) (sv_garages v))) (sv_garages v)"
    "takes (collect (indices (word_of_nat (length (sv_cars v)))) (\<lambda>_. read_car))
      (concat (map car_bytes (sv_cars v))) (sv_cars v)"
    "takes (collect (indices (word_of_nat (length (sv_items v)))) (\<lambda>_. in_u16))
      (concat (map u16_bytes (sv_items v))) (sv_items v)"
    using sh count8(3) count32 by (intro takes_collect takes_numbers takes_car; simp)+
  have lv: "takes in_u8_wide [ucast (sv_level v)] (sv_level v)"
    "takes in_u8_wide [ucast (sv_activeCar v)] (sv_activeCar v)"
    "takes in_u8_wide [ucast (sv_privileges v)] (sv_privileges v)"
    "takes in_u8_wide [ucast (sv_notBeginner v)] (sv_notBeginner v)"
    using sh by (intro takes_u8_wide; simp)+
  have tx: "takes (in_string 0x10) (pad_field 16 (sv_handle v)) (sv_handle v)"
    using sh by (intro takes_text) simp
  note steps = takes_bnd [OF takes_numbers(3)] takes_bnd [OF takes_numbers(4)] takes_bnd [OF tx]
    takes_bnd [OF lv(1)] takes_bnd [OF lv(2)] takes_bnd [OF lv(3)] takes_bnd [OF lv(4)] takes_bnd [OF cnt(1)]
    takes_bnd [OF cnt(2)] takes_bnd [OF arr(1)] takes_bnd [OF arr(2)]
    takes_bnd [OF col(1)] takes_bnd [OF col(2)] takes_bnd [OF col(3)] takes_ret_eq
  have "takes (read_save E) (save_bytes v @ []) v"
    unfolding read_save_def save_bytes_def append_assoc by (rule steps)+ (cases v, simp)
  then show ?thesis by simp
qed

section \<open>What is stored\<close>

text \<open>
  Storing a save is a program of the database alone: the statement for the account, the row of
  rivals, the garages, a row per car, the items and the sign, each row being updated if a lookup finds
  it and inserted if not. Bytes are sent as hexadecimal literals.
\<close>

definition put_row :: "'d env \<Rightarrow> cppstring \<Rightarrow> cppstring \<Rightarrow> cppstring \<Rightarrow> ('d database, unit) prog" where
  "put_row E look change create =
     bnd (Exec (api E) look) (\<lambda>n. bnd (Exec (api E) (if n \<noteq> 0 then change else create)) (\<lambda>_. ret ()))"

definition say :: "'d env \<Rightarrow> cppstring \<Rightarrow> ('d database, unit) prog" where
  "say E q = bnd (Exec (api E) q) (\<lambda>_. ret ())"

definition account_update :: "save_data \<Rightarrow> cppstring" where
  "account_update v =
     ''UPDATE account_data SET handle = '' @ quoted (sv_handle v) @ '', cp = '' @ dec_word (sv_CP v) @
     '', level = '' @ dec_word (sv_level v) @ '', points = '' @ dec_word (sv_points v) @
     '', playerwin = '' @ dec_word (sv_playerWin v) @ '', playerlose = '' @ dec_word (sv_playerLose v) @
     '', rivalwin = '' @ dec_word (sv_rivalWin v) @ '', rivallose = '' @ dec_word (sv_rivalLose v) @
     '', activecar = '' @ dec_word (sv_activeCar v) @ '', privileges = '' @ dec_word (sv_privileges v) @
     '', teamid = '' @ teamIDStr (sv_teamId v) @ '', beginner = '' @ dec_word (sv_notBeginner v) @
     '', garagecount = '' @ dec (length (sv_garages v)) @ '' WHERE license = '' @ dec_word (sv_license v)"

definition put_blob :: "'d env \<Rightarrow> u32 \<Rightarrow> cppstring \<Rightarrow> cppstring \<Rightarrow> cppstring \<Rightarrow> byte list \<Rightarrow> ('d database, unit) prog" where
  "put_blob E license table column column' bs =
     put_row E (''SELECT * FROM '' @ table @ '' WHERE license = '' @ dec_word license)
       (''UPDATE '' @ table @ '' SET '' @ column @ '' = '' @ xlit (hex bs) @
        '' WHERE license = '' @ dec_word license)
       (''INSERT INTO '' @ table @ ''(license, '' @ column' @ '') VALUES('' @ dec_word license @ '', '' @
        xlit (hex bs) @ '')'')"

definition put_car :: "'d env \<Rightarrow> u32 \<Rightarrow> CAR \<Rightarrow> ('d database, unit) prog" where
  "put_car E license c =
     (let here = '' WHERE license = '' @ dec_word license @ '' AND bay = '' @ dec_word (bay c) in
      put_row E (''SELECT * FROM garage_data'' @ here @ '' AND impounded = 0'')
        (''UPDATE garage_data SET carID = '' @ dec_word (carID c) @ '', KMs = '' @ float_text E (KMs c) @
         '', condition = '' @ dec_word (engineCondition c) @ '', carData = '' @ xlit (hex (cardata c)) @
         here @ '' AND impounded <> 1'')
        (''INSERT INTO garage_data(license, bay, carID, KMs, condition, carData) VALUES('' @ dec_word license @
         '', '' @ dec_word (bay c) @ '', '' @ dec_word (carID c) @ '', '' @ float_text E (KMs c) @ '', '' @
         dec_word (engineCondition c) @ '', '' @ xlit (hex (cardata c)) @ '')''))"

definition put_items :: "'d env \<Rightarrow> u32 \<Rightarrow> u16 list \<Rightarrow> ('d database, unit) prog" where
  "put_items E license items =
     (let here = '' WHERE license = '' @ dec_word license @ '' AND blocked = 0'';
          data = xlit (if items = [] then ''0000'' else hex (item_bytes items)) in
      put_row E (''SELECT * FROM item_data'' @ here)
        (''UPDATE item_data SET itemcount = '' @ dec (length items) @ '', itemdata = '' @ data @ here)
        (''INSERT INTO item_data(license, itemcount, itemdata) VALUES('' @ dec_word license @ '', '' @
         dec (length items) @ '', '' @ data @ '')''))"

definition stored :: "'d env \<Rightarrow> save_data \<Rightarrow> ('d database, unit) prog" where
  "stored E v = steps
     [say E (account_update v),
      put_blob E (sv_license v) ''rival_data'' ''rivalstatus'' ''rivalstatus'' (sv_rivalStatus v),
      whenP (sv_garages v \<noteq> []) (say E (''UPDATE account_data SET garagedata = '' @ xlit (hex (sv_garages v)) @
        '' WHERE license = '' @ dec_word (sv_license v))),
      for_each (sv_cars v) (put_car E (sv_license v)),
      put_items E (sv_license v) (sv_items v),
      put_blob E (sv_license v) ''sign_data'' ''signdata'' ''signData'' (sv_sign v)]"

text \<open>A program of the database runs in a session as itself.\<close>

lemma on_db_simps:
  "on_db (ret x) = ret x" "on_db (bnd m f) = bnd (on_db m) (\<lambda>x. on_db (f x))" "on_db (stm m n) = stm (on_db m) (on_db n)"
  "on_db (whenP b p) = whenP b (on_db p)"
  by (auto simp: on_db_def ret_def bnd_def stm_def whenP_def fun_eq_iff split: sum.splits)

lemma on_db_finish:
  "bnd (on_db m) (\<lambda>_. ret a) s =
    (case m (sdb s) of Inl e \<Rightarrow> Inl e | Inr (_, D) \<Rightarrow> Inr (a, s\<lparr>sdb := D\<rparr>))"
  by (simp add: bnd_run on_db_def ret_run split: sum.splits)

lemma on_db_steps: "on_db (steps ms) = steps (map on_db ms)"
  by (induction ms) (simp_all add: on_db_simps)

lemma on_db_for_each: "on_db (for_each xs f) = for_each xs (\<lambda>x. on_db (f x))"
  by (induction xs) (simp_all add: on_db_simps)

lemma on_db_say: "on_db (say E q) = stm (db_exec E q) (ret ())"
  by (simp add: say_def on_db_simps db_exec_def stm_def)

lemma on_db_put_row:
  "on_db (put_row E look change create) =
    bnd (db_exec E look) (\<lambda>n. if n \<noteq> 0 then stm (db_exec E change) (ret ()) else stm (db_exec E create) (ret ()))"
  unfolding put_row_def on_db_simps db_exec_def stm_def
  by (rule arg_cong [of _ _ "bnd (on_db (Exec (api E) look))"]) (auto simp: fun_eq_iff)

lemma hex_of_all:
  assumes "length bs = unat n" "bs \<noteq> []" "length bs \<le> 4096"
  shows "hex_of bs n = ret (hex bs)"
proof -
  have "0 < n" using assms(1,2) by (metis length_greater_0_conv unat_gt_0 word_greater_zero_iff)
  then have "HexString bs n = Inr (hex bs)" using HexString_len [of n bs] assms by (simp add: MAX_MESG_LEN_def)
  then show ?thesis by (simp add: hex_of_def lift_def ret_def fun_eq_iff)
qed

lemmas on_db_all = on_db_simps on_db_steps on_db_for_each on_db_say on_db_put_row

lemma upsert_put_row: "upsert E sel upd ins = on_db (put_row E (sql sel) (sql upd) (sql ins))"
  unfolding upsert_def run_sql_def on_db_put_row ..

lemma run_sql_say: "run_sql E q = on_db (say E (sql q))"
  by (simp add: run_sql_def on_db_say)

lemma save_account_stored: "save_account E v = on_db (say E (account_update v))"
  by (simp add: save_account_def run_sql_say account_update_def)

lemma save_rivals_stored:
  "length (sv_rivalStatus v) = 1200 \<Longrightarrow> save_rivals E v =
    on_db (put_blob E (sv_license v) ''rival_data'' ''rivalstatus'' ''rivalstatus'' (sv_rivalStatus v))"
  by (simp add: save_rivals_def hex_of_all sizeofs upsert_put_row put_blob_def bnd_ret flip: length_greater_0_conv)

lemma save_sign_stored:
  "length (sv_sign v) = 54 \<Longrightarrow> save_sign E v =
    on_db (put_blob E (sv_license v) ''sign_data'' ''signdata'' ''signData'' (sv_sign v))"
  by (simp add: save_sign_def hex_of_all upsert_put_row put_blob_def bnd_ret flip: length_greater_0_conv)

lemma save_garages_stored:
  assumes "length (sv_garages v) < 256"
  shows "save_garages (E :: 'd env) v = on_db (whenP (sv_garages v \<noteq> []) (say E (''UPDATE account_data SET garagedata = '' @
    xlit (hex (sv_garages v)) @ '' WHERE license = '' @ dec_word (sv_license v))))"
proof (cases "sv_garages v = []")
  case True
  then show ?thesis by (simp add: save_garages_def whenP_def on_db_simps)
next
  case False
  then have "(hex_of (sv_garages v) (word_of_nat (length (sv_garages v))) :: ('d session, cppstring) prog) =
      ret (hex (sv_garages v))"
    using assms by (intro hex_of_all) (simp_all add: unat_of_nat)
  with False show ?thesis by (simp add: save_garages_def whenP_def run_sql_say bnd_ret)
qed

lemma save_car_stored:
  "length (cardata c) = 187 \<Longrightarrow> save_car E license c = on_db (put_car E license c)"
  by (simp add: save_car_def hex_of_all sizeofs upsert_put_row put_car_def bnd_ret Let_def
      flip: length_greater_0_conv)

lemma length_item_bytes: "length (item_bytes items) = 2 * length items"
  by (induction items) (simp_all add: item_bytes_def)

lemma save_items_stored:
  assumes "length (sv_items v) \<le> 2048"
  shows "save_items (E :: 'd env) v = on_db (put_items E (sv_license v) (sv_items v))"
proof -
  have "(if 0 < length (sv_items v)
          then hex_of (item_bytes (sv_items v)) (word_of_nat (length (sv_items v)) * 2)
          else ret ''0000'' :: ('d session, cppstring) prog) = ret (if sv_items v = [] then ''0000'' else hex (item_bytes (sv_items v)))"
  proof (cases "sv_items v = []")
    case False
    have "length (item_bytes (sv_items v)) = unat (word_of_nat (length (sv_items v)) * 2 :: u32)"
      using assms by (simp add: length_item_bytes unat_word_ariths unat_of_nat)
    moreover have "item_bytes (sv_items v) \<noteq> []"
      using False length_item_bytes [of "sv_items v"] by (metis length_0_conv mult_eq_0_iff zero_neq_numeral)
    ultimately show ?thesis using False assms by (simp add: hex_of_all length_item_bytes)
  qed simp
  then show ?thesis unfolding save_items_def by (simp add: bnd_ret upsert_put_row put_items_def Let_def)
qed

lemma for_each_cong: "(\<And>x. x \<in> set xs \<Longrightarrow> f x = g x) \<Longrightarrow> for_each xs f = for_each xs g"
  by (induction xs) simp_all

lemma store_save_stored:
  assumes "save_shape v" "length (sv_items v) \<le> 2048"
  shows "store_save E v = on_db (stored E v)"
proof -
  note sh = assms(1) [unfolded save_shape_def]
  have "for_each (sv_cars v) (save_car E (sv_license v)) =
      for_each (sv_cars v) (\<lambda>c. on_db (put_car E (sv_license v) c))"
    using sh by (intro for_each_cong save_car_stored) blast
  moreover have "save_rivals E v =
      on_db (put_blob E (sv_license v) ''rival_data'' ''rivalstatus'' ''rivalstatus'' (sv_rivalStatus v))"
    using sh by (intro save_rivals_stored) blast
  moreover have "save_sign E v =
      on_db (put_blob E (sv_license v) ''sign_data'' ''signdata'' ''signData'' (sv_sign v))"
    using sh by (intro save_sign_stored) blast
  moreover have "length (sv_garages v) < 256" using sh by blast
  ultimately show ?thesis
    unfolding store_save_def stored_def on_db_steps list.map on_db_for_each
    by (simp only: save_account_stored save_garages_stored save_items_stored [OF assms(2)])
qed

text \<open>Reading leaves a session \<open>w\<close> that differs in the cursor of the request only.\<close>

lemma save_request_read:
  assumes "getSubType (inbuf (cl s)) = 0" "wf_packet (inbuf (cl s))"
    and "drop 6 (buffer (inbuf (cl s))) = save_bytes v @ rest" "rest \<noteq> []" "save_shape v"
  obtains w p where "ClientRequests E s = bnd (db_open E) (\<lambda>res.
     stm (steps [whenP (res = DB_OK) (store_save E v), db_close_only E]) (ret Return)) w"
    "w = s\<lparr>cl := (cl s)\<lparr>inbuf := p\<rparr>\<rparr>"
proof -
  define u where "u = s\<lparr>cl := (cl s)\<lparr>inbuf := setOffset 6 (inbuf (cl s))\<rparr>\<rparr>"
  define w where "w = skip_in (length (save_bytes v)) u"
  have "asks u (save_bytes v @ rest)"
    using assms(2,3) by (simp add: u_def asks_def unread_def setOffset_def wf_packet_def)
  from takes_run [OF takes_save [OF assms(5)] this assms(4)]
  have r: "read_save E u = Inr (v, w)" unfolding w_def .
  have "ClientRequests E s = save_client_data E u"
    using assms(1)
    by (simp add: ClientRequests_def stm_run in_offset_def on_in_def bnd_run gets_run getSubType_def
        setOffset_def u_def)
  also have "\<dots> = bnd (db_open E) (\<lambda>res.
     stm (steps [whenP (res = DB_OK) (store_save E v), db_close_only E]) (ret Return)) w"
    unfolding save_client_data_def bnd_run [of "read_save E"] r by simp
  finally show ?thesis by (rule that) (simp add: w_def u_def skip_in_def)
qed

text \<open>
  C11: A save request stores what it carries, and nothing else: for every save that can be encoded and has
  at most 2048 items, the handler reads the whole request, the database runs exactly the statements of
  \<open>stored\<close> for the encoded values between its opening and its closing, nothing is sent back, and a fault
  of the database is the only possible fault.
\<close>

theorem save_request_is_stored:
  assumes "getSubType (inbuf (cl s)) = 0" "wf_packet (inbuf (cl s))"
    and "drop 6 (buffer (inbuf (cl s))) = save_bytes v @ rest" "rest \<noteq> []" "save_shape v"
    and "length (sv_items v) \<le> 2048"
  shows "\<exists>p. ClientRequests E s =
    (case (bnd (Open (api E)) (\<lambda>r. stm (whenP (r = DB_OK) (stored E v)) (Close (api E)))) (sdb s) of
       Inl e \<Rightarrow> Inl e
     | Inr (_, D) \<Rightarrow> Inr (Return, s\<lparr>cl := (cl s)\<lparr>inbuf := p\<rparr>, sdb := D\<rparr>))"
proof -
  obtain w p where w: "ClientRequests E s = bnd (db_open E) (\<lambda>res.
     stm (steps [whenP (res = DB_OK) (store_save E v), db_close_only E]) (ret Return)) w"
    "w = s\<lparr>cl := (cl s)\<lparr>inbuf := p\<rparr>\<rparr>"
    using save_request_read [OF assms(1-5)] .
  have "ClientRequests E s = bnd (on_db (bnd (Open (api E))
      (\<lambda>r. stm (whenP (r = DB_OK) (stored E v)) (Close (api E))))) (\<lambda>_. ret Return) w"
    unfolding w(1) store_save_stored [OF assms(5,6)]
    by (simp add: on_db_simps db_open_def db_close_only_def db_close_def bnd_assoc stm_def)
  then show ?thesis
    unfolding on_db_finish w(2) by (intro exI [of _ p]) simp
qed

section \<open>Too many items\<close>

lemma Exec_sqlite:
  assumes "db_type D = DBTYPE_SQLITE"
  obtains n D' where "Exec (api E) q D = Inr (n, D')" "db_type D' = DBTYPE_SQLITE"
proof -
  obtain n D' where r: "Exec (api E) q D = Inr (n, D')"
    using assms by (auto simp: Exec_def ExecSqlite_def case_prod_beta Let_def)
  then have "same_settings D D'" by (rule dbx.run_settings)
  with assms have "db_type D' = DBTYPE_SQLITE" by (simp add: same_settings_def)
  with r show ?thesis by (rule that)
qed

text \<open>Programs that end without a fault on a SQLite database.\<close>

definition sqlite_ends :: "('d database, unit) prog \<Rightarrow> bool" where
  "sqlite_ends m \<longleftrightarrow> (\<forall>D. db_type D = DBTYPE_SQLITE \<longrightarrow> (\<exists>D'. m D = Inr ((), D') \<and> db_type D' = DBTYPE_SQLITE))"

lemma sqlite_ends_rules:
  "sqlite_ends (ret ())" "sqlite_ends m \<Longrightarrow> sqlite_ends n \<Longrightarrow> sqlite_ends (stm m n)"
  "sqlite_ends m \<Longrightarrow> sqlite_ends (whenP b m)"
  by (fastforce simp: sqlite_ends_def ret_run stm_run whenP_def)+

lemma sqlite_ends_for_each: "(\<And>x. sqlite_ends (f x)) \<Longrightarrow> sqlite_ends (for_each xs f)"
  by (induction xs) (simp_all add: sqlite_ends_rules)

lemma sqlite_ends_say: "sqlite_ends (say E q)"
  unfolding sqlite_ends_def say_def
proof (intro allI impI)
  fix D :: "'a database" assume "db_type D = DBTYPE_SQLITE"
  then obtain n D' where "Exec (api E) q D = Inr (n, D')" "db_type D' = DBTYPE_SQLITE" by (rule Exec_sqlite)
  then show "\<exists>D'. bnd (Exec (api E) q) (\<lambda>_. ret ()) D = Inr ((), D') \<and> db_type D' = DBTYPE_SQLITE"
    by (simp add: bnd_run ret_run)
qed

lemma sqlite_ends_put_row: "sqlite_ends (put_row E look change create)"
  unfolding sqlite_ends_def put_row_def
proof (intro allI impI)
  fix D :: "'a database" assume "db_type D = DBTYPE_SQLITE"
  then obtain n D1 where 1: "Exec (api E) look D = Inr (n, D1)" "db_type D1 = DBTYPE_SQLITE" by (rule Exec_sqlite)
  from 1(2) obtain m D2 where "Exec (api E) (if n \<noteq> 0 then change else create) D1 = Inr (m, D2)"
    "db_type D2 = DBTYPE_SQLITE" by (rule Exec_sqlite)
  with 1 show "\<exists>D'. bnd (Exec (api E) look) (\<lambda>n. bnd (Exec (api E) (if n \<noteq> 0 then change else create))
      (\<lambda>_. ret ())) D = Inr ((), D') \<and> db_type D' = DBTYPE_SQLITE"
    by (simp add: bnd_run ret_run)
qed

lemmas sqlite_ends_all = sqlite_ends_rules sqlite_ends_for_each sqlite_ends_say sqlite_ends_put_row

lemma sqlite_ends_stored: "sqlite_ends (stored E v)"
  unfolding stored_def put_blob_def put_car_def put_items_def Let_def steps.simps by (intro sqlite_ends_all)

lemma store_save_overflow:
  assumes "save_shape v" "2048 < length (sv_items v)" "db_type (sdb s) = DBTYPE_SQLITE"
  shows "store_save (E :: 'd env) v s = Inl OutOfBounds"
proof -
  note sh = assms(1) [unfolded save_shape_def]
  define before where "before = steps [say E (account_update v),
      put_blob E (sv_license v) ''rival_data'' ''rivalstatus'' ''rivalstatus'' (sv_rivalStatus v),
      whenP (sv_garages v \<noteq> []) (say E (''UPDATE account_data SET garagedata = '' @ xlit (hex (sv_garages v)) @
        '' WHERE license = '' @ dec_word (sv_license v))),
      for_each (sv_cars v) (put_car E (sv_license v))]"
  have "for_each (sv_cars v) (save_car E (sv_license v)) =
      for_each (sv_cars v) (\<lambda>c. on_db (put_car E (sv_license v) c))"
    using sh by (intro for_each_cong save_car_stored) blast
  moreover have "save_rivals E v =
      on_db (put_blob E (sv_license v) ''rival_data'' ''rivalstatus'' ''rivalstatus'' (sv_rivalStatus v))"
    using sh by (intro save_rivals_stored) blast
  moreover have "length (sv_garages v) < 256" using sh by blast
  ultimately have st: "store_save E v = stm (on_db before) (stm (save_items E v) (stm (save_sign E v) (ret ())))"
    unfolding store_save_def before_def on_db_steps list.map on_db_for_each
    by (simp add: save_account_stored save_garages_stored stm_def bnd_assoc)
  have "sqlite_ends before"
    unfolding before_def put_blob_def put_car_def Let_def steps.simps by (intro sqlite_ends_all)
  then obtain D where D: "before (sdb s) = Inr ((), D)" using assms(3) unfolding sqlite_ends_def by blast
  have "unat (word_of_nat (length (sv_items v)) * 2 :: u32) = 2 * length (sv_items v)"
    using sh by (simp add: unat_word_ariths unat_of_nat)
  then have "HexString (item_bytes (sv_items v)) (word_of_nat (length (sv_items v)) * 2) = Inl OutOfBounds"
    using assms(2) by (intro HexString_overflow) (simp_all add: length_item_bytes MAX_MESG_LEN_def)
  then have "save_items E v t = Inl OutOfBounds" for t :: "'d session"
    using assms(2) by (auto simp: save_items_def bnd_run hex_of_def lift_def)
  then show ?thesis unfolding st by (simp add: stm_run on_db_def D)
qed


section \<open>Examples\<close>

text \<open>The save of an account with one car and some items.\<close>

definition bobs_save :: "u16 list \<Rightarrow> save_data" where
  "bobs_save items =
     \<lparr>sv_license = 7, sv_handle = ''bob'', sv_CP = 1000, sv_level = 3, sv_points = 10, sv_playerWin = 1,
      sv_playerLose = 2, sv_rivalWin = 3, sv_rivalLose = 4, sv_rivalStatus = replicate 1200 0,
      sv_activeCar = 0, sv_privileges = 0, sv_notBeginner = 1, sv_teamId = 0xFFFFFFFF, sv_garages = [1],
      sv_cars = [\<lparr>carID = 5, KMs = 0, engineCondition = 100, bay = 0, cardata = replicate 187 0\<rparr>],
      sv_items = items, sv_sign = replicate 54 0\<rparr>"

lemma bobs_save_facts:
  assumes "length items < 3000"
  shows "save_shape (bobs_save items)" "sv_items (bobs_save items) = items"
    and "length (save_bytes (bobs_save items)) = 1520 + 2 * length items"
proof -
  show "save_shape (bobs_save items)" "sv_items (bobs_save items) = items"
    using assms by (simp_all add: save_shape_def bobs_save_def text_ok_def)
  have "length (pad_field 16 ''bob'') = 16" by (rule length_pad_field) simp
  moreover have "length (concat (map u16_bytes items)) = 2 * length items"
    using length_item_bytes [of items] by (simp add: item_bytes_def)
  ultimately show "length (save_bytes (bobs_save items)) = 1520 + 2 * length items"
    by (simp add: save_bytes_def bobs_save_def car_bytes_def)
qed

definition saving_session :: "u16 list \<Rightarrow> answer list \<Rightarrow> answer list session" where
  "saving_session items d = sample_session (message_of 2 0 [save_bytes (bobs_save items)]) d"

lemma saving_session_facts:
  assumes "length items < 3000"
  shows "getSubType (inbuf (cl (saving_session items d))) = 0" "wf_packet (inbuf (cl (saving_session items d)))"
    and "drop 6 (buffer (inbuf (cl (saving_session items d)))) =
      save_bytes (bobs_save items) @ replicate (6666 - 2 * length items) 0"
    and "db_type (sdb (saving_session items d)) = DBTYPE_SQLITE"
    and "Open (api sample_env) (sdb (saving_session items d)) = Inr (DB_OK, sdb (saving_session items d))"
proof -
  let ?m = "message_of 2 0 [save_bytes (bobs_save items)]"
  note l = bobs_save_facts(3) [OF assms]
  have fits: "length (concat [save_bytes (bobs_save items)]) \<le> 8000" using assms by (simp add: l)
  have i: "inbuf (cl (saving_session items d)) = ?m" by (simp add: saving_session_def sample_session_def)
  show "getSubType (inbuf (cl (saving_session items d))) = 0" "wf_packet (inbuf (cl (saving_session items d)))"
    unfolding i by (rule team_request_facts [OF fits])+
  show "drop 6 (buffer (inbuf (cl (saving_session items d)))) =
      save_bytes (bobs_save items) @ replicate (6666 - 2 * length items) 0"
    unfolding i team_request_facts(3) [OF fits] by (simp add: l)
  show "db_type (sdb (saving_session items d)) = DBTYPE_SQLITE"
    "Open (api sample_env) (sdb (saving_session items d)) = Inr (DB_OK, sdb (saving_session items d))"
    by (simp_all add: saving_session_def sample_session_def sample_simps DB_OK_def)
qed

theorem save_request_is_stored_witness:
  "\<exists>p D. ClientRequests sample_env (saving_session [5, 6] []) =
    Inr (Return, (saving_session [5, 6] [])\<lparr>cl := (cl (saving_session [5, 6] []))\<lparr>inbuf := p\<rparr>, sdb := D\<rparr>)"
proof -
  let ?s = "saving_session [5, 6] []" and ?v = "bobs_save [5, 6]"
  have n: "length [5, 6 :: u16] < 3000" by simp
  note f = saving_session_facts [OF n, of "[]"] and v = bobs_save_facts [OF n]
  have ne: "replicate (6666 - 2 * length [5, 6 :: u16]) (0 :: byte) \<noteq> []" and it: "length (sv_items ?v) \<le> 2048"
    by (simp_all add: v(2))
  obtain D where D: "stored sample_env ?v (sdb ?s) = Inr ((), D)" "db_type D = DBTYPE_SQLITE"
    using sqlite_ends_stored f(4) unfolding sqlite_ends_def by blast
  have "bnd (Open (api sample_env)) (\<lambda>r. stm (whenP (r = DB_OK) (stored sample_env ?v)) (Close (api sample_env)))
      (sdb ?s) = Inr (0, D)"
    using D f(5) by (simp add: bnd_run stm_run whenP_def sample_simps)
  with save_request_is_stored [OF f(1-3) ne v(1) it, of sample_env] show ?thesis by (auto split: sum.splits)
qed


end
