(* ===== verification/Codec_Properties.thy ===== *)
theory Codec_Properties
  imports Save_Properties
begin

text \<open>
  What is written one way and read another: hexadecimal text, the fields of messages, and the rows of
  the two database libraries; and what a handler may do to the slot of its client.
\<close>

section \<open>Hexadecimal text\<close>

text \<open>
  C26: The hexadecimal text of a block of memory reads back as this block, has two characters per byte and no
  quote. With a length, more than 4096 bytes write past the array of the server; without one, the block ends
  at its first zero byte and is cut to 4096 bytes.
\<close>

theorem hex_text_reads_back:
  assumes "if n = 0 then 0 \<in> set mem else unat n \<le> length mem"
  shows "HexString mem n =
      (if 4096 < unat n then Inl OutOfBounds
       else Inr (hex (if n = 0 then take 4096 (cstr mem) else take (unat n) mem))) \<and>
    unhex (hex bs) = bs \<and> length (hex bs) = 2 * length bs \<and> CHR 0x27 \<notin> set (hex bs)"
proof -
  have "HexString mem n =
      (if 4096 < unat n then Inl OutOfBounds
       else Inr (hex (if n = 0 then take 4096 (cstr mem) else take (unat n) mem)))"
  proof (cases "n = 0")
    case True
    then show ?thesis using assms HexString_cstr [of mem] by (simp add: MAX_MESG_LEN_def)
  next
    case False
    then have "0 < n" by (simp add: word_greater_zero_iff)
    then show ?thesis
      using False assms HexString_len [of n mem] HexString_overflow [of n mem] by (simp add: MAX_MESG_LEN_def)
  qed
  then show ?thesis by (simp add: unhex_hex hex_no_quote)
qed

theorem hex_text_reads_back_witness:
  "HexString [1, 0x27, 0xAF] 3 = Inr (hex [1, 0x27, 0xAF]) \<and> HexString (replicate 4097 1) 4097 = Inl OutOfBounds"
  using hex_text_reads_back [of 3 "[1, 0x27, 0xAF]" "[]"] hex_text_reads_back [of 4097 "replicate 4097 1" "[]"]
  by simp

section \<open>The fields of messages\<close>

datatype field = Num8 byte | Num32 u32 | Num64 u64 | Text cppstring

fun write_field :: "field \<Rightarrow> ('d session, unit) prog" where
  "write_field (Num8 b) = out_u8 b"
| "write_field (Num32 w) = out_u32 w"
| "write_field (Num64 w) = out_u64 w"
| "write_field (Text t) = out_string t 16"

text \<open>Reading a field of the kind of a given one.\<close>

fun read_like :: "field \<Rightarrow> ('d session, field) prog" where
  "read_like (Num8 _) = bnd in_u8 (\<lambda>b. ret (Num8 b))"
| "read_like (Num32 _) = bnd in_u32 (\<lambda>w. ret (Num32 w))"
| "read_like (Num64 _) = bnd in_u64 (\<lambda>w. ret (Num64 w))"
| "read_like (Text _) = bnd (in_string 16) (\<lambda>t. ret (Text t))"

fun field_bytes :: "field \<Rightarrow> byte list" where
  "field_bytes (Num8 b) = [b]"
| "field_bytes (Num32 w) = u32_bytes w"
| "field_bytes (Num64 w) = u64_bytes w"
| "field_bytes (Text t) = pad_field 16 t"

fun field_ok :: "field \<Rightarrow> bool" where
  "field_ok (Text t) = text_ok 16 t"
| "field_ok _ = True"

lemma writes_field: "field_ok f \<Longrightarrow> writes (write_field f) [field_bytes f]"
proof (cases f)
  case (Text t)
  assume "field_ok f"
  with Text have "writes (out_string t 16) [pad_field (unat (16 :: u32)) t]"
    by (intro writes_string) (simp_all add: text_ok_def)
  with Text show "writes (write_field f) [field_bytes f]" by simp
qed (simp_all add: writes_numbers)

lemma writes_fields: "list_all field_ok fs \<Longrightarrow> writes (steps (map write_field fs)) (map field_bytes fs)"
proof (induction fs)
  case Nil
  show ?case using writes_Nil by simp
next
  case (Cons f fs)
  then show ?case using writes_Cons [OF writes_field, of f "map write_field fs" "map field_bytes fs"] by simp
qed

lemma takes_field: "field_ok f \<Longrightarrow> takes (read_like f) (field_bytes f) f"
  using takes_then_ret [OF takes_numbers(1), of Num8] takes_then_ret [OF takes_numbers(3), of Num32]
    takes_then_ret [OF takes_numbers(4), of Num64] takes_then_ret [OF takes_text, of _ Text]
  by (cases f) simp_all

lemma takes_fields:
  "list_all field_ok fs \<Longrightarrow>
    takes (collect fs read_like :: ('d session, field list) prog) (concat (map field_bytes fs)) fs"
proof (induction fs)
  case Nil
  show ?case by (simp add: takes_ret)
next
  case (Cons f fs)
  then have "takes (bnd (collect fs read_like) (\<lambda>ys. ret (f # ys)) :: ('d session, field list) prog)
      (concat (map field_bytes fs)) (f # fs)"
    by (intro takes_then_ret) simp
  then show ?case
    unfolding collect.simps list.map concat.simps by (rule takes_bnd [rotated]) (use Cons.prems in \<open>simp add: takes_field\<close>)
qed

text \<open>
  C25: What one side writes into a message the other side reads: fields of numbers and short texts that fit
  into a packet are read back, in their order, from the packet that the calls for writing build, whatever was
  in the packet before, and its type and sub type are the ones it was started with.
\<close>

theorem written_fields_read_back:
  assumes "list_all field_ok fs" "length (concat (map field_bytes fs)) \<le> 8000"
  shows "\<exists>u. steps (start_reply t sub # map write_field fs) s = Inr ((), u) \<and>
    getType (outbuf (cl u)) = t \<and> getSubType (outbuf (cl u)) = sub \<and>
    (\<forall>r. inbuf (cl r) = setOffset 6 (outbuf (cl u)) \<longrightarrow>
      (\<exists>r'. collect fs read_like r = Inr (fs, r') \<and> outbuf (cl r') = outbuf (cl r)))"
proof -
  let ?m = "message_of t sub (map field_bytes fs)"
  have w: "steps (start_reply t sub # map write_field fs) s = Inr ((), set_out ?m s)"
    by (rule reply_run [OF writes_fields [OF assms(1)] assms(2)])
  note b = sample_request_buffer [OF assms(2), of t sub]
  have ty: "getType ?m = t" "getSubType ?m = sub"
    unfolding getType_def getSubType_def b by (simp_all add: block_def c16.dec_enc take_Suc_conv_app_nth)
  have "collect fs read_like r = Inr (fs, skip_in (length (concat (map field_bytes fs))) r)"
    if "inbuf (cl r) = setOffset 6 ?m" for r :: "'b session"
  proof (rule takes_run [OF takes_fields [OF assms(1)]])
    have "wf_packet ?m" by (rule fresh_wf [OF sample_request_layout(1) [OF assms(2)]])
    then show "asks r (concat (map field_bytes fs) @ replicate (8186 - length (concat (map field_bytes fs))) 0)"
      using that b by (simp add: asks_def unread_def setOffset_def wf_packet_def)
    show "replicate (8186 - length (concat (map field_bytes fs))) 0 \<noteq> []" using assms(2) by simp
  qed
  then show ?thesis using w ty by (intro exI [of _ "set_out ?m s"]) auto
qed

theorem written_fields_read_back_witness:
  "\<exists>u. steps (start_reply 1 2 # map write_field [Num32 7, Text ''bob'', Num8 1])
      (sample_session init_packet []) = Inr ((), u) \<and>
    getType (outbuf (cl u)) = 1"
proof -
  have "list_all field_ok [Num32 7, Text ''bob'', Num8 1]" by (simp add: text_ok_def)
  moreover have "length (concat (map field_bytes [Num32 7, Text ''bob'', Num8 1])) \<le> 8000"
    using length_pad_field [of "''bob''" 16] by simp
  ultimately show ?thesis
    using written_fields_read_back [of "[Num32 7, Text ''bob'', Num8 1]" 1 2 "sample_session init_packet []"] by blast
qed

section \<open>The two database libraries\<close>

text \<open>
  C40: The two back ends of the database agree: for a result whose column names are not empty and whose
  values are neither NULL nor empty nor contain a zero byte, a query returns the same number and leaves the
  same rows whether SQLite or MySQL answers it.
\<close>

theorem back_ends_agree:
  assumes "db_type C = DBTYPE_SQLITE" "db_type D \<noteq> DBTYPE_SQLITE"
    and "fst (sqlite3_exec A (c_str q) (eng C)) = map (\<lambda>vs. zip names (map Some vs)) rows"
    and "mysql_store_result B (mysql_real_query B (c_str q) (eng D)) = Some (names, rows)"
    and "mysql_field_count B (mysql_real_query B (c_str q) (eng D)) = length names"
    and "\<forall>n \<in> set names. n \<noteq> [] \<and> CHR 0x00 \<notin> set n"
    and "\<forall>r \<in> set rows. length r = length names \<and> list_all plain_value r"
  shows "\<exists>C' D'. Exec A q C = Inr (int (length rows), C') \<and> Exec B q D = Inr (int (length rows), D') \<and>
    results C' = results D'"
proof -
  have "map DatabaseCallback (map (\<lambda>vs. zip names (map Some vs)) rows) = map (mysql_row names) rows"
    using assms(6,7) backends_agree_row [of _ names] by (auto simp: list_all_iff)
  moreover have "\<not> (\<exists>r \<in> set rows. length r < length names)" using assms(7) by auto
  ultimately show ?thesis
    using assms(1-5)
    by (auto simp: Exec_def ExecSqlite_def ExecMysql_def Let_def case_prod_beta)
qed

theorem back_ends_agree_witness:
  "\<exists>C' D'. Exec sample_api ''q'' (sample_db [[[(''a'', Some [65])]]]) = Inr (1, C') \<and>
    Exec (sample_api\<lparr>mysql_store_result := \<lambda>_. Some ([''a''], [[[65]]]), mysql_field_count := \<lambda>_. 1\<rparr>) ''q''
      (new_Database DBTYPE_MYSQL [] [] [] ''sbol'' 3306 []) = Inr (1, D') \<and>
    results C' = results D'"
proof -
  let ?B = "sample_api\<lparr>mysql_store_result := \<lambda>_. Some ([''a''], [[[65]]]), mysql_field_count := \<lambda>_. 1\<rparr>"
  let ?D = "new_Database DBTYPE_MYSQL [] [] [] ''sbol'' 3306 ([] :: answer list)"
  have "\<exists>C' D'. Exec sample_api ''q'' (sample_db [[[(''a'', Some [65])]]]) = Inr (int (length [[[65 :: byte]]]), C') \<and>
      Exec ?B ''q'' ?D = Inr (int (length [[[65 :: byte]]]), D') \<and> results C' = results D'"
    by (rule back_ends_agree [where names = "[''a'']"])
      (simp_all add: new_Database_def sample_api_def plain_value_def Let_def DBTYPE_SQLITE_def DBTYPE_MYSQL_def)
  then show ?thesis by simp
qed

section \<open>What a handler may change\<close>



end
