(* ===== verification/Account_Properties.thy ===== *)
theory Account_Properties
  imports Login_Properties Startup_Properties
begin

text \<open>
  The passwords of accounts, from the command of the administrator to the login, and a peer that closes
  its connection.
\<close>

section \<open>Passwords\<close>

definition digest :: "'d env \<Rightarrow> cppstring \<Rightarrow> byte list" where
  "digest E p = snd (GetHash E (bytes_of (HASH_SECRET @ ''.'' @ p)) (replicate 32 0))"

lemma password_hash_digest: "sha_ok E \<Longrightarrow> password_hash E p = Inr (hex (digest E p))"
  by (simp add: password_hash_hex digest_def)

lemma on_server_db_Inr:
  "on_server_db m s = Inr (x, t) \<longleftrightarrow>
    (\<exists>D D'. db s = Some D \<and> m D = Inr (x, D') \<and> t = s\<lparr>db := Some D'\<rparr>)"
  by (auto simp: on_server_db_def split: option.splits sum.splits)

lemma stm_Inr: "stm m n s = Inr (x, t) \<longleftrightarrow> (\<exists>y u. m s = Inr (y, u) \<and> n u = Inr (x, t))"
  by (auto simp: stm_run split: sum.splits)

lemma server_bnd_Inr: "bnd m f s = Inr (x, t) \<longleftrightarrow> (\<exists>y u. m s = Inr (y, u) \<and> f y u = Inr (x, t))"
  by (auto simp: bnd_run split: sum.splits)

lemma lift_Inr: "lift r s = Inr (x, t) \<longleftrightarrow> r = Inr x \<and> t = s"
  by (auto simp: lift_def split: sum.splits)

text \<open>
  C36: The password that the administrator sets is the one with which the player logs in: when the command
  returns 0, the database is the one that is left by the statement that stores the hash of the password for
  the user, and closed; and a login asks for an account with this hash exactly if its password has the same
  digest.
\<close>

theorem password_set_is_the_one_asked_for:
  assumes "SetPassword E f d user pw s = Inr (0, t)" "sha_ok E"
  shows "\<exists>D n D1 m D2 h.
    Exec (api E) (''UPDATE account_data SET password = '' @ quoted h @ '' WHERE username = '' @
      quoted (ToNarrow user)) D = Inr (n, D1) \<and>
    Close (api E) D1 = Inr (m, D2) \<and> db t = Some D2 \<and>
    (\<forall>name p. account_sql E name p = login_sql (hex (bytes_of (tolower name))) h \<longleftrightarrow>
      digest E p = digest E (ToNarrow pw))"
proof -
  define h where "h = hex (digest E (ToNarrow pw))"
  have ph: "password_hash E (ToNarrow pw) = Inr h" by (simp add: h_def password_hash_digest assms(2))
  obtain u n v m where u: "server_exec E
      [''UPDATE account_data SET password = '', quoted h, '' WHERE username = '', quoted (ToNarrow user)] u = Inr (n, v)"
    "on_server_db (Close (api E)) v = Inr (m, t)"
    using assms(1) ph
    by (auto simp: SetPassword_def server_bnd_Inr stm_Inr cannot_connect_def raise_def ret_run lift_Inr split: if_splits)
  then obtain D D1 D2 where D: "Exec (api E) (''UPDATE account_data SET password = '' @ quoted h @
      '' WHERE username = '' @ quoted (ToNarrow user)) D = Inr (n, D1)"
    "Close (api E) D1 = Inr (m, D2)" "db t = Some D2"
    by (auto simp: server_exec_def on_server_db_Inr)
  have "account_sql E name p = login_sql (hex (bytes_of (tolower name))) h \<longleftrightarrow> digest E p = digest E (ToNarrow pw)" for name p
  proof -
    have "account_sql E name p = login_sql (hex (bytes_of (tolower name))) (hex (digest E p))"
      by (simp only: account_sql_def digest_def)
    then show ?thesis by (simp add: h_def login_sql_def quoted_def hex_inject)
  qed
  with D show ?thesis by blast
qed

section \<open>A closed connection\<close>

text \<open>
  A peer that closes its side is not noticed: unless the last error code happens to be
  \<open>WSAECONNRESET\<close>, a round in which \<open>recv\<close> reports the end of the stream does the same to the slot as a round
  in which nothing has arrived.
\<close>

lemma closed_connection_looks_idle:
  assumes "\<forall>m. recv_of e k m = Received [] False"
  shows "service_slot E e wr k s = service_slot E (e\<lparr>recv_of := (recv_of e)(k := \<lambda>_. RecvWouldBlock)\<rparr>) wr k s"
proof -
  have idle: "Recv E k (Received [] False) s = Recv E k RecvWouldBlock s" for s :: "'a server"
  proof -
    let ?c = "connections s ! k"
    have same: "s\<lparr>connections := (connections s)[k := store_received [] ?c]\<rparr> = s"
      by (simp add: store_received_def overwrite_def)
    have "ProcessRecv E k 0 s = Inr (False, s)" if "rcvread ?c = 0"
    proof -
      have "note_size 0 ?c = ?c" using that by (cases ?c) (simp add: note_size_def)
      moreover have "\<not> frame_complete ?c"
        using that unat_ucast_u32 [of "packetsize ?c"] by (auto simp: frame_complete_def word_le_nat_alt)
      ultimately show ?thesis by (simp add: ProcessRecv_def Let_def)
    qed
    then show ?thesis by (simp add: Recv_def same Let_def)
  qed
  then have "recv_part E k (recv_of e k) = recv_part E k (\<lambda>_. RecvWouldBlock)"
    using assms by (simp add: recv_part_def)
  then show ?thesis by (simp add: service_slot_def heartbeat_part_def)
qed

section \<open>Examples\<close>

text \<open>With the default configuration and a complete database a command finds the server ready.\<close>

lemma default_ready:
  assumes "given f DEFAULT_JSON_CONFIG" "sqlite3_open (api E) ''sbol.db'' d = (0, d')"
    and "complete_schema (api E) d'"
  shows "\<exists>s D. not_ready E f d (new_Server svc) = Inr (False, s) \<and> db s = Some D \<and> db_type D = DBTYPE_SQLITE"
proof -
  let ?s = "configured_server svc d"
  let ?D = "new_Database DBTYPE_SQLITE [] [] [] ''sbol.db'' 3306 d"
  have s: "databasetype ?s = DBTYPE_SQLITE" "db ?s = Some ?D" "db_type ?D = DBTYPE_SQLITE"
    by (simp_all add: configured_server_def new_Server_def new_Database_def)
  have "sqlite3_open (api E) (db_name ?D) (eng ?D) = (0, d')" using assms(2) by (simp add: new_Database_def)
  from checkDB_complete [OF s this assms(3)] obtain D' where
    "checkDB (api E) ?s = Inr (0, ?s\<lparr>db := Some D'\<rparr>)" "db_type D' = DBTYPE_SQLITE"
    by (auto simp: new_Database_def)
  then show ?thesis
    using VerifyConfig_default [OF assms(1), of d svc] by (auto simp: not_ready_def prog_simps)
qed

abbreviation "steady \<equiv> steady_env some_rows"

lemma steady_api:
  "sqlite3_open (api steady) n d = (0, d)" "sqlite3_exec (api steady) q d = (some_rows, [], d)"
  "sqlite3_close (api steady) d = (0, d)"
  by (simp_all add: steady_env_def)

lemma steady_calls:
  assumes "db_type D = DBTYPE_SQLITE"
  shows "Open (api steady) D = Inr (0, D)"
    and "\<exists>D'. Exec (api steady) q D = Inr (1, D') \<and> db_type D' = DBTYPE_SQLITE \<and> length (results D') = 1"
    and "Close (api steady) D = Inr (0, D)"
  using assms
  by (simp_all add: Open_def OpenSqlite_def Exec_def ExecSqlite_def Close_def CloseSqlite_def steady_api)

theorem password_set_is_the_one_asked_for_witness:
  "\<exists>t h. SetPassword steady default_file () (ToWide ''bob'') (ToWide ''secret'') (new_Server False) = Inr (0, t) \<and>
     account_sql steady ''bob'' ''secret'' = login_sql (hex (bytes_of (tolower ''bob''))) h"
proof -
  obtain s D where s: "not_ready steady default_file () (new_Server False) = Inr (False, s)"
    "db s = Some D" "db_type D = DBTYPE_SQLITE"
    using default_ready [OF given_default steady_api(1) steady_complete] by blast
  have sha: "sha_ok steady" by (simp add: sha_ok_def steady_env_def)
  obtain h where h: "password_hash steady (ToNarrow (ToWide ''secret'')) = Inr h"
    using password_hash_digest [OF sha] by blast
  obtain D1 where D1: "Exec (api steady) (sql [''SELECT username FROM account_data WHERE username = '',
      quoted (ToNarrow (ToWide ''bob''))]) D = Inr (1, D1)" "db_type D1 = DBTYPE_SQLITE" "length (results D1) = 1"
    using steady_calls(2) [OF s(3)] by blast
  obtain D2 where D2: "Exec (api steady) (sql [''UPDATE account_data SET password = '', quoted h,
      '' WHERE username = '', quoted (ToNarrow (ToWide ''bob''))]) D1 = Inr (1, D2)" "db_type D2 = DBTYPE_SQLITE"
    using steady_calls(2) [OF D1(2)] by blast
  have "\<exists>t. SetPassword steady default_file () (ToWide ''bob'') (ToWide ''secret'') (new_Server False) = Inr (0, t)"
    unfolding SetPassword_def server_exec_def server_rows_def
    by (simp add: bnd_run s(1,2) on_server_db_def steady_calls(1) [OF s(3)] DB_OK_def stm_run D1(1,3) h lift_run
        gets_run ret_run D2(1) steady_calls(3) [OF D2(2)] del: concat.simps)
  then obtain t where t: "SetPassword steady default_file () (ToWide ''bob'') (ToWide ''secret'') (new_Server False) = Inr (0, t)" ..
  from password_set_is_the_one_asked_for [OF t sha] t show ?thesis by (auto simp: ToNarrow_ToWide)
qed

lemma closed_connection_looks_idle_example:
  "\<exists>e. (\<forall>m. recv_of e 0 m = Received [] False) \<and>
    service_slot sample_env e (\<lambda>_. False) 0 (sample_server (sample_slot True) []) =
    service_slot sample_env (e\<lparr>recv_of := (recv_of e)(0 := \<lambda>_. RecvWouldBlock)\<rparr>) (\<lambda>_. False) 0
      (sample_server (sample_slot True) [])"
proof -
  let ?e = "\<lparr>accept_ready = False, pending = [], writable = \<lambda>_. False, send_of = \<lambda>_ _. SendWouldBlock,
    recv_of = \<lambda>_ _. Received [] False, time_test = \<lambda>_. 0, time_set = \<lambda>_. 0, tick = \<lambda>_. 0\<rparr>"
  have closed: "\<forall>m. recv_of ?e 0 m = Received [] False" by simp
  show ?thesis by (rule exI [of _ ?e], rule conjI, rule closed, rule closed_connection_looks_idle [OF closed])
qed

end
