(* ===== verification/Query_Answers.thy ===== *)
theory Query_Answers
  imports Login_Properties Team_Properties
begin

text \<open>
  Handlers that ask the database and write a reply: a calculus for both at once. What the database
  answers is a list of queries with the columns they find; a part of a handler \<open>serves\<close> such a list
  when it asks these queries, in this order and no others, and appends given fields to the reply.
\<close>

section \<open>What the database answers\<close>

text \<open>
  The columns that are known of a row, and of the rows of a result; a row may have others.
\<close>

type_synonym columns = "(cppstring \<times> cppstring) list"

definition has_columns :: "row \<Rightarrow> columns \<Rightarrow> bool" where
  "has_columns r kvs \<longleftrightarrow> list_all (\<lambda>(c, v). map_of r c = Some v) kvs"

definition rows_show :: "row list \<Rightarrow> columns list \<Rightarrow> bool" where
  "rows_show rs t \<longleftrightarrow> list_all2 has_columns rs t"

text \<open>A query and the rows it finds, a query for a blob, a statement whose result is not looked at.\<close>

datatype ask = Finds cppstring "columns list" | Fetches cppstring db_blob | Does cppstring

fun answers :: "'d env \<Rightarrow> 'd database \<Rightarrow> ask list \<Rightarrow> 'd database option" where
  "answers E D [] = Some D"
| "answers E D (Finds q t # as) =
     (case Exec (api E) q D of
        Inl e \<Rightarrow> None
      | Inr (n, D1) \<Rightarrow> if n = int (length t) \<and> rows_show (results D1) t then answers E D1 as else None)"
| "answers E D (Fetches q b # as) =
     (case GetBlob (api E) q 0 D of
        Inl e \<Rightarrow> None
      | Inr (b', D1) \<Rightarrow> if b' = b then answers E D1 as else None)"
| "answers E D (Does q # as) =
     (case Exec (api E) q D of Inl e \<Rightarrow> None | Inr (n, D1) \<Rightarrow> answers E D1 as)"

lemma answers_append:
  "answers E D (as @ bs) = Some D2 \<longleftrightarrow> (\<exists>D1. answers E D as = Some D1 \<and> answers E D1 bs = Some D2)"
  by (induction E D as rule: answers.induct) (auto split: sum.splits if_splits)

lemma rows_show_length: "rows_show rs t \<Longrightarrow> length rs = length t"
  by (auto simp: rows_show_def dest: list_all2_lengthD)

lemma rows_show_value:
  assumes "rows_show rs t" "i < length t" "map_of (t ! i) c = Some v"
  shows "GetValue_name rs i c = Inr v"
proof -
  have "has_columns (rs ! i) (t ! i)" using assms(1,2) by (simp add: rows_show_def list_all2_conv_all_nth)
  moreover have "(c, v) \<in> set (t ! i)" using assms(3) by (rule map_of_SomeD)
  ultimately have "map_of (rs ! i) c = Some v" by (auto simp: has_columns_def list_all_iff)
  then show ?thesis using assms(2) rows_show_length [OF assms(1)] by (simp add: GetValue_name_def)
qed

section \<open>Parts of handlers\<close>

definition known :: "columns list option \<Rightarrow> 'd database \<Rightarrow> bool" where
  "known K D \<longleftrightarrow> (case K of None \<Rightarrow> True | Some t \<Rightarrow> rows_show (results D) t)"

lemma known_simps [simp]: "known None D" "known (Some t) D \<longleftrightarrow> rows_show (results D) t"
  by (simp_all add: known_def)

text \<open>
  \<open>K\<close> and \<open>K'\<close> are what is known of the rows of the last result before and after the part. A part that
  \<open>asks_only\<close> leaves the reply alone.
\<close>

definition asks_only ::
  "'d env \<Rightarrow> columns list option \<Rightarrow> ('d session, 'a) prog \<Rightarrow> ask list \<Rightarrow> 'a \<Rightarrow> columns list option \<Rightarrow> bool" where
  "asks_only E K m as x K' \<longleftrightarrow>
     (\<forall>s D. known K (sdb s) \<longrightarrow> answers E (sdb s) as = Some D \<longrightarrow>
       m s = Inr (x, s\<lparr>sdb := D\<rparr>) \<and> known K' D)"

definition serves ::
  "'d env \<Rightarrow> columns list option \<Rightarrow> ('d session, 'a) prog \<Rightarrow> ask list \<Rightarrow> byte list list \<Rightarrow> 'a
    \<Rightarrow> columns list option \<Rightarrow> bool" where
  "serves E K m as fs x K' \<longleftrightarrow>
     (\<forall>s D t sub gs. known K (sdb s) \<longrightarrow> answers E (sdb s) as = Some D \<longrightarrow>
       outbuf (cl s) = message_of t sub gs \<longrightarrow> length (concat gs) + length (concat fs) \<le> 8000 \<longrightarrow>
       m s = Inr (x, set_out (message_of t sub (gs @ fs)) (s\<lparr>sdb := D\<rparr>)) \<and> known K' D)"


lemma asks_onlyI:
  "(\<And>s D. known K (sdb s) \<Longrightarrow> answers E (sdb s) as = Some D \<Longrightarrow> m s = Inr (x, s\<lparr>sdb := D\<rparr>) \<and> known K' D) \<Longrightarrow>
    asks_only E K m as x K'"
  by (simp add: asks_only_def)

lemma asks_onlyD:
  assumes "asks_only E K m as x K'" "known K (sdb s)" "answers E (sdb s) as = Some D"
  shows "m s = Inr (x, s\<lparr>sdb := D\<rparr>)" "known K' D"
  using assms unfolding asks_only_def by blast+

lemma servesD:
  assumes "serves E K m as fs x K'" "known K (sdb s)" "answers E (sdb s) as = Some D"
    and "outbuf (cl s) = message_of t sub gs" "length (concat gs) + length (concat fs) \<le> 8000"
  shows "m s = Inr (x, set_out (message_of t sub (gs @ fs)) (s\<lparr>sdb := D\<rparr>))" "known K' D"
  using assms unfolding serves_def by blast+

lemma serves_asks:
  assumes "asks_only E K m as x K'"
  shows "serves E K m as [] x K'"
  unfolding serves_def
proof (intro allI impI)
  fix s :: "'a session" and D t sub gs
  assume a: "known K (sdb s)" "answers E (sdb s) as = Some D" "outbuf (cl s) = message_of t sub gs"
  have "set_out (message_of t sub (gs @ [])) (s\<lparr>sdb := D\<rparr>) = s\<lparr>sdb := D\<rparr>"
    using a(3) by (cases s) (simp add: set_out_def)
  then show "m s = Inr (x, set_out (message_of t sub (gs @ [])) (s\<lparr>sdb := D\<rparr>)) \<and> known K' D"
    using asks_onlyD [OF assms a(1,2)] by simp
qed

lemma asks_ret: "asks_only E K (ret x) [] x K"
  by (simp add: asks_only_def ret_run)

lemma asks_bnd:
  assumes "asks_only E K m as x K1" "asks_only E K1 (f x) bs y K2"
  shows "asks_only E K (bnd m f) (as @ bs) y K2"
proof (rule asks_onlyI)
  fix s :: "'a session" and D assume a: "known K (sdb s)" "answers E (sdb s) (as @ bs) = Some D"
  then obtain D1 where D1: "answers E (sdb s) as = Some D1" "answers E D1 bs = Some D" by (auto simp: answers_append)
  note 1 = asks_onlyD [OF assms(1) a(1) D1(1)]
  show "bnd m f s = Inr (y, s\<lparr>sdb := D\<rparr>) \<and> known K2 D"
    using asks_onlyD [OF assms(2), of "s\<lparr>sdb := D1\<rparr>" D] 1 D1(2) by (simp add: bnd_run)
qed

lemma asks_eq: "asks_only E K m as x K' \<Longrightarrow> as = as' \<Longrightarrow> x = x' \<Longrightarrow> asks_only E K m as' x' K'"
  by simp

lemma serves_writes: "writes m fs \<Longrightarrow> serves E K m [] fs () K"
  unfolding serves_def writes_def by simp

lemma serves_weaken: "serves E None m as fs x K' \<Longrightarrow> serves E K m as fs x K'"
  by (simp add: serves_def)

lemma serves_forget: "serves E K m as fs x K' \<Longrightarrow> serves E K m as fs x None"
  by (simp add: serves_def)

lemma serves_eq:
  "serves E K m as fs x K' \<Longrightarrow> as = as' \<Longrightarrow> fs = fs' \<Longrightarrow> serves E K m as' fs' x K'"
  by simp

lemma serves_bnd:
  assumes "serves E K m as fs x K1" "serves E K1 (f x) bs gs y K2"
  shows "serves E K (bnd m f) (as @ bs) (fs @ gs) y K2"
  unfolding serves_def
proof (intro allI impI)
  fix s :: "'a session" and D t sub hs
  assume a: "known K (sdb s)" "answers E (sdb s) (as @ bs) = Some D" "outbuf (cl s) = message_of t sub hs"
    "length (concat hs) + length (concat (fs @ gs)) \<le> 8000"
  obtain D1 where D1: "answers E (sdb s) as = Some D1" "answers E D1 bs = Some D"
    using a(2) by (auto simp: answers_append)
  let ?u = "set_out (message_of t sub (hs @ fs)) (s\<lparr>sdb := D1\<rparr>)"
  have r1: "m s = Inr (x, ?u)" "known K1 (sdb ?u)" using servesD [OF assms(1) a(1) D1(1) a(3)] a(4) by simp_all
  have "f x ?u = Inr (y, set_out (message_of t sub ((hs @ fs) @ gs)) (?u\<lparr>sdb := D\<rparr>))" "known K2 D"
    using servesD [OF assms(2) r1(2), of D t sub "hs @ fs"] D1(2) a(4) by simp_all
  moreover have "set_out p (?u\<lparr>sdb := D\<rparr>) = set_out p (s\<lparr>sdb := D\<rparr>)" for p by (simp add: set_out_def)
  ultimately show "bnd m f s = Inr (y, set_out (message_of t sub (hs @ fs @ gs)) (s\<lparr>sdb := D\<rparr>)) \<and> known K2 D"
    using r1(1) by (simp add: bnd_run)
qed

lemma serves_stm: "serves E K m as fs x K1 \<Longrightarrow> serves E K1 n bs gs y K2 \<Longrightarrow> serves E K (stm m n) (as @ bs) (fs @ gs) y K2"
  unfolding stm_def by (rule serves_bnd)

lemma serves_ret: "serves E K (ret x) [] [] x K"
  by (rule serves_asks) (rule asks_ret)

lemma serves_steps:
  "serves E K (steps []) [] [] () K"
  "serves E K m as fs () K1 \<Longrightarrow> serves E K1 (steps ms) bs gs () K2 \<Longrightarrow>
    serves E K (steps (m # ms)) (as @ bs) (fs @ gs) () K2"
  unfolding steps.simps by (rule serves_ret, rule serves_stm)

lemma serves_both:
  "serves E K m as fs True K1 \<Longrightarrow> serves E K1 n bs gs y K2 \<Longrightarrow> serves E K (both m n) (as @ bs) (fs @ gs) y K2"
  unfolding both_def by (rule serves_bnd [where x = True]) simp_all

text \<open>Loops over the rows, or over the numbers up to a count.\<close>

lemma serves_for_each:
  assumes "list_all2 (\<lambda>i x. serves E K (body i) (as x) (fs x) () K) is xs"
  shows "serves E K (for_each is body) (concat (map as xs)) (concat (map fs xs)) () K"
  using assms by (induction rule: list_all2_induct) (simp_all add: serves_ret serves_stm)

lemma serves_all_of:
  assumes "list_all2 (\<lambda>i x. serves E K (body i) (as x) (fs x) True K) is xs"
  shows "serves E K (all_of is body) (concat (map as xs)) (concat (map fs xs)) True K"
  using assms by (induction rule: list_all2_induct) (simp_all add: serves_ret serves_both)

lemma list_all2_indices:
  assumes "unat n = length xs" "\<And>i. i < length xs \<Longrightarrow> P i (xs ! i)"
  shows "list_all2 P (indices n) xs"
  using assms by (simp add: list_all2_conv_all_nth indices_def)

text \<open>The primitives.\<close>

lemma asks_exec: "asks_only E K (db_exec E q) [Finds q t] (int (length t)) (Some t)"
  by (rule asks_onlyI) (auto simp: db_exec_def on_db_def split: sum.splits if_splits)

lemma asks_blob: "asks_only E K (db_blob_of E q) [Fetches q b] b None"
  by (rule asks_onlyI) (auto simp: db_blob_of_def on_db_def split: sum.splits if_splits)

lemma asks_run_sql: "asks_only E K (run_sql E q) [Does (sql q)] () None"
  by (rule asks_onlyI) (auto simp: run_sql_def stm_run ret_run db_exec_def on_db_def split: sum.splits if_splits)

lemma asks_value:
  assumes "i < length t" "map_of (t ! i) c = Some v"
  shows "asks_only E (Some t) (db_value i c) [] v (Some t)"
  by (rule asks_onlyI) (simp add: db_value_def bnd_run gets_run lift_run rows_show_value [OF _ assms])

lemma asks_lift: "asks_only E K (lift (Inr x)) [] x K"
  by (rule asks_onlyI) (simp add: lift_run)

lemma asks_stoul: "asks_only E K (stoulP (dec_word w)) [] w K"
  by (rule asks_onlyI) (simp add: stoulP_def stoul_dec lift_run)

lemma asks_rows: "asks_only E (Some t) (gets (\<lambda>s. length (results (sdb s)))) [] (length t) (Some t)"
  by (rule asks_onlyI) (simp add: gets_run rows_show_length)

lemmas serves_db = asks_exec [THEN serves_asks] asks_blob [THEN serves_asks] asks_run_sql [THEN serves_asks]
  asks_value [THEN serves_asks] asks_lift [THEN serves_asks] asks_stoul [THEN serves_asks] asks_rows [THEN serves_asks]

lemmas serves_out = writes_numbers [THEN serves_writes] writes_string [THEN serves_writes]
  writes_stoul [THEN serves_writes] writes_stoul8 [THEN serves_writes] writes_stoull [THEN serves_writes]
  writes_skip [THEN serves_writes] writes_array [THEN serves_writes]

section \<open>Whole replies\<close>

text \<open>A part that starts a reply, whatever the reply was before.\<close>

definition replies ::
  "'d env \<Rightarrow> columns list option \<Rightarrow> ('d session, 'a) prog \<Rightarrow> ask list \<Rightarrow> u16 \<Rightarrow> u16 \<Rightarrow> byte list list \<Rightarrow> 'a
    \<Rightarrow> columns list option \<Rightarrow> bool" where
  "replies E K m as t sub fs x K' \<longleftrightarrow>
     (\<forall>s D. known K (sdb s) \<longrightarrow> answers E (sdb s) as = Some D \<longrightarrow> length (concat fs) \<le> 8000 \<longrightarrow>
       m s = Inr (x, set_out (message_of t sub fs) (s\<lparr>sdb := D\<rparr>)) \<and> known K' D)"

lemma repliesD:
  assumes "replies E K m as t sub fs x K'" "known K (sdb s)" "answers E (sdb s) as = Some D"
    and "length (concat fs) \<le> 8000"
  shows "m s = Inr (x, set_out (message_of t sub fs) (s\<lparr>sdb := D\<rparr>))" "known K' D"
  using assms unfolding replies_def by blast+

lemma replies_eq:
  "replies E K m as t sub fs x K' \<Longrightarrow> as = as' \<Longrightarrow> fs = fs' \<Longrightarrow> replies E K m as' t sub fs' x K'"
  by simp

lemma replies_weaken: "replies E None m as t sub fs x K' \<Longrightarrow> replies E K m as t sub fs x K'"
  by (simp add: replies_def)

lemma replies_asks:
  assumes "asks_only E K m as x K1" "replies E K1 (f x) bs t sub fs y K2"
  shows "replies E K (bnd m f) (as @ bs) t sub fs y K2"
  unfolding replies_def
proof (intro allI impI)
  fix s :: "'a session" and D
  assume a: "known K (sdb s)" "answers E (sdb s) (as @ bs) = Some D" "length (concat fs) \<le> 8000"
  then obtain D1 where D1: "answers E (sdb s) as = Some D1" "answers E D1 bs = Some D" by (auto simp: answers_append)
  note 1 = asks_onlyD [OF assms(1) a(1) D1(1)]
  show "bnd m f s = Inr (y, set_out (message_of t sub fs) (s\<lparr>sdb := D\<rparr>)) \<and> known K2 D"
    using repliesD [OF assms(2), of "s\<lparr>sdb := D1\<rparr>" D] 1 D1(2) a(3) by (simp add: bnd_run)
qed

lemma replies_start:
  assumes "serves E K (steps ms) as fs () K'"
  shows "replies E K (steps (start_reply t sub # ms)) as t sub fs () K'"
  unfolding replies_def
proof (intro allI impI)
  fix s :: "'a session" and D
  assume a: "known K (sdb s)" "answers E (sdb s) as = Some D" "length (concat fs) \<le> 8000"
  let ?u = "set_out (message_of t sub []) s"
  have u: "set_out p (?u\<lparr>sdb := D\<rparr>) = set_out p (s\<lparr>sdb := D\<rparr>)" for p by (simp add: set_out_def)
  have "steps ms ?u = Inr ((), set_out (message_of t sub ([] @ fs)) (?u\<lparr>sdb := D\<rparr>))" "known K' D"
    using servesD [OF assms, of ?u D t sub "[]"] a by simp_all
  then show "steps (start_reply t sub # ms) s = Inr ((), set_out (message_of t sub fs) (s\<lparr>sdb := D\<rparr>)) \<and> known K' D"
    by (simp add: u stm_run start_reply_run)
qed

lemma replies_bnd:
  assumes "replies E K m as t sub fs x K1" "serves E K1 (f x) bs gs y K2"
  shows "replies E K (bnd m f) (as @ bs) t sub (fs @ gs) y K2"
  unfolding replies_def
proof (intro allI impI)
  fix s :: "'a session" and D
  assume a: "known K (sdb s)" "answers E (sdb s) (as @ bs) = Some D" "length (concat (fs @ gs)) \<le> 8000"
  then obtain D1 where D1: "answers E (sdb s) as = Some D1" "answers E D1 bs = Some D" by (auto simp: answers_append)
  let ?u = "set_out (message_of t sub fs) (s\<lparr>sdb := D1\<rparr>)"
  have u: "set_out p (?u\<lparr>sdb := D\<rparr>) = set_out p (s\<lparr>sdb := D\<rparr>)" for p by (simp add: set_out_def)
  have 1: "m s = Inr (x, ?u)" "known K1 D1" using repliesD [OF assms(1) a(1) D1(1)] a(3) by simp_all
  show "bnd m f s = Inr (y, set_out (message_of t sub (fs @ gs)) (s\<lparr>sdb := D\<rparr>)) \<and> known K2 D"
    using servesD [OF assms(2), of ?u D t sub fs] 1 D1(2) a(3) by (simp add: bnd_run u)
qed

lemma replies_stm:
  "replies E K m as t sub fs x K1 \<Longrightarrow> serves E K1 n bs gs y K2 \<Longrightarrow> replies E K (stm m n) (as @ bs) t sub (fs @ gs) y K2"
  unfolding stm_def by (rule replies_bnd)

end
