(* ===== verification/Told_Database.thy ===== *)
theory Told_Database
  imports Query_Answers
begin

text \<open>
  An engine that is told what to answer: its state is the list of the results that are still to come,
  rows for queries and bytes for blobs. Every list of queries and results can be told, so the hypotheses
  on the answers of a database can be met.
\<close>

datatype tell = Rows "(cppstring \<times> byte list option) list list" | Bytes "byte list"

definition told_bytes :: "tell list \<Rightarrow> byte list" where
  "told_bytes d = (case d of Bytes bs # d' \<Rightarrow> bs | _ \<Rightarrow> [])"

definition told_api :: "tell list dbapi" where
  "told_api =
     \<lparr>sqlite3_open = (\<lambda>_ d. (0, d)),
      sqlite3_close = (\<lambda>d. (0, d)),
      sqlite3_exec = (\<lambda>_ d. case d of Rows rs # d' \<Rightarrow> (rs, [], d') | _ \<Rightarrow> ([], [], d)),
      sqlite3_prepare_v2 = (\<lambda>_ d. (0, 0, d)),
      sqlite3_step = (\<lambda>_ d. (100, d)),
      sqlite3_column_blob = (\<lambda>_ _ d. told_bytes d),
      sqlite3_column_bytes = (\<lambda>_ _ d. word_of_nat (length (told_bytes d))),
      sqlite3_finalize = (\<lambda>_ d. tl d),
      mysql_init = (\<lambda>d. (True, d)),
      mysql_real_connect = (\<lambda>_ _ _ _ _ d. (True, d)),
      mysql_real_query = (\<lambda>_ d. d),
      mysql_store_result = (\<lambda>_. None),
      mysql_field_count = (\<lambda>_. 0),
      mysql_error = (\<lambda>_. []),
      mysql_close = (\<lambda>d. d)\<rparr>"

definition told_env :: "tell list env" where
  "told_env =
     \<lparr>api = told_api, AuthDataDecrypt = (\<lambda>_ s. Some s),
      SHA256 = (\<lambda>_. Some (replicate 32 7)), rand_value = 40, timeGetTime = 1000,
      stof_bits = (\<lambda>_. Some 0), float_text = (\<lambda>_. ''0''),
      stack_rival = replicate 1200 0, stack_sign = replicate 54 0\<rparr>"

definition told_db :: "tell list \<Rightarrow> tell list database" where
  "told_db d = new_Database DBTYPE_SQLITE [] [] [] ''sbol.db'' 3306 d"

definition told_server :: "client \<Rightarrow> tell list \<Rightarrow> tell list server" where
  "told_server c d = (new_Server False)
     \<lparr>connections := [c], serverConnections := [0], serverNumConnections := 1,
      db := Some (told_db d), running := True\<rparr>"

lemma told_db_fields [simp]: "db_type (told_db d) = DBTYPE_SQLITE" "eng (told_db d) = d"
  by (simp_all add: told_db_def new_Database_def)

lemma told_env_fields [simp]:
  "api told_env = told_api" "AuthDataDecrypt told_env k t = Some t" "stof_bits told_env t = Some 0"
  by (simp_all add: told_env_def)

lemma told_sha: "sha_ok told_env"
  by (simp add: sha_ok_def told_env_def)

lemma told_Open: "db_type D = DBTYPE_SQLITE \<Longrightarrow> Open told_api D = Inr (DB_OK, D)"
  by (simp add: Open_def OpenSqlite_def told_api_def DB_OK_def)

lemma told_server_fields [simp]:
  "connections (told_server c d) = [c]" "db (told_server c d) = Some (told_db d)"
  by (simp_all add: told_server_def)

lemma told_server_ok:
  assumes "slot_ok c" "same_peer (sample_slot auth) c"
  shows "server_ok (told_server c d)"
  using sample_server_slot_ok [OF assms, of "[]"]
  by (simp add: server_ok_def told_server_def sample_server_def table_ok_def listed_def slots_in_use_def
      keys_distinct_def new_Server_def)

section \<open>Telling the answers to a list of queries\<close>

fun tell_of :: "ask \<Rightarrow> tell" where
  "tell_of (Finds q t) = Rows (map (map (\<lambda>(c, v). (c, Some (bytes_of v)))) t)"
| "tell_of (Fetches q b) = Bytes (blob_data b)"
| "tell_of (Does q) = Rows []"

fun ask_ok :: "ask \<Rightarrow> bool" where
  "ask_ok (Finds q t) \<longleftrightarrow> list_all (\<lambda>kvs. distinct (map fst kvs) \<and> list_all (\<lambda>(c, v). CHR 0x00 \<notin> set v) kvs) t"
| "ask_ok (Fetches q b) \<longleftrightarrow> blob_ok b"
| "ask_ok (Does q) \<longleftrightarrow> True"

lemma told_row:
  assumes "distinct (map fst kvs)" "list_all (\<lambda>(c, v). CHR 0x00 \<notin> set v) kvs"
  shows "has_columns (DatabaseCallback (map (\<lambda>(c, v). (c, Some (bytes_of v))) kvs)) kvs"
proof -
  have "map (\<lambda>(col, v). (col, case v of None \<Rightarrow> null_text | Some b \<Rightarrow> string_of (cstr b)))
      (map (\<lambda>(c, v). (c, Some (bytes_of v))) kvs) = kvs"
    using assms(2) by (induction kvs) (auto simp: cstr_id bytes_of_no_nul)
  then have "map_of (DatabaseCallback (map (\<lambda>(c, v). (c, Some (bytes_of v))) kvs)) = map_of kvs"
    by (simp add: DatabaseCallback_def map_of_row_of del: map_map)
  then show ?thesis using assms(1) by (auto simp: has_columns_def list_all_iff)
qed

lemma told_answers:
  assumes "list_all ask_ok as" "db_type D = DBTYPE_SQLITE" "eng D = map tell_of as"
  shows "\<exists>D'. answers told_env D as = Some D' \<and> db_type D' = DBTYPE_SQLITE"
  using assms
proof (induction "as" arbitrary: D)
  case (Cons a "as")
  show ?case
  proof (cases a)
    case (Finds q t)
    let ?rows = "map (map (\<lambda>(c, v). (c, Some (bytes_of v)))) t"
    let ?D = "D\<lparr>results := map DatabaseCallback ?rows, dbErr := [], eng := map tell_of as\<rparr>"
    have "rows_show (map DatabaseCallback ?rows) t"
      using Cons.prems(1) told_row by (auto simp: rows_show_def Finds list_all2_conv_all_nth list_all_length)
    moreover have "Exec told_api q D = Inr (int (length t), ?D)"
      using Cons.prems(2,3) by (simp add: Exec_def ExecSqlite_def told_api_def Finds)
    moreover have "\<exists>D'. answers told_env ?D as = Some D' \<and> db_type D' = DBTYPE_SQLITE"
      using Cons.prems by (intro Cons.IH) simp_all
    ultimately show ?thesis by (simp add: Finds)
  next
    case (Fetches q b)
    let ?D = "D\<lparr>eng := map tell_of as\<rparr>"
    have b: "length (blob_data b) = unat (blob_size b)" using Cons.prems(1) by (simp add: Fetches blob_ok_def)
    have "GetBlob told_api q 0 D = Inr (b, ?D)"
      using Cons.prems(2,3) b
      by (simp add: GetBlob_def GetBlobSqlite_def told_api_def Fetches told_bytes_def SQLITE_OK_def SQLITE_ROW_def)
    moreover have "\<exists>D'. answers told_env ?D as = Some D' \<and> db_type D' = DBTYPE_SQLITE"
      using Cons.prems by (intro Cons.IH) simp_all
    ultimately show ?thesis by (simp add: Fetches)
  next
    case (Does q)
    let ?D = "D\<lparr>results := [], dbErr := [], eng := map tell_of as\<rparr>"
    have "Exec told_api q D = Inr (0, ?D)"
      using Cons.prems(2,3) by (simp add: Exec_def ExecSqlite_def told_api_def Does)
    moreover have "\<exists>D'. answers told_env ?D as = Some D' \<and> db_type D' = DBTYPE_SQLITE"
      using Cons.prems by (intro Cons.IH) simp_all
    ultimately show ?thesis by (simp add: Does)
  qed
qed simp

end
