(* ===== verification/Delivery.thy ===== *)
theory Delivery
  imports Chat_Properties
begin

text \<open>
  From what a handler has done to the state of the whole server: a reply goes to the queue of the
  connection that asked, a broadcast to the queues of all.
\<close>

text \<open>The handler of a request, by its type, and the requests that reach it.\<close>

definition handler_of :: "'d env \<Rightarrow> nat \<Rightarrow> ('d session, after) prog" where
  "handler_of E t = (if t = 1 then ClientAuth E else if t = 2 then ClientRequests E else ClientOperations)"

definition heard :: "client \<Rightarrow> bool" where
  "heard c \<longleftrightarrow> isAuth c \<and> \<not> todc c \<and> slot_used c \<and> 16 \<le> unat (pSize (inbuf c)) \<and>
     unat (getType (inbuf c)) \<in> {1, 2, 4}"

lemma heard_runs:
  assumes "server_ok s" "k < length (connections s)" "heard (connections s ! k)" "db s = Some D"
    and "handler_of E (unat (getType (inbuf (connections s ! k)))) \<lparr>cl = connections s ! k, sdb = D\<rparr> = Inr (a, t)"
  shows "ProcessPacket E k s = finish k (Inr (a, s\<lparr>connections := (connections s)[k := cl t], db := Some (sdb t)\<rparr>))"
proof -
  have "slot_ok (connections s ! k)" using assms(1,2) by (rule server_ok_slot)
  then show ?thesis
    using assms(3-5)
    by (auto simp: ProcessPacket_run Let_def heard_def handler_of_def refused_def packet_function_count_def
        MainPacketFunctions_def run_handler_def)
qed

text \<open>A message of at most 8000 bytes of fields can be sent.\<close>

lemma reply_is_queued:
  assumes "server_ok s" "k < length (connections s)" "heard (connections s ! k)" "db s = Some D"
    and "handler_of E (unat (getType (inbuf (connections s ! k)))) \<lparr>cl = connections s ! k, sdb = D\<rparr> =
      Inr (FallOut, \<lparr>cl = (connections s ! k)\<lparr>inbuf := p, outbuf := msg\<rparr>, sdb = D'\<rparr>)"
    and "message_ok msg"
  shows "\<exists>q. ProcessPacket E k s = Inr (s\<lparr>connections := (connections s)
    [k := (enqueue (padded_entry (message_frame msg)) (connections s ! k))\<lparr>inbuf := p, outbuf := q\<rparr>], db := Some D'\<rparr>)"
proof -
  let ?c = "(connections s ! k)\<lparr>inbuf := p, outbuf := msg\<rparr>"
  have "0 \<le> ClientSocket ?c" using assms(3) by (simp add: heard_def slot_used_def)
  then obtain q where "Send_packet msg ?c = Inr (q, enqueue (padded_entry (message_frame msg)) ?c)"
    using Send_message [OF assms(6)] by blast
  then have "Send_out ?c = Inr ((enqueue (padded_entry (message_frame msg)) (connections s ! k))\<lparr>inbuf := p, outbuf := q\<rparr>)"
    by (simp add: Send_out_def enqueue_packets)
  then show ?thesis
    unfolding heard_runs [OF assms(1-5)] using assms(2) by (intro exI [of _ q]) (simp add: finish_def Send_slot_def)
qed

lemma broadcast_is_queued:
  assumes "server_ok s" "k < length (connections s)" "heard (connections s ! k)" "db s = Some D"
    and "handler_of E (unat (getType (inbuf (connections s ! k)))) \<lparr>cl = connections s ! k, sdb = D\<rparr> =
      Inr (BroadcastReturn, \<lparr>cl = (connections s ! k)\<lparr>inbuf := p, outbuf := msg\<rparr>, sdb = D'\<rparr>)"
    and "message_ok msg" "broadcast_fits msg (connections s)"
  shows "\<exists>q. ProcessPacket E k s = Inr (s\<lparr>connections := (to_used (message_frame msg) (connections s))
    [k := (to_used (message_frame msg) (connections s) ! k)\<lparr>inbuf := p, outbuf := q\<rparr>], db := Some D'\<rparr>)"
proof -
  let ?c = "connections s ! k" and ?cs = "to_used (message_frame msg) (connections s)"
  define u where "u = s\<lparr>connections := (connections s)[k := ?c\<lparr>inbuf := p, outbuf := msg\<rparr>], db := Some D'\<rparr>"
  have pp: "ProcessPacket E k s = SendToAll k u"
    unfolding heard_runs [OF assms(1-5)] by (simp add: finish_def u_def)
  have out: "outbuf (connections u ! k) = msg" "k < length (connections u)" using assms(2) by (simp_all add: u_def)
  have "slot_used (?c\<lparr>inbuf := p, outbuf := msg\<rparr>) = slot_used ?c" by (simp add: slot_used_def)
  then have "map slot_used (connections u) = map slot_used (connections s)"
    using assms(2) by (simp add: u_def map_update list_update_same_conv)
  moreover have "used_count cs = length (filter (\<lambda>b. b) (map slot_used cs))" for cs
    by (simp add: used_count_def filter_map comp_def)
  ultimately have "used_count (connections u) = used_count (connections s)" by (simp only:)
  then have "broadcast_fits msg (connections u)" using assms(7) by (simp add: broadcast_fits_def)
  then obtain q where q: "SendToAll k u = Inr (u\<lparr>connections := (to_used (message_frame msg) (connections u))
      [k := (to_used (message_frame msg) (connections u) ! k)\<lparr>outbuf := q\<rparr>]\<rparr>)"
    using send_each_message(1) [OF assms(6), of "connections u"] out by (auto simp: SendToAll_def)
  have "to_used (message_frame msg) (connections u) = ?cs[k := (?cs ! k)\<lparr>inbuf := p, outbuf := msg\<rparr>]"
    using assms(2) enqueue_packets by (simp add: u_def to_used_def map_update slot_used_def)
  then have "SendToAll k u = Inr (s\<lparr>connections := ?cs[k := (?cs ! k)\<lparr>inbuf := p, outbuf := q\<rparr>], db := Some D'\<rparr>)"
    unfolding q using assms(2) by (simp add: to_used_def) (simp add: u_def)
  then show ?thesis unfolding pp by blast
qed

end
