(* ===== verification/Team_Reply.thy ===== *)
theory Team_Reply
  imports Told_Database Delivery
begin

text \<open>
  The data of a team: what the game server is sent when it asks for it, and the same part of the reply
  to a login.
\<close>

section \<open>Teams\<close>

record member =
  mb_license :: u32
  mb_name :: cppstring
  mb_rank :: u32
  mb_area :: u32

record team =
  tm_leader :: u32
  tm_leader_name :: "cppstring option"
  tm_name :: cppstring
  tm_comment :: cppstring
  tm_win :: u32
  tm_lose :: u32
  tm_flags :: u32
  tm_members :: "member list"

text \<open>The columns that are read, and the texts and numbers of members that fit into a reply.\<close>

definition member_columns :: "member \<Rightarrow> columns" where
  "member_columns m =
     [(''license'', dec_word (mb_license m)), (''handle'', mb_name m), (''rank'', dec_word (mb_rank m)),
      (''teamarea'', dec_word (mb_area m))]"

definition team_columns :: "team \<Rightarrow> columns" where
  "team_columns T =
     [(''leader'', dec_word (tm_leader T)), (''teamname'', tm_name T), (''teamcomment'', tm_comment T),
      (''survivalwin'', dec_word (tm_win T)), (''survivallose'', dec_word (tm_lose T)),
      (''flags'', dec_word (tm_flags T))]"

definition team_ok :: "team \<Rightarrow> bool" where
  "team_ok T \<longleftrightarrow> length (tm_name T) \<le> 16 \<and> length (tm_comment T) \<le> 40 \<and> length (tm_members T) \<le> 8000 \<and>
     (case tm_leader_name T of None \<Rightarrow> True | Some h \<Rightarrow> length h \<le> 16) \<and>
     list_all (\<lambda>m. length (mb_name m) \<le> 16) (tm_members T)"

text \<open>The queries after the one that has found the team, and the fields.\<close>

definition leader_name :: "team \<Rightarrow> cppstring" where
  "leader_name T = (case tm_leader_name T of None \<Rightarrow> ''UNKNOWN'' | Some h \<Rightarrow> h)"

definition team_asks :: "cppstring \<Rightarrow> team \<Rightarrow> ask list" where
  "team_asks teamid T =
     [Finds (''SELECT handle FROM account_data WHERE license = '' @ dec_word (tm_leader T))
        (case tm_leader_name T of None \<Rightarrow> [] | Some h \<Rightarrow> [[(''handle'', h)]]),
      Finds (''SELECT * FROM account_data WHERE teamid = '' @ teamid) (map member_columns (tm_members T))]"

definition member_fields :: "u32 \<Rightarrow> member \<Rightarrow> byte list list" where
  "member_fields leader m =
     [u32_bytes (mb_license m), pad_field 16 (mb_name m), u32_bytes (mb_rank m),
      [if leader = mb_license m then 1 else 0], [ucast (mb_area m)]]"

definition team_fields :: "u32 \<Rightarrow> team \<Rightarrow> byte list list" where
  "team_fields teamid T =
     [u32_bytes teamid, u32_bytes (tm_leader T), pad_field 16 (leader_name T), pad_field 16 (tm_name T),
      pad_field 40 (tm_comment T), u32_bytes (tm_win T), u32_bytes (tm_lose T),
      u32_bytes (word_of_nat (length (tm_members T))), u32_bytes (tm_flags T)] @
     concat (map (member_fields (tm_leader T)) (tm_members T))"

section \<open>Serving them\<close>

lemma or_zero_dec: "or_zero (dec n) = dec n"
  using dec_not_null by (simp add: or_zero_def)

lemma asks_column:
  assumes "i < length xs" "map_of (cols (xs ! i)) c = Some v"
  shows "serves E (Some (map cols xs)) (db_value i c) [] [] v (Some (map cols xs))"
  using assms by (intro serves_asks asks_value) simp_all

lemma dec_word_eq: "dec_word v = dec_word w \<longleftrightarrow> v = w"
  using digits_val_dec by (metis word_unat_eq_iff)

lemma serves_member:
  assumes "i < length ms" "length (mb_name (ms ! i)) \<le> 16"
  shows "serves E (Some (map member_columns ms)) (member_entry (dec_word leader) i) []
    (member_fields leader (ms ! i)) () (Some (map member_columns ms))"
proof -
  let ?K = "Some (map member_columns ms)" and ?m = "ms ! i"
  have v: "serves E ?K (db_value i c) [] [] w ?K" if "map_of (member_columns ?m) c = Some w" for c w
    using assms(1) that by (rule asks_column)
  have name: "serves E ?K (out_string (mb_name ?m) 0x10) [] [pad_field 16 (mb_name ?m)] () ?K"
    using serves_out(4) [of "mb_name ?m" "0x10"] assms(2) by simp
  have area: "serves E ?K (bnd (stoulP (dec_word (mb_area ?m))) (\<lambda>a. out_u8 (ucast a))) [] [[ucast (mb_area ?m)]] () ?K"
    using serves_out(6) [of E ?K "mb_area ?m"] by (simp add: out_stoul8_def)
  show ?thesis
    unfolding member_entry_def
    apply (rule serves_eq)
      apply (rule serves_bnd, rule v, simp add: member_columns_def)+
      apply (simp only: or_zero_dec dec_word_eq)
      apply (rule serves_steps name area serves_out)+
    by (simp_all add: member_fields_def)
qed

text \<open>What both replies do before they write: they look up the leader's name and the members.\<close>

definition team_lookup ::
  "'d env \<Rightarrow> cppstring \<Rightarrow> ('d session, cppstring \<times> cppstring \<times> cppstring \<times> cppstring \<times> cppstring \<times> cppstring \<times> cppstring \<times> int) prog" where
  "team_lookup E teamid =
     bnd (db_value 0 ''leader'') (\<lambda>leader.
     bnd (db_value 0 ''teamname'') (\<lambda>teamname.
     bnd (db_value 0 ''teamcomment'') (\<lambda>comment.
     bnd (db_value 0 ''survivalwin'') (\<lambda>survivalwin.
     bnd (db_value 0 ''survivallose'') (\<lambda>survivallose.
     bnd (db_value 0 ''flags'') (\<lambda>flags.
     bnd (db_exec E (sql [''SELECT handle FROM account_data WHERE license = '', leader])) (\<lambda>res.
     bnd (if res \<noteq> 0 then db_value 0 ''handle'' else ret ''UNKNOWN'') (\<lambda>leaderName.
     bnd (db_exec E (sql [''SELECT * FROM account_data WHERE teamid = '', teamid])) (\<lambda>res.
     ret (leader, teamname, comment, survivalwin, survivallose, flags, leaderName, res))))))))))"

lemma asks_team_lookup:
  "asks_only E (Some [team_columns T]) (team_lookup E teamid) (team_asks teamid T)
    (dec_word (tm_leader T), tm_name T, tm_comment T, dec_word (tm_win T), dec_word (tm_lose T),
     dec_word (tm_flags T), leader_name T, int (length (tm_members T)))
    (Some (map member_columns (tm_members T)))"
proof -
  let ?K = "Some [team_columns T]"
  let ?h = "case tm_leader_name T of None \<Rightarrow> [] | Some h \<Rightarrow> [[(''handle'', h)]]"
  have v: "asks_only E ?K (db_value 0 c) [] w ?K" if "map_of (team_columns T) c = Some w" for c w
    using that by (intro asks_value) simp_all
  have h: "asks_only E (Some ?h) (if int (length ?h) \<noteq> 0 then db_value 0 ''handle'' else ret ''UNKNOWN'') [] (leader_name T) (Some ?h)"
  proof (cases "tm_leader_name T")
    case None
    then show ?thesis using asks_ret [of E "Some []" "''UNKNOWN''"] by (simp add: leader_name_def)
  next
    case (Some n)
    then show ?thesis using asks_value [of 0 "[[(''handle'', n)]]" "''handle''" n E] by (simp add: leader_name_def)
  qed
  have found: "asks_only E K (db_exec E q) [Finds q (map member_columns (tm_members T))] (int (length (tm_members T)))
      (Some (map member_columns (tm_members T)))" for K q
    using asks_exec [of E K q "map member_columns (tm_members T)"] by simp
  show ?thesis
    unfolding team_lookup_def
    apply (rule asks_eq)
      apply (rule asks_bnd, rule v, simp add: team_columns_def)+
      apply (rule asks_bnd, rule asks_exec, rule asks_bnd, rule h, rule asks_bnd, rule found, rule asks_ret)
    by (simp_all add: team_asks_def)
qed

text \<open>What both replies write.\<close>

lemma serves_members:
  assumes "team_ok T"
  shows "serves E (Some (map member_columns (tm_members T)))
    (for_each (indices (word_of_int (int (length (tm_members T))))) (member_entry (dec_word (tm_leader T)))) []
    (concat (map (member_fields (tm_leader T)) (tm_members T))) () (Some (map member_columns (tm_members T)))"
proof -
  let ?n = "word_of_int (int (length (tm_members T))) :: u32"
  have n: "unat ?n = length (tm_members T)" using assms by (simp add: team_ok_def unat_of_nat)
  have m: "length (mb_name (tm_members T ! i)) \<le> 16" if "i < length (tm_members T)" for i
    using assms that by (simp add: team_ok_def list_all_length)
  have "serves E (Some (map member_columns (tm_members T))) (for_each (indices ?n) (member_entry (dec_word (tm_leader T))))
    (concat (map (\<lambda>_. []) (tm_members T))) (concat (map (member_fields (tm_leader T)) (tm_members T))) ()
    (Some (map member_columns (tm_members T)))"
    by (intro serves_for_each list_all2_indices n serves_member m)
  moreover have "concat (map (\<lambda>_. []) xs) = ([] :: ask list)" for xs :: "member list" by (induction xs) simp_all
  ultimately show ?thesis by simp
qed

lemma serves_team_texts:
  assumes "team_ok T"
  shows "serves E K (out_string (leader_name T) 0x10) [] [pad_field 16 (leader_name T)] () K"
    and "serves E K (out_string (tm_name T) 0x10) [] [pad_field 16 (tm_name T)] () K"
    and "serves E K (out_string (tm_comment T) 0x28) [] [pad_field 40 (tm_comment T)] () K"
  using assms serves_out(4) [of "leader_name T" "0x10"] serves_out(4) [of "tm_name T" "0x10"]
    serves_out(4) [of "tm_comment T" "0x28"]
  by (auto simp: team_ok_def leader_name_def split: option.splits)

lemma bnd_if: "bnd (if c then m else n) f = (if c then bnd m f else bnd n f)"
  by simp

lemma serves_team_found:
  assumes "team_ok T"
  shows "serves E (Some [team_columns T]) (team_found E teamid) (team_asks (dec_word teamid) T)
    ([1] # team_fields teamid T) () (Some (map member_columns (tm_members T)))"
proof -
  have "team_found E teamid = bnd (team_lookup E (dec_word teamid))
      (\<lambda>(leader, teamname, comment, survivalwin, survivallose, flags, leaderName, res).
       let teamCount = word_of_int res :: u32 in
       steps
         [out_u8 1, out_u32 teamid, out_stoul leader, out_string leaderName 0x10,
          out_string teamname 0x10, out_string comment 0x28, out_stoul survivalwin,
          out_stoul survivallose, out_u32 teamCount, out_stoul flags,
          for_each (indices teamCount) (member_entry leader)])"
    by (simp only: team_found_def team_lookup_def bnd_assoc bnd_ret prod.case)
  then show ?thesis
    apply (simp only:)
    apply (rule serves_eq)
      apply (rule serves_bnd, rule serves_asks, rule asks_team_lookup)
      apply (simp only: prod.case Let_def)
      apply (rule serves_steps serves_team_texts [OF assms] serves_members [OF assms] serves_out)+
    by (simp_all add: team_fields_def)
qed

section \<open>The request for the data of a team\<close>

text \<open>The whole reply to it: the license of the account, the team and the account's area.\<close>

definition team_data_fields :: "u32 \<Rightarrow> u32 \<Rightarrow> u32 \<Rightarrow> team \<Rightarrow> byte list list" where
  "team_data_fields license teamid area T = u32_bytes license # team_fields teamid T @ [[ucast area]]"

lemma replies_team_reply:
  assumes "team_ok T"
  shows "replies E (Some [team_columns T]) (team_reply E license (dec_word teamid) (dec_word area))
    (team_asks (dec_word teamid) T) 2 4 (team_data_fields license teamid area T) () (Some (map member_columns (tm_members T)))"
proof -
  let ?K = "Some (map member_columns (tm_members T))"
  have "team_reply E license (dec_word teamid) (dec_word area) = bnd (team_lookup E (dec_word teamid))
      (\<lambda>(leader, teamname, comment, survivalwin, survivallose, flags, leaderName, res).
       let teamCount = word_of_int res :: u32 in
       steps
         [start_reply 2 4, out_u32 license, out_stoul (dec_word teamid), out_stoul leader,
          out_string leaderName 0x10, out_string teamname 0x10, out_string comment 0x28,
          out_stoul survivalwin, out_stoul survivallose, out_u32 teamCount, out_stoul flags,
          for_each (indices teamCount) (member_entry leader),
          bnd (stoulP (dec_word area)) (\<lambda>a. out_u8 (ucast a))])"
    by (simp only: team_reply_def team_lookup_def bnd_assoc bnd_ret prod.case)
  moreover have area: "serves E ?K (bnd (stoulP (dec_word area)) (\<lambda>a. out_u8 (ucast a))) [] [[ucast area]] () ?K"
    using serves_out(6) [of E ?K area] by (simp add: out_stoul8_def)
  ultimately show ?thesis
    apply (simp only:)
    apply (rule replies_eq)
      apply (rule replies_asks, rule asks_team_lookup)
      apply (simp only: prod.case Let_def)
      apply (rule replies_start)
      apply (rule serves_steps area serves_team_texts [OF assms] serves_members [OF assms] serves_out)+
    by (simp_all add: team_fields_def team_data_fields_def)
qed

text \<open>
  The data of an account, which may be in a team: what the database is asked, and the reply. Without a
  team the reply has the largest number for the team, and empty fields.
\<close>

definition membership_asks :: "u32 \<Rightarrow> u32 \<Rightarrow> (u32 \<times> team) option \<Rightarrow> ask list" where
  "membership_asks license area M =
     Finds (''SELECT * FROM account_data WHERE license = '' @ dec_word license)
       [[(''teamid'', case M of None \<Rightarrow> ''NULL'' | Some (teamid, T) \<Rightarrow> dec_word teamid), (''teamarea'', dec_word area)]] #
     (case M of None \<Rightarrow> [] | Some (teamid, T) \<Rightarrow>
        Finds (''SELECT * FROM team_data WHERE teamid = '' @ dec_word teamid) [team_columns T] #
        team_asks (dec_word teamid) T)"

definition membership_fields :: "u32 \<Rightarrow> u32 \<Rightarrow> (u32 \<times> team) option \<Rightarrow> byte list list" where
  "membership_fields license area M =
     (case M of
        None \<Rightarrow> [u32_bytes license, u32_bytes 0xFFFFFFFF, u32_bytes 0, replicate 16 0, replicate 16 0, replicate 40 0,
          u32_bytes 0, u32_bytes 0, u32_bytes 0, u32_bytes 0, [0]]
      | Some (teamid, T) \<Rightarrow> team_data_fields license teamid area T)"

definition membership_ok :: "(u32 \<times> team) option \<Rightarrow> bool" where
  "membership_ok M \<longleftrightarrow> (case M of None \<Rightarrow> True | Some (teamid, T) \<Rightarrow> team_ok T)"

lemma replies_no_team:
  "replies E K (no_team_reply license) [] 2 4 (membership_fields license area None) () K"
proof -
  have empty: "serves E K (out_string [] 0x10) [] [replicate 16 0] () K" "serves E K (out_string [] 0x28) [] [replicate 40 0] () K"
    using serves_out(4) [of "[]" "0x10"] serves_out(4) [of "[]" "0x28"]
    by (simp_all add: pad_field_def bytes_of_def cstr_def)
  show ?thesis
    unfolding no_team_reply_def
    apply (rule replies_eq)
      apply (rule replies_start)
      apply (rule serves_steps empty serves_out)+
    by (simp_all add: membership_fields_def)
qed

text \<open>What the handler does once it has the license and an open database.\<close>

definition membership_reply :: "'d env \<Rightarrow> u32 \<Rightarrow> ('d session, after) prog" where
  "membership_reply E license =
     bnd (db_exec E (sql [''SELECT * FROM account_data WHERE license = '', dec_word license])) (\<lambda>res.
          if res \<noteq> 0
          then bnd (db_value 0 ''teamid'') (\<lambda>teamid.
               bnd (db_value 0 ''teamarea'') (\<lambda>teamarea.
               if teamid = ''NULL'' \<or> teamid = []
               then stm (no_team_reply license) (ret BroadcastReturn)
               else bnd (db_exec E (sql [''SELECT * FROM team_data WHERE teamid = '', teamid])) (\<lambda>res.
                    if res \<noteq> 0
                    then stm (team_reply E license teamid (or_zero teamarea)) (ret BroadcastReturn)
                    else stm (db_close_only E) (ret Return))))
          else stm (db_close_only E) (ret Return))"

lemma get_team_data_membership:
  "get_team_data E = bnd in_u32 (\<lambda>license. bnd (db_open E) (\<lambda>res.
     if res = DB_OK then membership_reply E license else ret FallOut))"
  unfolding get_team_data_def membership_reply_def ..

lemma replies_membership:
  assumes "membership_ok M"
  shows "\<exists>K. replies E None (membership_reply E license) (membership_asks license area M) 2 4
    (membership_fields license area M) BroadcastReturn K"
proof -
  let ?team = "case M of None \<Rightarrow> ''NULL'' | Some (teamid, T) \<Rightarrow> dec_word teamid"
  let ?row = "[(''teamid'', ?team), (''teamarea'', dec_word area)]"
  let ?q = "sql [''SELECT * FROM account_data WHERE license = '', dec_word license]"
  have one: "asks_only E None (db_exec E ?q) [Finds ?q [?row]] 1 (Some [?row])"
    using asks_exec [of E None ?q "[?row]"] by simp
  have v: "asks_only E (Some [?row]) (db_value 0 ''teamid'') [] ?team (Some [?row])"
    "asks_only E (Some [?row]) (db_value 0 ''teamarea'') [] (dec_word area) (Some [?row])"
    by (intro asks_value; simp)+
  note parts = replies_asks [OF one] replies_asks [OF v(1)] replies_asks [OF v(2)]
  show ?thesis
  proof (cases M)
    case None
    have "replies E (Some [?row]) (stm (no_team_reply license) (ret BroadcastReturn)) ([] @ []) 2 4
        (membership_fields license area None @ []) BroadcastReturn (Some [?row])"
      by (rule replies_stm [OF replies_no_team serves_ret])
    then have "replies E (Some [?row]) (stm (no_team_reply license) (ret BroadcastReturn)) [] 2 4
        (membership_fields license area M) BroadcastReturn (Some [?row])" by (simp add: None)
    note end_of_it = this
    show ?thesis
      unfolding membership_reply_def
      apply (rule exI, rule replies_eq)
        apply (rule parts(1))
        apply (simp only: one_neq_zero if_True simp_thms)
        apply (rule parts(2), rule parts(3))
        apply (simp add: None)
        apply (rule end_of_it [unfolded None, simplified])
      by (simp_all add: membership_asks_def None)
  next
    case (Some x)
    obtain teamid T where x: "x = (teamid, T)" by (cases x)
    have T: "team_ok T" using assms by (simp add: membership_ok_def Some x)
    let ?r = "sql [''SELECT * FROM team_data WHERE teamid = '', dec_word teamid]"
    have found: "asks_only E (Some [?row]) (db_exec E ?r) [Finds ?r [team_columns T]] 1 (Some [team_columns T])"
      using asks_exec [of E "Some [?row]" ?r "[team_columns T]"] by simp
    have "replies E (Some [team_columns T]) (stm (team_reply E license (dec_word teamid) (dec_word area)) (ret BroadcastReturn))
        (team_asks (dec_word teamid) T @ []) 2 4 (team_data_fields license teamid area T @ []) BroadcastReturn
        (Some (map member_columns (tm_members T)))"
      by (rule replies_stm [OF replies_team_reply [OF T] serves_ret])
    note end_of_it = this [simplified]
    show ?thesis
      unfolding membership_reply_def
      apply (rule exI, rule replies_eq)
        apply (rule parts(1))
        apply (simp only: one_neq_zero if_True simp_thms)
        apply (rule parts(2), rule parts(3))
        apply (simp only: Some x option.case prod.case dec_not_null if_False simp_thms)
        apply (rule replies_asks, rule found [unfolded Some x option.case prod.case])
        apply (simp only: one_neq_zero if_True simp_thms or_zero_dec)
        apply (rule end_of_it)
      by (simp_all add: membership_asks_def membership_fields_def Some x)
  qed
qed

section \<open>Through the server\<close>

definition team_data_request :: "client \<Rightarrow> u32 \<Rightarrow> bool" where
  "team_data_request c license \<longleftrightarrow>
     unat (getType (inbuf c)) = 2 \<and> getSubType (inbuf c) = 7 \<and> block 6 4 (buffer (inbuf c)) = u32_bytes license"

lemma get_team_data_reads:
  assumes "team_data_request (cl s) license"
  shows "\<exists>p. ClientRequests E s = bnd (db_open E)
    (\<lambda>res. if res = DB_OK then membership_reply E license else ret FallOut) (s\<lparr>cl := (cl s)\<lparr>inbuf := p\<rparr>\<rparr>)"
proof -
  let ?s = "s\<lparr>cl := (cl s)\<lparr>inbuf := setOffset 6 (inbuf (cl s))\<rparr>\<rparr>"
  have "in_u32 ?s = Inr (license, s\<lparr>cl := (cl s)\<lparr>inbuf := setOffset 10 (inbuf (cl s))\<rparr>\<rparr>)"
    using assms by (simp add: in_u32_def on_in_def get_u32_def get_bytes_def setOffset_def team_data_request_def c32.dec_enc)
  moreover have "ClientRequests E s = get_team_data E ?s"
    using assms
    by (simp add: ClientRequests_def stm_run in_offset_def on_in_def bnd_run gets_run getSubType_def
        team_data_request_def setOffset_def)
  ultimately have "ClientRequests E s = bnd (db_open E)
    (\<lambda>res. if res = DB_OK then membership_reply E license else ret FallOut)
    (s\<lparr>cl := (cl s)\<lparr>inbuf := setOffset 10 (inbuf (cl s))\<rparr>\<rparr>)"
    unfolding get_team_data_membership by (simp add: bnd_run [of in_u32])
  then show ?thesis by blast
qed

text \<open>
  C14: The data of a team is broadcast: the request of an authenticated game server for an account's team
  puts one more frame into the queue of every connection, its own included. The frame carries the license,
  the team's number, leader, name, comment and results, every member with license, name, rank, whether it
  leads and its area, and the area of the account, as the rows of the database have them; without a team,
  the largest number and empty fields. The database is only asked for the rows of the account, the team, its
  leader and its members, in this order, and is left open.
\<close>

theorem team_data_is_broadcast:
  assumes "server_ok s" "k < length (connections s)" "heard (connections s ! k)"
    and "team_data_request (connections s ! k) license"
    and "db s = Some DB" "Open (api E) DB = Inr (DB_OK, D)"
    and "answers E D (membership_asks license area M) = Some D'" "membership_ok M"
    and "length (concat (membership_fields license area M)) \<le> 8000"
    and "broadcast_fits (message_of 2 4 (membership_fields license area M)) (connections s)"
  shows "\<exists>p q. ProcessPacket E k s = Inr (s\<lparr>connections :=
      (to_used (message_frame (message_of 2 4 (membership_fields license area M))) (connections s))
        [k := (to_used (message_frame (message_of 2 4 (membership_fields license area M))) (connections s) ! k)
          \<lparr>inbuf := p, outbuf := q\<rparr>], db := Some D'\<rparr>)"
proof -
  let ?c = "connections s ! k" and ?msg = "message_of 2 4 (membership_fields license area M)"
  let ?s = "\<lparr>cl = ?c, sdb = DB\<rparr>"
  obtain p where p: "ClientRequests E ?s = bnd (db_open E)
      (\<lambda>res. if res = DB_OK then membership_reply E license else ret FallOut) (?s\<lparr>cl := (cl ?s)\<lparr>inbuf := p\<rparr>\<rparr>)"
    using get_team_data_reads [of ?s license] assms(4) by auto
  let ?u = "?s\<lparr>cl := (cl ?s)\<lparr>inbuf := p\<rparr>\<rparr>"
  have o: "db_open E ?u = Inr (DB_OK, ?u\<lparr>sdb := D\<rparr>)" using assms(6) by (simp add: db_open_def on_db_def)
  obtain K where K: "replies E None (membership_reply E license) (membership_asks license area M) 2 4
      (membership_fields license area M) BroadcastReturn K"
    using replies_membership [OF assms(8)] by blast
  have "ClientRequests E ?s = Inr (BroadcastReturn, set_out ?msg (?u\<lparr>sdb := D, sdb := D'\<rparr>))"
    unfolding p bnd_run [of "db_open E"] o sum.case prod.case if_P [OF refl]
    using repliesD(1) [OF K, of "?u\<lparr>sdb := D\<rparr>" D'] assms(7,9) by simp
  then have "handler_of E (unat (getType (inbuf ?c))) ?s = Inr (BroadcastReturn, \<lparr>cl = ?c\<lparr>inbuf := p, outbuf := ?msg\<rparr>, sdb = D'\<rparr>)"
    using assms(4) by (simp add: handler_of_def team_data_request_def set_out_def)
  from broadcast_is_queued [OF assms(1-3,5) this message_ok_request [OF assms(9)] assms(10)] show ?thesis by blast
qed

section \<open>Examples\<close>

definition crew :: team where
  "crew = \<lparr>tm_leader = 7, tm_leader_name = Some ''bob'', tm_name = ''crew'', tm_comment = ''hi'', tm_win = 3,
     tm_lose = 1, tm_flags = 0,
     tm_members = [\<lparr>mb_license = 7, mb_name = ''bob'', mb_rank = 1, mb_area = 0\<rparr>,
       \<lparr>mb_license = 8, mb_name = ''joe'', mb_rank = 2, mb_area = 4\<rparr>]\<rparr>"

lemma no_nul_dec: "CHR 0x00 \<notin> set (dec n)"
proof
  assume "CHR 0x00 \<in> set (dec n)"
  then have "is_digit (CHR 0x00)" using dec_digits [of n] by (auto simp: list_all_iff)
  then show False using is_digit_not by blast
qed

lemma crew_facts:
  "team_ok crew" "list_all ask_ok (membership_asks 7 0 (Some (1, crew)))"
  "length (concat (membership_fields 7 0 (Some (1, crew)))) \<le> 8000"
proof -
  show "team_ok crew" by (simp add: team_ok_def crew_def)
  show "list_all ask_ok (membership_asks 7 0 (Some (1, crew)))"
    using no_nul_dec
    by (simp add: membership_asks_def team_asks_def crew_def team_columns_def member_columns_def)
  have "length (pad_field 16 t) = 16" if "length t \<le> 16" for t using that by (rule length_pad_field)
  moreover have "length (pad_field 40 t) = 40" if "length t \<le> 40" for t using that by (rule length_pad_field)
  ultimately show "length (concat (membership_fields 7 0 (Some (1, crew)))) \<le> 8000"
    by (simp add: membership_fields_def team_data_fields_def team_fields_def member_fields_def crew_def leader_name_def)
qed

text \<open>A slot with a request of type \<open>t\<close> is heard when it has at least ten bytes of fields.\<close>

lemma heard_request:
  fixes t sub :: u16 and fs :: "byte list list"
  assumes "length (concat fs) \<le> 8000" "10 \<le> length (concat fs)" "unat t \<in> {1, 2, 4}"
  defines "c \<equiv> (sample_slot True)\<lparr>inbuf := message_of t sub fs\<rparr>"
  shows "heard c" "server_ok (told_server c d)" "getType (inbuf c) = t" "getSubType (inbuf c) = sub"
    and "drop 6 (buffer (inbuf c)) = concat fs @ replicate (8186 - length (concat fs)) 0"
    and "unat (pSize (inbuf c)) = 6 + length (concat fs)" "wf_packet (inbuf c)"
proof -
  note b = sample_request_buffer [OF assms(1), of t sub] and l = sample_request_layout [OF assms(1), of t sub]
  show ty: "getType (inbuf c) = t" "getSubType (inbuf c) = sub"
    by (simp_all add: c_def getType_def getSubType_def b block_def c16.dec_enc)
  show "drop 6 (buffer (inbuf c)) = concat fs @ replicate (8186 - length (concat fs)) 0" by (simp add: c_def b)
  show sz: "unat (pSize (inbuf c)) = 6 + length (concat fs)" using l(3,4) by (simp add: c_def)
  show "wf_packet (inbuf c)" unfolding c_def by (simp add: fresh_wf [OF l(1)])
  show "heard c"
    using ty(1) sz assms(2,3)
    by (simp add: heard_def c_def slot_used_def sample_slot_def new_CLIENT_def Initialize_def ClearSendQueue_def)
  show "server_ok (told_server c d)"
    unfolding c_def by (rule told_server_ok [OF slot_ok_request [OF assms(1)]]) (simp add: same_peer_def)
qed

theorem team_data_is_broadcast_witness:
  "\<exists>d t. ProcessPacket told_env 0 (told_server ((sample_slot True)
      \<lparr>inbuf := message_of 2 7 [u32_bytes 7, replicate 6 0]\<rparr>) d) = Inr t \<and>
    sendQueue (connections t ! 0) =
      [padded_entry (message_frame (message_of 2 4 (membership_fields 7 0 (Some (1, crew)))))]"
proof -
  let ?c = "(sample_slot True)\<lparr>inbuf := message_of 2 7 [u32_bytes 7, replicate 6 0]\<rparr>"
  let ?d = "map tell_of (membership_asks 7 0 (Some (1, crew)))"
  have l: "length (concat [u32_bytes 7, replicate 6 0]) \<le> 8000" "10 \<le> length (concat [u32_bytes 7, replicate 6 0])"
    by simp_all
  have "unat (2 :: u16) \<in> {1, 2, 4}" by simp
  note h = heard_request [OF l this, of 7]
  have req: "team_data_request ?c 7" using h(3,4,5) by (simp add: team_data_request_def block_def)
  obtain D' where D': "answers told_env (told_db ?d) (membership_asks 7 0 (Some (1, crew))) = Some D'"
    using told_answers [OF crew_facts(2), of "told_db ?d"] by auto
  have "broadcast_fits p [?c]" for p by (simp add: broadcast_fits_def)
  moreover have "sendQueue ?c = []" "slot_used ?c"
    by (simp_all add: sample_slot_def new_CLIENT_def Initialize_def ClearSendQueue_def slot_used_def)
  ultimately show ?thesis
    using team_data_is_broadcast [OF h(2), of 0 ?d 7 "told_db ?d" told_env "told_db ?d" 0 "Some (1, crew)" D']
      h(1) req D' crew_facts told_Open [of "told_db ?d"]
    by (auto simp: membership_ok_def to_used_def enqueue_def intro!: exI [of _ ?d])
qed

end
