(* ===== verification/Login_Reply.thy ===== *)
theory Login_Reply
  imports Team_Reply
begin

text \<open>
  The whole reply to a login: the account, its rank, its garages, cars, items, sign and team, from the
  rows that the database holds to the frame in the queue of the game server that asked.
\<close>

section \<open>What is stored of a player\<close>

text \<open>
  A car with the text of its mileage, the items with their count, the sign. The ranking is the list of
  licenses ordered by score.
\<close>

record profile =
  pf_account :: account
  pf_rivals :: db_blob
  pf_ranking :: "u32 list"
  pf_garages :: db_blob
  pf_cars :: "(CAR \<times> cppstring) list"
  pf_items :: "(u32 \<times> db_blob) option"
  pf_sign :: "db_blob option"
  pf_team :: "team option"

definition blob_of :: "byte list \<Rightarrow> db_blob" where
  "blob_of bs = \<lparr>blob_size = word_of_nat (length bs), blob_data = bs\<rparr>"

lemma blob_of_data [simp]: "blob_data (blob_of bs) = bs"
  by (simp add: blob_of_def)

text \<open>The position in the ranking, counted from 1; an account that is not in it has rank 1.\<close>

definition rank_in :: "u32 \<Rightarrow> u32 list \<Rightarrow> nat" where
  "rank_in l ls = (if l \<in> set ls then Suc (length (takeWhile (\<lambda>x. x \<noteq> l) ls)) else 1)"

subsection \<open>The queries\<close>

definition rank_asks :: "u32 \<Rightarrow> u32 list \<Rightarrow> ask list" where
  "rank_asks l ls =
     Finds ''SELECT license, playerwin - playerlose AS Score FROM account_data ORDER BY Score DESC''
       (map (\<lambda>x. [(''license'', dec_word x)]) ls) #
     (if ls = [] then []
      else [Does (''UPDATE account_data SET rank = '' @ dec (rank_in l ls) @ '' WHERE license = '' @ dec_word l)])"

definition garage_asks :: "account \<Rightarrow> db_blob \<Rightarrow> ask list" where
  "garage_asks a b =
     (if a_garagecount a = 0 then []
      else [Fetches (''SELECT garagedata FROM account_data WHERE license = '' @ dec_word (a_license a)) b])"

definition car_columns :: "CAR \<times> cppstring \<Rightarrow> columns" where
  "car_columns = (\<lambda>(c, km). [(''bay'', dec_word (bay c)), (''carID'', dec_word (carID c)), (''KMs'', km),
     (''condition'', dec_word (engineCondition c))])"

definition car_asks :: "u32 \<Rightarrow> (CAR \<times> cppstring) list \<Rightarrow> CAR \<times> cppstring \<Rightarrow> ask list" where
  "car_asks l cars x =
     [Finds (garage_sql (dec_word l)) (map car_columns cars),
      Fetches (''SELECT carData FROM garage_data WHERE license = '' @ dec_word l @ '' AND bay = '' @
        dec_word (bay (fst x)) @ '' AND impounded = 0'') (blob_of (cardata (fst x)))]"

definition cars_asks :: "u32 \<Rightarrow> (CAR \<times> cppstring) list \<Rightarrow> ask list" where
  "cars_asks l cars = Finds (garage_sql (dec_word l)) (map car_columns cars) # concat (map (car_asks l cars) cars)"

definition items_asks :: "u32 \<Rightarrow> (u32 \<times> db_blob) option \<Rightarrow> ask list" where
  "items_asks l x =
     (let q = ''SELECT itemcount FROM item_data WHERE license = '' @ dec_word l @ '' AND blocked = 0'' in
      case x of None \<Rightarrow> [Finds q []]
      | Some (n, b) \<Rightarrow>
          [Finds q [[(''itemcount'', dec_word n)]],
           Fetches (''SELECT itemData FROM item_data WHERE license = '' @ dec_word l @ '' AND blocked = 0'') b])"

definition sign_asks :: "u32 \<Rightarrow> db_blob option \<Rightarrow> ask list" where
  "sign_asks l x =
     (let q = ''SELECT * FROM sign_data WHERE license = '' @ dec_word l in
      case x of None \<Rightarrow> [Finds q []]
      | Some b \<Rightarrow> [Finds q [[]], Fetches (''SELECT signData FROM sign_data WHERE license = '' @ dec_word l) b])"

definition own_team_asks :: "account \<Rightarrow> team option \<Rightarrow> ask list" where
  "own_team_asks a x =
     (case x of None \<Rightarrow> []
      | Some T \<Rightarrow> Finds (''SELECT * FROM team_data WHERE teamid = '' @ dec_word (a_teamid a)) [team_columns T] #
          team_asks (dec_word (a_teamid a)) T)"

definition login_asks :: "profile \<Rightarrow> ask list" where
  "login_asks P =
     (let a = pf_account P; l = a_license a in
      Fetches (''SELECT rivalstatus FROM rival_data WHERE license = '' @ dec_word l) (pf_rivals P) #
      rank_asks l (pf_ranking P) @ garage_asks a (pf_garages P) @
      (if a_handle a = [] then []
       else cars_asks l (pf_cars P) @ items_asks l (pf_items P) @ sign_asks l (pf_sign P) @ own_team_asks a (pf_team P)))"

subsection \<open>The fields\<close>

text \<open>An account without a handle gets nothing behind the garages.\<close>

definition garage_fields :: "account \<Rightarrow> db_blob \<Rightarrow> byte list list" where
  "garage_fields a b =
     [ucast (a_garagecount a)] #
     map (\<lambda>i. [if unat (blob_size b) \<le> i then 0 else blob_data b ! i]) (indices (a_garagecount a))"

definition car_fields :: "CAR \<times> cppstring \<Rightarrow> byte list list" where
  "car_fields x =
     (let c = fst x in [[ucast (bay c)], u32_bytes (carID c), u32_bytes (KMs c), cardata c, u32_bytes (engineCondition c)])"

definition cars_fields :: "(CAR \<times> cppstring) list \<Rightarrow> byte list list" where
  "cars_fields cars = [word_of_nat (length cars)] # (if cars = [] then [[0]] else concat (map car_fields cars))"

definition items_fields :: "(u32 \<times> db_blob) option \<Rightarrow> byte list list" where
  "items_fields x =
     (case x of None \<Rightarrow> [u32_bytes 0]
      | Some (n, b) \<Rightarrow>
          [u32_bytes n, if blob_size b < n * 2 then replicate (unat (n * 2)) 0 else take (unat (n * 2)) (blob_data b)])"

definition sign_field :: "db_blob option \<Rightarrow> byte list" where
  "sign_field x =
     (case x of None \<Rightarrow> replicate 54 0
      | Some b \<Rightarrow> if blob_size b < 54 then replicate 54 0 else take 54 (blob_data b))"

definition own_team_fields :: "account \<Rightarrow> team option \<Rightarrow> byte list list" where
  "own_team_fields a x =
     (case x of None \<Rightarrow> [[0]] | Some T \<Rightarrow> [1] # team_fields (a_teamid a) T) @ [[ucast (a_teamarea a)]]"

definition login_fields :: "u32 \<Rightarrow> profile \<Rightarrow> byte list list" where
  "login_fields k P =
     (let a = pf_account P in
      account_fields k a (rival_field (pf_rivals P)) @ [u32_bytes (word_of_nat (rank_in (a_license a) (pf_ranking P)))] @
      garage_fields a (pf_garages P) @
      (if a_handle a = [] then []
       else cars_fields (pf_cars P) @ items_fields (pf_items P) @ [sign_field (pf_sign P)] @ own_team_fields a (pf_team P)))"

text \<open>The stored values that a reply can be made of.\<close>

definition car_ok :: "'d env \<Rightarrow> CAR \<times> cppstring \<Rightarrow> bool" where
  "car_ok E x \<longleftrightarrow> cardata (fst x) \<noteq> [] \<and> length (cardata (fst x)) \<le> 187 \<and> stof_bits E (snd x) = Some (KMs (fst x))"

definition profile_ok :: "'d env \<Rightarrow> profile \<Rightarrow> bool" where
  "profile_ok E P \<longleftrightarrow>
     (let a = pf_account P in
      length (a_handle a) \<le> 16 \<and> CHR 0x00 \<notin> set (a_handle a) \<and> a_handle a \<noteq> ''NULL'' \<and> \<not> bit (a_state a) 31 \<and>
      blob_ok (pf_rivals P) \<and> blob_ok (pf_garages P) \<and> (a_garagecount a = 0 \<or> blob_size (pf_garages P) \<noteq> 0) \<and>
      list_all (car_ok E) (pf_cars P) \<and> length (pf_cars P) \<le> 8000 \<and>
      (case pf_items P of None \<Rightarrow> True | Some (n, b) \<Rightarrow> blob_ok b \<and> unat (n * 2) \<le> 8000) \<and>
      (case pf_sign P of None \<Rightarrow> True | Some b \<Rightarrow> blob_ok b) \<and>
      (in_team a \<longleftrightarrow> pf_team P \<noteq> None) \<and> (case pf_team P of None \<Rightarrow> True | Some T \<Rightarrow> team_ok T))"

section \<open>Serving the parts\<close>

lemma takeWhile_drop_here: "i < length ls \<Longrightarrow> ls ! i = l \<Longrightarrow> takeWhile (\<lambda>x. x \<noteq> l) (drop i ls) = []"
  by (subst Cons_nth_drop_Suc [symmetric]) simp_all

lemma asks_find_rank:
  assumes "i \<le> length ls"
  shows "asks_only E (Some (map (\<lambda>x. [(''license'', dec_word x)]) ls)) (find_rank (dec_word l) 1 [i..<length ls]) []
    (if l \<in> set (drop i ls) then Suc (i + length (takeWhile (\<lambda>x. x \<noteq> l) (drop i ls))) else 1)
    (Some (map (\<lambda>x. [(''license'', dec_word x)]) ls))"
  using assms
proof (induction "length ls - i" arbitrary: i)
  case 0
  then show ?case by (simp add: asks_ret)
next
  case (Suc n)
  let ?K = "Some (map (\<lambda>x. [(''license'', dec_word x)]) ls)"
  let ?r = "\<lambda>i. if l \<in> set (drop i ls) then Suc (i + length (takeWhile (\<lambda>x. x \<noteq> l) (drop i ls))) else 1"
  have i: "i < length ls" using Suc.hyps(2) by simp
  then have up: "[i..<length ls] = i # [Suc i..<length ls]" and dr: "drop i ls = ls ! i # drop (Suc i) ls"
    by (simp_all add: upt_conv_Cons Cons_nth_drop_Suc)
  have v: "asks_only E ?K (db_value i ''license'') [] (dec_word (ls ! i)) ?K"
    using i by (intro asks_value) simp_all
  have "asks_only E ?K (if dec_word l = dec_word (ls ! i) then ret (i + 1) else find_rank (dec_word l) 1 [Suc i..<length ls])
      [] (?r i) ?K"
  proof (cases "l = ls ! i")
    case True
    then show ?thesis using asks_ret [of E ?K "i + 1"] by (simp add: dr)
  next
    case False
    have "?r i = ?r (Suc i)" using False by (simp add: dr)
    then show ?thesis using Suc.hyps(1) [of "Suc i"] Suc.hyps(2) i False by (simp add: dec_word_eq)
  qed
  then show ?case
    unfolding up find_rank.simps by (intro asks_eq [OF asks_bnd [OF v]]) simp_all
qed

lemma serves_ranking:
  "serves E None (ranking E (account_values a)) (rank_asks (a_license a) ls)
    [u32_bytes (word_of_nat (rank_in (a_license a) ls))] () None"
proof -
  let ?q = "sql [''SELECT license, playerwin - playerlose AS Score FROM account_data ORDER BY Score DESC'']"
  let ?t = "map (\<lambda>x. [(''license'', dec_word x)]) ls"
  have l: "ac_license (account_values a) = dec_word (a_license a)" by (simp add: account_values_def account_texts_def)
  have q: "serves E None (db_exec E ?q) [Finds ?q ?t] [] (int (length ls)) (Some ?t)"
    using serves_db(1) [of E None ?q ?t] by simp
  have n: "serves E (Some ?t) (gets (\<lambda>s. length (results (sdb s)))) [] [] (length ls) (Some ?t)"
    using serves_asks [OF asks_rows [of E ?t]] by simp
  have f: "serves E (Some ?t) (find_rank (dec_word (a_license a)) 1 [0..<length ls]) [] [] (rank_in (a_license a) ls) (Some ?t)"
    using serves_asks [OF asks_find_rank [OF le0, where ls = ls and E = E and l = "a_license a"]]
    unfolding rank_in_def by (simp only: drop_0 add_0)
  show ?thesis
  proof (cases "ls = []")
    case True
    then have n0: "(int (length ls) \<noteq> 0) = False" by simp
    show ?thesis
      unfolding ranking_def l
      apply (rule serves_eq)
        apply (rule serves_bnd, rule q)
        apply (simp only: n0 if_False)
        apply (rule serves_forget, rule serves_out)
      by (simp_all add: rank_asks_def rank_in_def True)
  next
    case False
    then have n0: "int (length ls) \<noteq> 0" by simp
    show ?thesis
      unfolding ranking_def l
      apply (rule serves_eq)
        apply (rule serves_bnd, rule q)
        apply (simp only: n0 if_True simp_thms)
        apply (rule serves_bnd, rule n, rule serves_bnd, rule f)
        apply (rule serves_steps serves_out serves_db)+
      by (simp_all add: rank_asks_def False)
  qed
qed

lemma serves_garages:
  assumes "blob_ok b" "a_garagecount a = 0 \<or> blob_size b \<noteq> 0"
  shows "serves E None (garage_list E (account_values a)) (garage_asks a b) (garage_fields a b) True None"
proof -
  have l: "ac_license (account_values a) = dec_word (a_license a)" "ac_garagecount (account_values a) = dec_word (a_garagecount a)"
    by (simp_all add: account_values_def account_texts_def)
  show ?thesis
  proof (cases "a_garagecount a = 0")
    case True
    show ?thesis
      unfolding garage_list_def l
      apply (rule serves_eq)
        apply (rule serves_bnd, rule serves_db(6), rule serves_stm, rule serves_out)
        apply (simp only: True less_irrefl simp_thms if_False)
        apply (rule serves_ret)
      by (simp_all add: garage_asks_def garage_fields_def True indices_def)
  next
    case False
    have byte: "serves E None (if unat (blob_size b) \<le> i then out_u8 0 else out_u8 (blob_data b ! i)) []
        [[if unat (blob_size b) \<le> i then 0 else blob_data b ! i]] () None" for i
      using serves_out(1) [of E None 0] serves_out(1) [of E None "blob_data b ! i"] by simp
    have "serves E None (for_each (indices (a_garagecount a))
        (\<lambda>i. if unat (blob_size b) \<le> i then out_u8 0 else out_u8 (blob_data b ! i)))
        (concat (map (\<lambda>_. []) (indices (a_garagecount a))))
        (concat (map (\<lambda>i. [[if unat (blob_size b) \<le> i then 0 else blob_data b ! i]]) (indices (a_garagecount a)))) () None"
      by (intro serves_for_each) (simp add: list_all2_conv_all_nth byte)
    moreover have "concat (map (\<lambda>_. []) xs) = ([] :: ask list)" for xs :: "nat list" by (induction xs) simp_all
    ultimately have loop: "serves E None (for_each (indices (a_garagecount a))
        (\<lambda>i. if unat (blob_size b) \<le> i then out_u8 0 else out_u8 (blob_data b ! i))) []
        (map (\<lambda>i. [if unat (blob_size b) \<le> i then 0 else blob_data b ! i]) (indices (a_garagecount a))) () None"
      by (simp only: concat_map_singleton)
    have n: "0 < a_garagecount a" using False by (simp add: word_neq_0_conv)
    have "blob_size b \<noteq> 0" using False assms(2) by blast
    then have b: "(blob_size b = 0) = False" by simp
    show ?thesis
      unfolding garage_list_def l
      apply (rule serves_eq)
        apply (rule serves_bnd, rule serves_db(6), rule serves_stm, rule serves_out)
        apply (simp only: n if_True)
        apply (rule serves_bnd, rule serves_asks, rule asks_blob [where b = b])
        apply (simp only: b if_False)
        apply (rule serves_stm, rule loop, rule serves_ret)
      by (simp_all add: garage_asks_def garage_fields_def False)
  qed
qed

lemma serves_car:
  assumes "i < length cars" "car_ok E (cars ! i)"
  shows "serves E None (car_entry E (dec_word l) i) (car_asks l cars (cars ! i)) (car_fields (cars ! i)) True None"
proof -
  obtain c km where x: "cars ! i = (c, km)" by (cases "cars ! i")
  let ?t = "map car_columns cars" and ?b = "blob_of (cardata c)"
  let ?dat = "take (min (unat (blob_size ?b)) sizeof_cardata) (blob_data ?b)"
  let ?copy = "?dat @ replicate (sizeof_cardata - length ?dat) 0"
  have c: "cardata c \<noteq> []" "length (cardata c) \<le> 187" "stof_bits E km = Some (KMs c)"
    using assms(2) by (simp_all add: car_ok_def x)
  have n: "unat (blob_size ?b) = length (cardata c)" using c(2) by (simp add: blob_of_def unat_of_nat)
  then have b: "(blob_size ?b = 0) = False" using c(1) by (metis length_0_conv unat_0)
  have v: "serves E (Some ?t) (db_value i col) [] [] w (Some ?t)" if "map_of (car_columns (c, km)) col = Some w" for col w
    using assms(1) that by (intro asks_column) (simp_all add: x)
  have arr: "serves E None (out_array ?copy (blob_size ?b)) [] [cardata c] () None"
    using serves_writes [where E = E and K = None, OF writes_array [of "blob_size ?b" ?copy]] c(2)
    by (simp add: n sizeof_cardata_def)
  show ?thesis
    unfolding car_entry_def
    apply (rule serves_eq)
      apply (rule serves_stm, rule serves_asks, rule asks_exec [where t = ?t])
      apply (rule serves_bnd, rule v, simp add: car_columns_def)+
      apply (rule serves_bnd, rule serves_asks, rule asks_blob [where b = ?b])
      apply (simp only: b if_False c(3) option.case Let_def)
      apply (rule serves_stm)
       apply (rule serves_steps arr serves_bnd serves_db(5) serves_out)+
      apply (rule serves_ret)
    by (simp_all add: car_asks_def car_fields_def x)
qed

lemma serves_cars:
  assumes "list_all (car_ok E) cars" "length cars \<le> 8000"
  shows "serves E None (car_list E (account_values a)) (cars_asks (a_license a) cars) (cars_fields cars) True None"
proof -
  let ?q = "garage_sql (dec_word (a_license a))"
  let ?n = "word_of_int (int (length cars)) :: u32"
  have l: "ac_license (account_values a) = dec_word (a_license a)" by (simp add: account_values_def account_texts_def)
  have n: "unat ?n = length cars" using assms(2) by (simp add: unat_of_nat)
  have byte: "(ucast ?n :: byte) = word_of_nat (length cars)"
    using assms(2) by (simp add: word_unat_eq_iff unsigned_ucast_eq take_bit_nat_def unat_of_nat)
  have q: "serves E None (db_exec E ?q) [Finds ?q (map car_columns cars)] [] (int (length cars)) None"
    using serves_forget [OF serves_db(1) [of E None ?q "map car_columns cars"]] by simp
  have cars: "serves E None (all_of (indices ?n) (car_entry E (dec_word (a_license a))))
      (concat (map (car_asks (a_license a) cars) cars)) (concat (map car_fields cars)) True None"
    using assms(1) by (intro serves_all_of list_all2_indices n serves_car) (simp_all add: list_all_length)
  show ?thesis
  proof (cases "cars = []")
    case True
    then have z: "(0 < ?n) = False" by simp
    show ?thesis
      unfolding car_list_def l Let_def
      apply (rule serves_eq)
        apply (rule serves_bnd, rule q)
        apply (rule serves_stm, rule serves_out)
        apply (simp only: z if_False)
        apply (rule serves_stm, rule serves_out, rule serves_ret)
      using byte by (simp_all add: cars_asks_def cars_fields_def True)
  next
    case False
    then have z: "(0 < ?n) = True" using n by (metis length_greater_0_conv unat_gt_0 word_greater_zero_iff)
    show ?thesis
      unfolding car_list_def l Let_def
      apply (rule serves_eq)
        apply (rule serves_bnd, rule q)
        apply (rule serves_stm, rule serves_out)
        apply (simp only: z if_True)
        apply (rule cars)
      using byte by (simp_all add: cars_asks_def cars_fields_def False)
  qed
qed

lemma serves_items:
  assumes "case x of None \<Rightarrow> True | Some (n, b) \<Rightarrow> blob_ok b \<and> unat (n * 2) \<le> 8000"
  shows "serves E None (item_list E (account_values a)) (items_asks (a_license a) x) (items_fields x) () None"
proof -
  let ?q = "sql [''SELECT itemcount FROM item_data WHERE license = '', dec_word (a_license a), '' AND blocked = 0'']"
  have l: "ac_license (account_values a) = dec_word (a_license a)" by (simp add: account_values_def account_texts_def)
  show ?thesis
  proof (cases x)
    case None
    have q: "serves E None (db_exec E ?q) [Finds ?q []] [] 0 None"
      using serves_forget [OF serves_db(1) [of E None ?q "[]"]] by simp
    show ?thesis
      unfolding item_list_def l
      apply (rule serves_eq)
        apply (rule serves_bnd, rule q)
        apply (simp only: simp_thms if_False)
        apply (rule serves_out)
      by (simp_all add: items_asks_def items_fields_def None)
  next
    case (Some y)
    obtain n b where y: "y = (n, b)" by (cases y)
    have b: "blob_ok b" "unat (n * 2) \<le> 8000" using assms by (simp_all add: Some y)
    have q: "serves E None (db_exec E ?q) [Finds ?q [[(''itemcount'', dec_word n)]]] [] 1 (Some [[(''itemcount'', dec_word n)]])"
      using serves_db(1) [of E None ?q "[[(''itemcount'', dec_word n)]]"] by simp
    have v: "serves E (Some [[(''itemcount'', dec_word n)]]) (db_value 0 ''itemcount'') [] [] (dec_word n) None"
      by (rule serves_forget, rule serves_asks, rule asks_value) simp_all
    have w: "serves E None (if blob_size b < n * 2 then out_skip (n * 2) else out_array (blob_data b) (n * 2)) []
        [if blob_size b < n * 2 then replicate (unat (n * 2)) 0 else take (unat (n * 2)) (blob_data b)] () None"
      using serves_writes [where E = E and K = None, OF writes_skip [OF b(2)]]
        serves_writes [where E = E and K = None, OF writes_array [OF _ b(2), of "blob_data b"]] b(1)
      by (simp add: blob_ok_def word_less_nat_alt not_less)
    show ?thesis
      unfolding item_list_def l
      apply (rule serves_eq)
        apply (rule serves_bnd, rule q)
        apply (simp only: one_neq_zero simp_thms if_True)
        apply (rule serves_bnd, rule v, rule serves_bnd, rule serves_db(6))
        apply (rule serves_bnd, rule serves_asks, rule asks_blob [where b = b])
        apply (rule serves_steps w serves_out)+
      by (simp_all add: items_asks_def items_fields_def Some y)
  qed
qed

lemma serves_sign:
  assumes "case x of None \<Rightarrow> True | Some b \<Rightarrow> blob_ok b"
  shows "serves E None (sign_part E (account_values a)) (sign_asks (a_license a) x) [sign_field x] () None"
proof -
  let ?q = "sql [''SELECT * FROM sign_data WHERE license = '', dec_word (a_license a)]"
  have l: "ac_license (account_values a) = dec_word (a_license a)" by (simp add: account_values_def account_texts_def)
  have skip: "serves E None (out_skip 54) [] [replicate 54 0] () None"
    using serves_writes [OF writes_skip [of 54]] by simp
  show ?thesis
  proof (cases x)
    case None
    have q: "serves E None (db_exec E ?q) [Finds ?q []] [] 0 None"
      using serves_forget [OF serves_db(1) [of E None ?q "[]"]] by simp
    show ?thesis
      unfolding sign_part_def l
      apply (rule serves_eq)
        apply (rule serves_bnd, rule q)
        apply (simp only: simp_thms if_False)
        apply (rule skip)
      by (simp_all add: sign_asks_def sign_field_def None)
  next
    case (Some b)
    have q: "serves E None (db_exec E ?q) [Finds ?q [[]]] [] 1 None"
      using serves_forget [OF serves_db(1) [of E None ?q "[[]]"]] by simp
    have w: "serves E None (if blob_size b < 54 then out_skip 54 else out_array (blob_data b) 54) []
        [if blob_size b < 54 then replicate 54 0 else take 54 (blob_data b)] () None"
      using skip serves_writes [where E = E and K = None, OF writes_array [of 54 "blob_data b"]] assms
      by (simp add: Some blob_ok_def word_less_nat_alt not_less)
    show ?thesis
      unfolding sign_part_def l
      apply (rule serves_eq)
        apply (rule serves_bnd, rule q)
        apply (simp only: one_neq_zero simp_thms if_True)
        apply (rule serves_bnd, rule serves_asks, rule asks_blob [where b = b])
        apply (rule w)
      by (simp_all add: sign_asks_def sign_field_def Some)
  qed
qed

lemma serves_own_team:
  assumes "in_team a \<longleftrightarrow> x \<noteq> None" "case x of None \<Rightarrow> True | Some T \<Rightarrow> team_ok T"
  shows "serves E None (team_part E (account_values a)) (own_team_asks a x) (own_team_fields a x) () None"
proof -
  have area: "ac_teamarea (account_values a) = dec_word (a_teamarea a)" by (simp add: account_values_def account_texts_def)
  show ?thesis
  proof (cases x)
    case None
    then have id: "(ac_teamid (account_values a) \<noteq> ''-1'') = False" using assms(1) by (simp add: account_values_def)
    show ?thesis
      unfolding team_part_def area
      apply (rule serves_eq)
        apply (simp only: id if_False)
        apply (rule serves_steps serves_out)+
      by (simp_all add: own_team_asks_def own_team_fields_def None)
  next
    case (Some T)
    then have t: "in_team a" "team_ok T" using assms by simp_all
    have d: "is_digit (hd (dec n))" for n using dec_digits [of n] by (cases "dec n") auto
    have "\<not> is_digit CHR ''-''" by (simp add: is_digit_def less_eq_char_def)
    then have "dec_word (a_teamid a) \<noteq> ''-1''" using d [of "unat (a_teamid a)"] by auto
    then have id: "(dec_word (a_teamid a) \<noteq> ''-1'') = True" "ac_teamid (account_values a) = dec_word (a_teamid a)"
      using t(1) by (simp_all add: account_values_def)
    let ?q = "sql [''SELECT * FROM team_data WHERE teamid = '', dec_word (a_teamid a)]"
    have q: "serves E None (db_exec E ?q) [Finds ?q [team_columns T]] [] 1 (Some [team_columns T])"
      using serves_db(1) [of E None ?q "[team_columns T]"] by simp
    show ?thesis
      unfolding team_part_def area id(2)
      apply (rule serves_eq)
        apply (simp only: id(1) if_True)
        apply (rule serves_steps)
         apply (rule serves_bnd, rule serves_db(6), rule serves_bnd, rule q)
         apply (simp only: one_neq_zero simp_thms if_True)
         apply (rule serves_forget, rule serves_team_found [OF t(2)])
        apply (rule serves_steps serves_out)+
      by (simp_all add: own_team_asks_def own_team_fields_def Some)
  qed
qed

section \<open>The reply\<close>

lemma replies_player_data:
  fixes E :: "'d env"
  assumes "profile_ok E P"
  defines "a \<equiv> pf_account P"
  shows "replies E None (player_data E k (account_values a) (pf_rivals P)) (tl (login_asks P)) 1 0 (login_fields k P) True None"
proof -
  have ok: "length (a_handle a) \<le> 16" "CHR 0x00 \<notin> set (a_handle a)" "blob_ok (pf_rivals P)" "blob_ok (pf_garages P)"
    "a_garagecount a = 0 \<or> blob_size (pf_garages P) \<noteq> 0" "list_all (car_ok E) (pf_cars P)" "length (pf_cars P) \<le> 8000"
    "case pf_items P of None \<Rightarrow> True | Some (n, b) \<Rightarrow> blob_ok b \<and> unat (n * 2) \<le> 8000"
    "case pf_sign P of None \<Rightarrow> True | Some b \<Rightarrow> blob_ok b"
    "in_team a \<longleftrightarrow> pf_team P \<noteq> None" "case pf_team P of None \<Rightarrow> True | Some T \<Rightarrow> team_ok T"
    using assms(1) unfolding profile_ok_def Let_def a_def by blast+
  obtain ms :: "('d session, unit) prog list" where ms: "player_details k (account_values a) (pf_rivals P) = steps (start_reply 1 0 # ms)"
    "writes (steps ms) (account_fields k a (rival_field (pf_rivals P)))"
    by (rule player_details_writes [OF ok(1-3)])
  have details: "replies E None (player_details k (account_values a) (pf_rivals P)) [] 1 0
      (account_fields k a (rival_field (pf_rivals P))) () None"
    unfolding ms(1) by (rule replies_start, rule serves_writes, rule ms(2))
  have h: "ac_handle (account_values a) = a_handle a" by (simp add: account_values_def account_texts_def)
  have rest: "serves E None (if a_handle a \<noteq> [] then both (car_list E (account_values a))
        (stm (steps [item_list E (account_values a), sign_part E (account_values a), team_part E (account_values a)]) (ret True))
      else ret True)
    (if a_handle a = [] then []
       else cars_asks (a_license a) (pf_cars P) @ items_asks (a_license a) (pf_items P) @
         sign_asks (a_license a) (pf_sign P) @ own_team_asks a (pf_team P))
    (if a_handle a = [] then []
       else cars_fields (pf_cars P) @ items_fields (pf_items P) @ [sign_field (pf_sign P)] @ own_team_fields a (pf_team P))
    True None"
  proof (cases "a_handle a = []")
    case True
    then show ?thesis using serves_ret [of E None True] by simp
  next
    case False
    have "serves E None (both (car_list E (account_values a))
        (stm (steps [item_list E (account_values a), sign_part E (account_values a), team_part E (account_values a)]) (ret True)))
      (cars_asks (a_license a) (pf_cars P) @ items_asks (a_license a) (pf_items P) @
         sign_asks (a_license a) (pf_sign P) @ own_team_asks a (pf_team P))
      (cars_fields (pf_cars P) @ items_fields (pf_items P) @ [sign_field (pf_sign P)] @ own_team_fields a (pf_team P))
      True None"
      apply (rule serves_eq)
        apply (rule serves_both, rule serves_cars [OF ok(6,7)], rule serves_stm)
         apply (rule serves_steps serves_items [OF ok(8)] serves_sign [OF ok(9)] serves_own_team [OF ok(10,11)])+
        apply (rule serves_ret)
      by simp_all
    then show ?thesis using False by simp
  qed
  show ?thesis
    unfolding player_data_def h
    apply (rule replies_eq)
      apply (rule replies_stm)
       apply (simp only: steps.simps)
       apply (rule replies_stm, rule details, rule serves_stm, rule serves_ranking, rule serves_ret)
      apply (rule serves_both, rule serves_garages [OF ok(4,5)], rule rest)
    by (simp_all add: login_asks_def login_fields_def Let_def a_def)
qed

text \<open>The row of the account is read column by column.\<close>

lemma asks_account:
  "asks_only E (Some [account_columns a]) read_account [] (account_texts a) (Some [account_columns a])"
proof -
  let ?K = "Some [account_columns a]"
  have v: "asks_only E ?K (db_value 0 c) [] w ?K" if "map_of (account_columns a) c = Some w" for c w
    using that by (intro asks_value) simp_all
  show ?thesis
    unfolding read_account_def
    apply (rule asks_eq)
      apply (rule asks_bnd, rule v, simp add: account_columns_def)+
      apply (rule asks_ret)
    by (simp_all add: account_texts_def)
qed

lemma replies_login_account:
  assumes "profile_ok E P"
  shows "replies E (Some [account_columns (pf_account P)]) (login_account E k) (login_asks P) 1 0 (login_fields k P) True None"
proof -
  let ?a = "pf_account P"
  have ok: "a_handle ?a \<noteq> ''NULL''" "\<not> bit (a_state ?a) 31"
    using assms unfolding profile_ok_def Let_def by blast+
  have texts: "ac_license (account_texts ?a) = dec_word (a_license ?a)" "ac_state (account_values ?a) = dec_word (a_state ?a)"
    by (simp_all add: account_texts_def account_values_def)
  have "a_state ?a AND 0x80000000 = 0"
  proof (rule bit_word_eqI)
    fix n assume "n < LENGTH(32)"
    have "bit (0x80000000 :: u32) n \<longleftrightarrow> n = 31" using bit_exp_iff [where ?'a = "32 word", of 31 n] by auto
    then show "bit (a_state ?a AND 0x80000000) n = bit (0 :: u32) n" using ok(2) by (auto simp: bit_and_iff)
  qed
  then have st: "(a_state ?a AND 0x80000000 \<noteq> 0) = False" by simp
  show ?thesis
    unfolding login_account_def
    apply (rule replies_eq)
      apply (rule replies_asks, rule asks_account)
      apply (rule replies_asks, rule asks_blob [where b = "pf_rivals P"])
      apply (simp only: Let_def account_defaults_texts [OF ok(1)] texts)
      apply (rule replies_asks, rule asks_stoul)
      apply (simp only: st if_False)
      apply (rule replies_player_data [OF assms])
    by (simp_all add: login_asks_def Let_def texts)
qed

text \<open>The test of the name and the password: what follows depends on the rows that are found.\<close>

lemma replies_login_rows:
  assumes "sha_ok E" "length name \<le> 4096"
    and "replies E (Some t) (bnd (if length t = 1 then login_account E k else ret False)
      (\<lambda>good. if good then ret () else login_failed k)) as 1 0 fs () K"
  shows "replies E None (login_check E k (tolower name) (Some password))
    (Finds (account_sql E name password) t # as) 1 0 fs () K"
proof -
  let ?q = "account_sql E name password"
  have hx: "asks_only E None (hex_of_string (tolower name)) [] (hex (bytes_of (tolower name))) None"
    using assms(2) by (intro asks_onlyI) (simp add: hex_text_run tolower_def)
  have pw: "asks_only E None (lift (case Some password of None \<Rightarrow> Inl OutOfBounds | Some pw \<Rightarrow> password_hash E pw)) []
      (hex (snd (GetHash E (bytes_of (HASH_SECRET @ ''.'' @ password)) (replicate 32 0)))) None"
    unfolding option.case password_hash_hex [OF assms(1)] by (rule asks_lift)
  have q: "asks_only E None (db_exec E ?q) [Finds ?q t] (int (length t)) (Some t)" by (rule asks_exec)
  show ?thesis
    unfolding login_check_def
    apply (rule replies_eq)
      apply (rule replies_asks, rule hx, rule replies_asks, rule pw)
      apply (simp only: stm_def)
      apply (rule replies_asks, rule q [unfolded account_sql_def])
      apply (rule replies_asks, rule asks_rows)
      apply (rule assms(3))
    by (simp_all add: account_sql_def)
qed

lemma replies_one_account:
  assumes "sha_ok E" "length name \<le> 4096"
    and "replies E (Some [cs]) (login_account E k) as 1 0 fs True K"
  shows "replies E None (login_check E k (tolower name) (Some password))
    (Finds (account_sql E name password) [cs] # as) 1 0 fs () K"
proof (rule replies_login_rows [OF assms(1,2)])
  have "replies E (Some [cs]) (bnd (login_account E k) (\<lambda>good. if good then ret () else login_failed k))
      (as @ []) 1 0 (fs @ []) () K"
    by (rule replies_bnd [OF assms(3)]) (simp only: if_True serves_ret)
  then show "replies E (Some [cs]) (bnd (if length [cs] = 1 then login_account E k else ret False)
      (\<lambda>good. if good then ret () else login_failed k)) as 1 0 fs () K" by simp
qed

definition login_request :: "'d env \<Rightarrow> client \<Rightarrow> u32 \<Rightarrow> cppstring \<Rightarrow> cppstring \<Rightarrow> bool" where
  "login_request E c k name password \<longleftrightarrow>
     unat (getType (inbuf c)) = 1 \<and> getSubType (inbuf c) = 0 \<and> asks_login E (inbuf c) k name password"

lemma login_replied:
  assumes "login_request E (cl s) k name password" "Open (api E) (sdb s) = Inr (DB_OK, D)"
    and "replies E None (login_check E k (tolower name) (Some password)) as 1 0 fs () K"
    and "answers E D as = Some D'" "length (concat fs) \<le> 8000"
  shows "\<exists>p D''. ClientAuth E s = Inr (FallOut,
    \<lparr>cl = (cl s)\<lparr>inbuf := p, outbuf := message_of 1 0 fs\<rparr>, sdb = D''\<rparr>)"
proof -
  have req: "asks_login E (inbuf (cl s)) k name password" "getSubType (inbuf (cl s)) = 0"
    using assms(1) by (simp_all add: login_request_def)
  obtain q where q: "login E s = bnd (db_open E) (\<lambda>res.
      stm (whenP (res = DB_OK) (steps [login_check E k (tolower name) (Some password), db_close_only E]))
      (ret FallOut)) (s\<lparr>cl := (cl s)\<lparr>inbuf := q\<rparr>\<rparr>)"
    using login_reads [OF req(1)] by blast
  let ?u = "s\<lparr>cl := (cl s)\<lparr>inbuf := q\<rparr>, sdb := D\<rparr>"
  let ?v = "set_out (message_of 1 0 fs) (s\<lparr>cl := (cl s)\<lparr>inbuf := q\<rparr>, sdb := D'\<rparr>)"
  have o: "db_open E (s\<lparr>cl := (cl s)\<lparr>inbuf := q\<rparr>\<rparr>) = Inr (DB_OK, ?u)"
    using assms(2) by (simp add: db_open_def on_db_def)
  from repliesD(1) [OF assms(3), of ?u D']
  have lc: "login_check E k (tolower name) (Some password) ?u = Inr ((), ?v)"
    using assms(4,5) by simp
  obtain m t where t: "db_close E ?v = Inr (m, t)" "cl t = cl ?v" using db_close_total by blast
  have "login E s = Inr (FallOut, t)"
    unfolding q by (simp add: bnd_run o stm_run whenP_run lc db_close_only_def t(1) ret_run)
  moreover have "t = \<lparr>cl = (cl s)\<lparr>inbuf := q, outbuf := message_of 1 0 fs\<rparr>, sdb = sdb t\<rparr>"
    using t(2) by (cases t) (simp add: set_out_def)
  ultimately show ?thesis using req(2) by (auto simp: ClientAuth_def bnd_run gets_run)
qed

lemma login_name: "login_request E c k name password \<Longrightarrow> length name \<le> 4096"
  by (simp add: login_request_def asks_login_def text_ok_def)

lemma login_runs:
  assumes "login_request E (cl s) k name password" "profile_ok E P" "sha_ok E"
    and "Open (api E) (sdb s) = Inr (DB_OK, D)"
    and "answers E D (Finds (account_sql E name password) [account_columns (pf_account P)] # login_asks P) = Some D'"
    and "length (concat (login_fields k P)) \<le> 8000"
  shows "\<exists>p D''. ClientAuth E s = Inr (FallOut,
    \<lparr>cl = (cl s)\<lparr>inbuf := p, outbuf := message_of 1 0 (login_fields k P)\<rparr>, sdb = D''\<rparr>)"
  by (rule login_replied [OF assms(1,4) replies_one_account [OF assms(3) login_name [OF assms(1)]
    replies_login_account [OF assms(2)]] assms(5,6)])

text \<open>
  A login is answered with everything that is stored of the player: when the database finds exactly
  one account for the name and the hash of the password, and its account is not in use, one more frame is in
  the queue of the game server that asked, and no other connection is touched. The frame carries the details
  of the account, its place in the ranking, its garages and, if it has a handle, its cars, items, sign and
  team with all members, as the rows and blobs of the database have them, zeros for a blob that is missing or
  too short. The database is asked for these in this order, and the only statement that changes
  it stores the rank.
\<close>

lemma login_is_answered:
  assumes "server_ok s" "k < length (connections s)" "heard (connections s ! k)"
    and "login_request E (connections s ! k) player name password" "sha_ok E"
    and "db s = Some DB" "Open (api E) DB = Inr (DB_OK, D)"
    and "answers E D (Finds (account_sql E name password) [account_columns (pf_account P)] # login_asks P) = Some D'"
    and "profile_ok E P" "length (concat (login_fields player P)) \<le> 8000"
  shows "\<exists>p q D''. ProcessPacket E k s = Inr (s\<lparr>connections := (connections s)
    [k := (enqueue (padded_entry (message_frame (message_of 1 0 (login_fields player P)))) (connections s ! k))
      \<lparr>inbuf := p, outbuf := q\<rparr>], db := Some D''\<rparr>)"
proof -
  let ?c = "connections s ! k" and ?msg = "message_of 1 0 (login_fields player P)"
  obtain p D'' where "ClientAuth E \<lparr>cl = ?c, sdb = DB\<rparr> = Inr (FallOut, \<lparr>cl = ?c\<lparr>inbuf := p, outbuf := ?msg\<rparr>, sdb = D''\<rparr>)"
    using login_runs [of E "\<lparr>cl = ?c, sdb = DB\<rparr>", OF _ assms(9,5) _ assms(8,10)] assms(4,7) by auto
  then have "handler_of E (unat (getType (inbuf ?c))) \<lparr>cl = ?c, sdb = DB\<rparr> =
      Inr (FallOut, \<lparr>cl = ?c\<lparr>inbuf := p, outbuf := ?msg\<rparr>, sdb = D''\<rparr>)"
    using assms(4) by (simp add: handler_of_def login_request_def)
  from reply_is_queued [OF assms(1-3,6) this message_ok_request [OF assms(10)]] show ?thesis by blast
qed

section \<open>Examples\<close>

text \<open>Bob leads the crew, and has a car and two items.\<close>

definition bobs_account :: account where
  "bobs_account = sample_account\<lparr>a_license := 7, a_handle := ''bob'', a_teamid := 1, a_state := 0, a_garagecount := 2\<rparr>"

definition bobs_profile :: profile where
  "bobs_profile = \<lparr>pf_account = bobs_account, pf_rivals = blob_of (replicate 1200 3), pf_ranking = [8, 7],
     pf_garages = blob_of [1], pf_cars = [(\<lparr>carID = 5, KMs = 0, engineCondition = 100, bay = 0, cardata = replicate 187 9\<rparr>, ''0.0'')],
     pf_items = Some (2, blob_of [1, 0, 2, 0]), pf_sign = None, pf_team = Some crew\<rparr>"

lemma blob_of_size: "length bs \<le> 8000 \<Longrightarrow> unat (blob_size (blob_of bs)) = length bs"
  by (simp add: blob_of_def unat_of_nat)

lemma blob_of_ok: "length bs \<le> 8000 \<Longrightarrow> blob_ok (blob_of bs)"
  using blob_of_size [of bs] by (simp add: blob_ok_def)

lemma bobs_profile_facts:
  "profile_ok told_env bobs_profile"
  "list_all ask_ok (Finds (account_sql told_env ''bob'' ''xx'') [account_columns (pf_account bobs_profile)] # login_asks bobs_profile)"
  "length (concat (login_fields 7 bobs_profile)) \<le> 8000"
proof -
  have team: "in_team bobs_account" by (simp add: in_team_def bobs_account_def)
  have g: "blob_size (blob_of [1]) \<noteq> 0" by (simp add: blob_of_def)
  show "profile_ok told_env bobs_profile"
    unfolding profile_ok_def Let_def
    using team g crew_facts(1) by (simp add: bobs_profile_def bobs_account_def sample_account_def blob_of_ok car_ok_def)
  have "teamIDStr 1 = dec 1" using teamIDStr_number [of 1] by simp
  then show "list_all ask_ok (Finds (account_sql told_env ''bob'' ''xx'') [account_columns (pf_account bobs_profile)] # login_asks bobs_profile)"
    using no_nul_dec
    by (simp add: login_asks_def Let_def bobs_profile_def bobs_account_def sample_account_def account_columns_def rank_asks_def
        garage_asks_def cars_asks_def car_asks_def car_columns_def items_asks_def sign_asks_def own_team_asks_def
        team_asks_def crew_def team_columns_def member_columns_def blob_of_ok)
  have p: "length (pad_field 16 t) = 16" if "length t \<le> 16" for t using that by (rule length_pad_field)
  have q: "length (pad_field 40 t) = 40" if "length t \<le> 40" for t using that by (rule length_pad_field)
  have "length (rival_field (blob_of (replicate 1200 3))) = 1200"
    using blob_of_size [of "replicate 1200 3"] by (auto simp: rival_field_def)
  then show "length (concat (login_fields 7 bobs_profile)) \<le> 8000"
    using p q
    by (simp add: login_fields_def Let_def bobs_profile_def bobs_account_def sample_account_def account_fields_def
        garage_fields_def indices_def upt_conv_Cons cars_fields_def car_fields_def items_fields_def sign_field_def own_team_fields_def
        team_fields_def member_fields_def crew_def leader_name_def)
qed

text \<open>The slot of a game server that asks for Bob's login.\<close>

lemma bobs_slot:
  defines "c \<equiv> (sample_slot True)\<lparr>inbuf := bobs_login\<rparr>"
  shows "heard c" "server_ok (told_server c d)" "login_request told_env c 7 ''bob'' ''xx''"
proof -
  have len: "length (concat bobs_fields) = 26"
    using pad_field_text [of 20 "''bob''"] by (simp add: bobs_fields_def text_ok_def)
  then have l: "length (concat bobs_fields) \<le> 8000" "10 \<le> length (concat bobs_fields)" by simp_all
  have "unat (1 :: u16) \<in> {1, 2, 4}" by simp
  note h = heard_request [OF l this, of 0, folded bobs_login_def]
  show "heard c" "server_ok (told_server c d)" unfolding c_def by (rule h(1), rule h(2))
  show "login_request told_env c 7 ''bob'' ''xx''"
    using bobs_login_facts [of told_env] h(3) by (simp add: login_request_def c_def)
qed

lemma login_is_answered_example:
  "\<exists>d t. ProcessPacket told_env 0 (told_server ((sample_slot True)\<lparr>inbuf := bobs_login\<rparr>) d) = Inr t \<and>
    sendQueue (connections t ! 0) = [padded_entry (message_frame (message_of 1 0 (login_fields 7 bobs_profile)))]"
proof -
  let ?c = "(sample_slot True)\<lparr>inbuf := bobs_login\<rparr>"
  let ?as = "Finds (account_sql told_env ''bob'' ''xx'') [account_columns (pf_account bobs_profile)] # login_asks bobs_profile"
  let ?d = "map tell_of ?as"
  obtain D' where D': "answers told_env (told_db ?d) ?as = Some D'"
    using told_answers [OF bobs_profile_facts(2), of "told_db ?d"] by auto
  have "sendQueue ?c = []" by (simp add: sample_slot_def new_CLIENT_def Initialize_def ClearSendQueue_def)
  moreover have "connections (told_server ?c ?d) ! 0 = ?c" by simp
  ultimately show ?thesis
    using login_is_answered [where s = "told_server ?c ?d" and k = 0 and E = told_env and player = 7 and name = "''bob''"
        and password = "''xx''" and DB = "told_db ?d" and D = "told_db ?d" and P = bobs_profile and D' = D']
      bobs_slot D' bobs_profile_facts told_Open [of "told_db ?d"] told_sha
    by (auto simp: enqueue_def intro!: exI [of _ ?d])
qed

end
