(* ===== verification/Save_Login.thy ===== *)
theory Save_Login
  imports Save_Properties Login_Reply
begin

text \<open>
  A save and a later login: the reply to the login carries the values of the save. The database between
  them is asked for what the statements of the save have stored.
\<close>

section \<open>What a save leaves in the database\<close>

text \<open>
  The columns that the statement for the account sets, with the literals it sets them to, and the texts
  that a query shows for them.
\<close>

definition saved_columns :: "save_data \<Rightarrow> (cppstring \<times> cppstring) list" where
  "saved_columns v =
     [(''handle'', quoted (sv_handle v)), (''cp'', dec_word (sv_CP v)), (''level'', dec_word (sv_level v)),
      (''points'', dec_word (sv_points v)), (''playerwin'', dec_word (sv_playerWin v)),
      (''playerlose'', dec_word (sv_playerLose v)), (''rivalwin'', dec_word (sv_rivalWin v)),
      (''rivallose'', dec_word (sv_rivalLose v)), (''activecar'', dec_word (sv_activeCar v)),
      (''privileges'', dec_word (sv_privileges v)), (''teamid'', teamIDStr (sv_teamId v)),
      (''beginner'', dec_word (sv_notBeginner v)), (''garagecount'', dec (length (sv_garages v)))]"

fun assignments :: "(cppstring \<times> cppstring) list \<Rightarrow> cppstring" where
  "assignments [] = []"
| "assignments [(c, e)] = c @ '' = '' @ e"
| "assignments ((c, e) # x # xs) = c @ '' = '' @ e @ '', '' @ assignments (x # xs)"

lemma account_update_assigns:
  "account_update v = ''UPDATE account_data SET '' @ assignments (saved_columns v) @ '' WHERE license = '' @ dec_word (sv_license v)"
  by (simp add: account_update_def saved_columns_def)

text \<open>
  The account, the blobs, the cars, the items and the sign of a save; what a save does not store, the
  ranking, the team, the account's area and its state, is as it was.
\<close>

definition saved_account :: "save_data \<Rightarrow> account \<Rightarrow> account" where
  "saved_account v a = a
     \<lparr>a_license := sv_license v, a_handle := sv_handle v, a_cp := sv_CP v, a_level := sv_level v,
      a_points := sv_points v, a_playerwin := sv_playerWin v, a_playerlose := sv_playerLose v,
      a_rivalwin := sv_rivalWin v, a_rivallose := sv_rivalLose v, a_activecar := sv_activeCar v,
      a_privileges := sv_privileges v, a_teamid := sv_teamId v, a_beginner := sv_notBeginner v,
      a_garagecount := word_of_nat (length (sv_garages v))\<rparr>"

definition saved_profile :: "'d env \<Rightarrow> save_data \<Rightarrow> profile \<Rightarrow> profile" where
  "saved_profile E v P = P
     \<lparr>pf_account := saved_account v (pf_account P), pf_rivals := blob_of (sv_rivalStatus v),
      pf_garages := blob_of (sv_garages v), pf_cars := map (\<lambda>c. (c, float_text E (KMs c))) (sv_cars v),
      pf_items := Some (word_of_nat (length (sv_items v)), blob_of (if sv_items v = [] then [0, 0] else item_bytes (sv_items v))),
      pf_sign := Some (blob_of (sv_sign v))\<rparr>"

text \<open>A query shows each of the columns as the literal it was set to, without its quotes.\<close>

lemma saved_columns_shown:
  assumes "length (sv_garages v) < 256"
  shows "\<forall>(c, e) \<in> set (saved_columns v). \<exists>t. map_of (account_columns (saved_account v a)) c = Some t \<and>
    (e = t \<or> e = quoted t)"
proof -
  have "unat (word_of_nat (length (sv_garages v)) :: u32) = length (sv_garages v)"
    using assms by (simp add: unat_of_nat)
  then show ?thesis by (simp add: saved_columns_def account_columns_def saved_account_def)
qed

section \<open>The reply\<close>

text \<open>The bytes of the reply in terms of the save.\<close>

definition reply_bytes :: "u32 \<Rightarrow> save_data \<Rightarrow> profile \<Rightarrow> byte list" where
  "reply_bytes k v P =
     u32_bytes k @ u32_bytes (sv_license v) @ [0] @ pad_field 16 (sv_handle v) @ u64_bytes (sv_CP v) @
     [ucast (sv_level v)] @ u32_bytes (sv_points v) @ u32_bytes (sv_playerWin v) @ u32_bytes (sv_playerLose v) @
     u32_bytes (sv_rivalWin v) @ u32_bytes (sv_rivalLose v) @ sv_rivalStatus v @ [ucast (sv_activeCar v)] @
     [ucast (sv_privileges v)] @ [ucast (sv_notBeginner v)] @
     u32_bytes (if sint (sv_teamId v) < 0 then 0xFFFFFFFF else sv_teamId v) @ u32_bytes (a_state (pf_account P)) @
     u32_bytes (word_of_nat (rank_in (sv_license v) (pf_ranking P))) @
     [word_of_nat (length (sv_garages v))] @ sv_garages v @
     [word_of_nat (length (sv_cars v))] @
     (if sv_cars v = [] then [0] else concat (map (\<lambda>c. [ucast (bay c)] @ u32_bytes (carID c) @ u32_bytes (KMs c) @
        cardata c @ u32_bytes (engineCondition c)) (sv_cars v))) @
     u32_bytes (word_of_nat (length (sv_items v))) @ item_bytes (sv_items v) @ sv_sign v @
     concat (own_team_fields (saved_account v (pf_account P)) (pf_team P))"

text \<open>The saves that come back: a player with a handle, whose mileages survive as texts.\<close>

definition restorable :: "'d env \<Rightarrow> save_data \<Rightarrow> profile \<Rightarrow> bool" where
  "restorable E v P \<longleftrightarrow>
     save_shape v \<and> length (sv_items v) \<le> 2048 \<and> sv_handle v \<noteq> [] \<and> sv_handle v \<noteq> ''NULL'' \<and>
     (\<forall>c \<in> set (sv_cars v). stof_bits E (float_text E (KMs c)) = Some (KMs c)) \<and> \<not> bit (a_state (pf_account P)) 31 \<and>
     (0 \<le> sint (sv_teamId v) \<longleftrightarrow> pf_team P \<noteq> None) \<and> (case pf_team P of None \<Rightarrow> True | Some T \<Rightarrow> team_ok T)"

lemma restorable_profile:
  assumes "restorable E v P"
  shows "profile_ok E (saved_profile E v P)"
proof -
  have sh: "text_ok 16 (sv_handle v)" "length (sv_rivalStatus v) = 1200" "length (sv_garages v) < 256" "length (sv_cars v) < 256"
    "\<forall>c \<in> set (sv_cars v). length (cardata c) = 187" "length (sv_sign v) = 54" "length (sv_items v) \<le> 2048"
    using assms unfolding restorable_def save_shape_def by blast+
  have g: "word_of_nat (length (sv_garages v)) = (0 :: u32) \<or> blob_size (blob_of (sv_garages v)) \<noteq> 0"
    by (simp add: blob_of_def)
  have n: "unat (word_of_nat (length (sv_items v)) * 2 :: u32) = 2 * length (sv_items v)"
    using sh(7) by (simp add: unat_word_ariths unat_of_nat)
  have items: "blob_ok (blob_of (if sv_items v = [] then [0, 0] else item_bytes (sv_items v)))"
    by (rule blob_of_ok) (use sh(7) in \<open>simp add: length_item_bytes\<close>)
  have cars: "list_all (car_ok E) (map (\<lambda>c. (c, float_text E (KMs c))) (sv_cars v))"
    using assms sh(5) by (auto simp: restorable_def list_all_iff car_ok_def)
  have blobs: "blob_ok (blob_of (sv_rivalStatus v))" "blob_ok (blob_of (sv_garages v))" "blob_ok (blob_of (sv_sign v))"
    using sh by (simp_all add: blob_of_ok)
  have "in_team (saved_account v (pf_account P)) \<longleftrightarrow> pf_team P \<noteq> None"
    using assms by (simp add: restorable_def in_team_def saved_account_def)
  then show ?thesis
    using assms sh g n items cars blobs
    by (simp add: profile_ok_def Let_def saved_profile_def restorable_def text_ok_def saved_account_def)
qed

lemma concat_singles: "concat (map (\<lambda>i. [f i]) xs) = map f xs"
  by (induction xs) simp_all

lemma restored_bytes:
  assumes "restorable E v P"
  shows "concat (login_fields k (saved_profile E v P)) = reply_bytes k v P"
proof -
  have sh: "length (sv_rivalStatus v) = 1200" "length (sv_garages v) < 256" "length (sv_sign v) = 54" "length (sv_items v) \<le> 2048"
    "sv_handle v \<noteq> []"
    using assms unfolding restorable_def save_shape_def by blast+
  have n8: "(ucast (word_of_nat (length (sv_garages v)) :: u32) :: byte) = word_of_nat (length (sv_garages v))"
    using sh(2) by (simp add: word_unat_eq_iff unsigned_ucast_eq take_bit_nat_def unat_of_nat)
  have g: "unat (word_of_nat (length (sv_garages v)) :: u32) = length (sv_garages v)" using sh(2) by (simp add: unat_of_nat)
  have nth: "map (\<lambda>i. if length xs \<le> i then 0 else xs ! i) [0..<length xs] = xs" for xs :: "byte list"
    by (rule nth_equalityI) simp_all
  have garages: "concat (garage_fields (saved_account v a) (blob_of (sv_garages v))) =
      [word_of_nat (length (sv_garages v))] @ sv_garages v" for a
    unfolding garage_fields_def blob_of_data
    using sh(2) n8 g blob_of_size [of "sv_garages v"]
    by (simp add: saved_account_def indices_def concat_singles nth)
  have rivals: "rival_field (blob_of (sv_rivalStatus v)) = sv_rivalStatus v"
    using sh(1) by (simp add: rival_field_def blob_of_def)
  have n: "unat (word_of_nat (length (sv_items v)) * 2 :: u32) = 2 * length (sv_items v)"
    using sh(4) by (simp add: unat_word_ariths unat_of_nat)
  have items: "concat (items_fields (Some (word_of_nat (length (sv_items v)), blob_of (if sv_items v = [] then [0, 0] else item_bytes (sv_items v))))) =
      u32_bytes (word_of_nat (length (sv_items v))) @ item_bytes (sv_items v)"
  proof (cases "sv_items v = []")
    case True
    then show ?thesis by (simp add: items_fields_def item_bytes_def)
  next
    case False
    have "unat (blob_size (blob_of (item_bytes (sv_items v)))) = 2 * length (sv_items v)"
      using sh(4) blob_of_size [of "item_bytes (sv_items v)"] by (simp add: length_item_bytes)
    then have "\<not> blob_size (blob_of (item_bytes (sv_items v))) < word_of_nat (length (sv_items v)) * 2"
      using n by (simp add: word_less_nat_alt)
    then show ?thesis using False n by (simp add: items_fields_def length_item_bytes)
  qed
  have sign: "sign_field (Some (blob_of (sv_sign v))) = sv_sign v"
    using sh(3) by (simp add: sign_field_def blob_of_def)
  have cars: "concat (cars_fields (map (\<lambda>c. (c, float_text E (KMs c))) (sv_cars v))) = [word_of_nat (length (sv_cars v))] @
     (if sv_cars v = [] then [0] else concat (map (\<lambda>c. [ucast (bay c)] @ u32_bytes (carID c) @ u32_bytes (KMs c) @
        cardata c @ u32_bytes (engineCondition c)) (sv_cars v)))"
  proof -
    have "concat (concat (map (\<lambda>c. car_fields (c, float_text E (KMs c))) cs)) =
      concat (map (\<lambda>c. [ucast (bay c)] @ u32_bytes (carID c) @ u32_bytes (KMs c) @ cardata c @ u32_bytes (engineCondition c)) cs)" for cs
      by (induction cs) (simp_all add: car_fields_def)
    then show ?thesis by (simp add: cars_fields_def comp_def)
  qed
  show ?thesis
    unfolding login_fields_def Let_def reply_bytes_def saved_profile_def profile.simps concat_append
      garages items cars
    using sh(5)
    by (simp add: rivals sign saved_account_def account_fields_def team_number_def in_team_def not_le items [simplified]
        cars [simplified] garages [unfolded saved_account_def, simplified])
qed


section \<open>Examples\<close>

text \<open>The save of the account that is used for the save requests, with the rest of the profile above.\<close>

lemma restorable_bob: "restorable told_env (bobs_save [5, 6]) (bobs_profile\<lparr>pf_team := None\<rparr>)"
proof -
  have "save_shape (bobs_save [5, 6])" by (rule bobs_save_facts) simp
  moreover have "sint (0xFFFFFFFF :: u32) < 0" by simp
  ultimately show ?thesis
    by (simp add: restorable_def bobs_save_def bobs_profile_def bobs_account_def sample_account_def)
qed

lemma restored_bob:
  "list_all ask_ok (Finds (account_sql told_env ''bob'' ''xx'')
      [account_columns (saved_account (bobs_save [5, 6]) (pf_account (bobs_profile\<lparr>pf_team := None\<rparr>)))] #
    login_asks (saved_profile told_env (bobs_save [5, 6]) (bobs_profile\<lparr>pf_team := None\<rparr>)))"
  "length (reply_bytes 7 (bobs_save [5, 6]) (bobs_profile\<lparr>pf_team := None\<rparr>)) \<le> 8000"
proof -
  have null: "teamIDStr 0xFFFFFFFF = ''NULL''" by (simp add: teamIDStr_def)
  have ft: "float_text told_env w = ''0''" for w by (simp add: told_env_def)
  show "list_all ask_ok (Finds (account_sql told_env ''bob'' ''xx'')
      [account_columns (saved_account (bobs_save [5, 6]) (pf_account (bobs_profile\<lparr>pf_team := None\<rparr>)))] #
    login_asks (saved_profile told_env (bobs_save [5, 6]) (bobs_profile\<lparr>pf_team := None\<rparr>)))"
    using no_nul_dec null
    by (simp add: login_asks_def Let_def saved_profile_def saved_account_def bobs_save_def bobs_profile_def
        account_columns_def rank_asks_def garage_asks_def cars_asks_def car_asks_def car_columns_def items_asks_def
        sign_asks_def own_team_asks_def blob_of_ok ft item_bytes_def)
  have p: "length (pad_field 16 ''bob'') = 16" by (rule length_pad_field) simp
  then show "length (reply_bytes 7 (bobs_save [5, 6]) (bobs_profile\<lparr>pf_team := None\<rparr>)) \<le> 8000"
    by (simp add: reply_bytes_def bobs_save_def bobs_profile_def item_bytes_def own_team_fields_def)
qed


end
