(* ===== verification/Short_Replies.thy ===== *)
theory Short_Replies
  imports Login_Reply
begin

text \<open>
  The short replies of ClientAuth: logins that are refused, and the question whether a handle is taken.
\<close>

section \<open>Refused logins\<close>

text \<open>
  A login is refused because the rows that have the name and the password are not exactly one, or
  because the account is in use: the highest bit of its state is set.
\<close>

datatype refusal = Not_One "columns list" | In_Use account db_blob

fun refusal_ok :: "refusal \<Rightarrow> bool" where
  "refusal_ok (Not_One rows) \<longleftrightarrow> length rows \<noteq> 1"
| "refusal_ok (In_Use a rivals) \<longleftrightarrow> a_handle a \<noteq> ''NULL'' \<and> bit (a_state a) 31"

fun refusal_asks :: "'d env \<Rightarrow> cppstring \<Rightarrow> cppstring \<Rightarrow> refusal \<Rightarrow> ask list" where
  "refusal_asks E name password (Not_One rows) = [Finds (account_sql E name password) rows]"
| "refusal_asks E name password (In_Use a rivals) =
     [Finds (account_sql E name password) [account_columns a],
      Fetches (''SELECT rivalstatus FROM rival_data WHERE license = '' @ dec_word (a_license a)) rivals]"

fun refusal_fields :: "u32 \<Rightarrow> refusal \<Rightarrow> byte list list" where
  "refusal_fields player (Not_One rows) = [u32_bytes player, u32_bytes 0xFFFFFFFF]"
| "refusal_fields player (In_Use a rivals) = [u32_bytes player, u32_bytes (a_license a), [1]]"

lemma refusal_fits: "length (concat (refusal_fields player R)) \<le> 8000"
  by (cases R) simp_all

lemma replies_failed: "replies E (Some t) (login_failed k) [] 1 0 [u32_bytes k, u32_bytes 0xFFFFFFFF] () (Some t)"
  by (simp add: replies_def login_failed_run)

lemma replies_in_use:
  assumes "a_handle a \<noteq> ''NULL''" "bit (a_state a) 31"
  shows "replies E (Some [account_columns a]) (login_account E k)
    [Fetches (''SELECT rivalstatus FROM rival_data WHERE license = '' @ dec_word (a_license a)) b] 1 0
    [u32_bytes k, u32_bytes (a_license a), [1]] True None"
proof -
  have texts: "ac_license (account_texts a) = dec_word (a_license a)" "ac_state (account_values a) = dec_word (a_state a)"
    by (simp_all add: account_texts_def account_values_def)
  have "bit (a_state a AND 0x80000000) 31" using assms(2) bit_exp_iff [where ?'a = "32 word", of 31 31]
    by (simp add: bit_and_iff)
  then have st: "(a_state a AND 0x80000000 \<noteq> 0) = True" by auto
  have r: "replies E None (stm (already_logged_in k (account_values a)) (ret True)) [] 1 0
      [u32_bytes k, u32_bytes (a_license a), [1]] True None"
    by (simp add: replies_def stm_run ret_run already_logged_in_run)
  show ?thesis
    unfolding login_account_def
    apply (rule replies_eq)
      apply (rule replies_asks, rule asks_account)
      apply (rule replies_asks, rule asks_blob [where b = b])
      apply (simp only: Let_def account_defaults_texts [OF assms(1)] texts)
      apply (rule replies_asks, rule asks_stoul)
      apply (simp only: st if_True)
      apply (rule r)
    by (simp_all add: texts)
qed

lemma replies_refusal:
  assumes "refusal_ok R" "sha_ok E" "length name \<le> 4096"
  shows "replies E None (login_check E k (tolower name) (Some password)) (refusal_asks E name password R) 1 0
    (refusal_fields k R) () None"
proof (cases R)
  case (Not_One rows)
  have "replies E (Some rows) (bnd (if length rows = 1 then login_account E k else ret False)
      (\<lambda>good. if good then ret () else login_failed k)) [] 1 0 (refusal_fields k R) () (Some rows)"
    using assms(1) replies_failed by (simp add: Not_One bnd_ret)
  from replies_login_rows [OF assms(2,3) this, of password] show ?thesis
    by (simp add: Not_One replies_def)
next
  case (In_Use a b)
  then have "a_handle a \<noteq> ''NULL''" "bit (a_state a) 31" using assms(1) by simp_all
  from replies_one_account [OF assms(2,3) replies_in_use [OF this]] show ?thesis by (simp add: In_Use)
qed


section \<open>The check of a handle\<close>

definition handle_question :: "client \<Rightarrow> u32 \<Rightarrow> cppstring \<Rightarrow> bool" where
  "handle_question c player name \<longleftrightarrow>
     unat (getType (inbuf c)) = 1 \<and> getSubType (inbuf c) = 1 \<and> wf_packet (inbuf c) \<and> text_ok 16 name \<and>
     (\<exists>rest. drop 6 (buffer (inbuf c)) = u32_bytes player @ pad_field 16 name @ rest)"

text \<open>The reply: whether the handle is taken, and nothing when the database can not be opened.\<close>

definition handle_fields :: "u32 \<Rightarrow> columns list option \<Rightarrow> byte list list" where
  "handle_fields player found = u32_bytes player #
     (case found of None \<Rightarrow> [] | Some rows \<Rightarrow> [[if rows = [] then 0 else 1]])"

lemma handle_reads:
  assumes "handle_question (cl s) player name"
  shows "in_u32_at 6 s = Inr (player, s)" "in_string_at 10 0x10 s = Inr (name, s)"
proof -
  let ?p = "inbuf (cl s)"
  obtain rest where w: "wf_packet ?p" "text_ok 16 name"
    and r: "drop 6 (buffer ?p) = u32_bytes player @ pad_field 16 name @ rest"
    using assms by (auto simp: handle_question_def)
  have "block 6 4 (buffer ?p) = u32_bytes player" by (simp add: block_def r)
  then show "in_u32_at 6 s = Inr (player, s)"
    by (simp add: in_u32_at_def get_bytes_at_def CLIENT_BUFFER_SIZE_def c32.dec_enc)
  have "drop 10 (buffer ?p) = drop 4 (drop 6 (buffer ?p))" by simp
  also have "\<dots> = pad_field 16 name @ rest" by (simp only: r) simp
  finally have d: "drop 10 (buffer ?p) = pad_field 16 name @ rest" .
  obtain m where "16 - length name = Suc m" using w(2) by (auto simp: text_ok_def dest: less_imp_Suc_add)
  then have "cstr (pad_field 16 name @ rest) = bytes_of name"
    using w(2) pad_field_text [OF w(2)] by (simp add: text_ok_def bytes_of_no_nul cstr_append_nul)
  then have "c_string_at 10 ?p = Inr name" using c_string_at_wf [OF w(1), of 10] d by simp
  then show "in_string_at 10 0x10 s = Inr (name, s)"
    by (simp add: in_string_at_def getString_sized_def CLIENT_BUFFER_SIZE_def string_max_size_def copy_ok_def)
qed

lemma handle_check_runs:
  assumes "handle_question (cl s) player name" "Open (api E) (sdb s) = Inr (r, D)"
    and "found = None \<longleftrightarrow> r \<noteq> DB_OK"
    and "\<forall>rows. found = Some rows \<longrightarrow> answers E D [Finds (handle_sql (hex (bytes_of (tolower name)))) rows] = Some D'"
  shows "\<exists>D''. ClientAuth E s =
    Inr (FallOut, \<lparr>cl = (cl s)\<lparr>outbuf := message_of 1 1 (handle_fields player found)\<rparr>, sdb = D''\<rparr>)"
proof -
  let ?h = "hex (bytes_of (tolower name))"
  let ?u = "set_out (message_of 1 1 [u32_bytes player]) s" and ?m = "message_of 1 1 (handle_fields player found)"
  have "length (tolower name) \<le> 4096" using assms(1) by (simp add: handle_question_def text_ok_def tolower_def)
  then have hx: "hex_of_string (tolower name) s = Inr (?h, s)" by (rule hex_text_run)
  have "writes (steps [out_u32 player]) ([u32_bytes player] @ [])" by (intro writes_rules)
  from reply_run [OF this, of 1 1 s] have st: "steps [start_reply 1 1, out_u32 player] s = Inr ((), ?u)" by simp
  have o: "db_open E ?u = Inr (r, ?u\<lparr>sdb := D\<rparr>)"
    using assms(2) by (simp add: db_open_def on_db_def set_out_def)
  have run: "ClientAuth E s = (stm (whenP (r = DB_OK) (steps
        [bnd (db_exec E (handle_sql ?h)) (\<lambda>res. if res \<noteq> 0 then out_u8 1 else out_u8 0), db_close_only E]))
      (ret FallOut)) (?u\<lparr>sdb := D\<rparr>)"
    using assms(1) handle_reads [OF assms(1)]
    by (simp add: ClientAuth_def handle_check_def handle_question_def bnd_run gets_run hx stm_run [of "steps _"] st o
        del: steps.simps)
  show ?thesis
  proof (cases "r = DB_OK")
    case False
    then have "found = None" using assms(3) by simp
    moreover have "s\<lparr>cl := c, sdb := D\<rparr> = \<lparr>cl = c, sdb = D\<rparr>" for c by (cases s) simp
    ultimately show ?thesis using False
      by (intro exI [of _ D]) (simp add: run stm_run whenP_run ret_run handle_fields_def set_out_def)
  next
    case True
    then obtain rows where rows: "found = Some rows" using assms(3) by (cases found) simp_all
    let ?q = "handle_sql ?h" and ?b = "[if rows = [] then 0 else 1] :: byte list"
    have "serves E None (bnd (db_exec E ?q) (\<lambda>res. if res \<noteq> 0 then out_u8 1 else out_u8 0)) ([Finds ?q rows] @ [])
        ([] @ [?b]) () (Some rows)"
      by (rule serves_bnd [OF serves_db(1)]) (cases "rows = []", simp_all add: serves_out)
    from servesD(1) [OF this, of "?u\<lparr>sdb := D\<rparr>" D' 1 1 "[u32_bytes player]"] rows assms(4)
    have q: "bnd (db_exec E ?q) (\<lambda>res. if res \<noteq> 0 then out_u8 1 else out_u8 0) (?u\<lparr>sdb := D\<rparr>) =
        Inr ((), set_out ?m (?u\<lparr>sdb := D'\<rparr>))"
      by (simp add: set_out_def handle_fields_def)
    obtain m t where t: "db_close E (set_out ?m (?u\<lparr>sdb := D'\<rparr>)) = Inr (m, t)"
      "cl t = cl (set_out ?m (?u\<lparr>sdb := D'\<rparr>))" using db_close_total by blast
    have "ClientAuth E s = Inr (FallOut, t)"
      unfolding run using True by (simp add: stm_run whenP_run q db_close_only_def bnd_run [of "db_close E"] t(1) ret_run)
    then show ?thesis using t(2) by (intro exI [of _ "sdb t"]) (cases t, simp add: set_out_def)
  qed
qed

text \<open>
  C30: The question of a game server whether a handle is taken is answered with the player's connection and
  one byte, which says whether the database finds an account whose handle is the same in lower case; when the
  database can not be opened, the byte is missing. The reply is one more frame in the queue of the
  connection that asked, and no other connection is touched.
\<close>

theorem handle_check_is_answered:
  assumes "server_ok s" "k < length (connections s)" "heard (connections s ! k)"
    and "handle_question (connections s ! k) player name"
    and "db s = Some DB" "Open (api E) DB = Inr (r, D)" "found = None \<longleftrightarrow> r \<noteq> DB_OK"
    and "\<forall>rows. found = Some rows \<longrightarrow> answers E D [Finds (handle_sql (hex (bytes_of (tolower name)))) rows] = Some D'"
  shows "\<exists>q D''. ProcessPacket E k s = Inr (s\<lparr>connections := (connections s)
    [k := (enqueue (padded_entry (message_frame (message_of 1 1 (handle_fields player found)))) (connections s ! k))
      \<lparr>outbuf := q\<rparr>], db := Some D''\<rparr>)"
proof -
  let ?c = "connections s ! k" and ?msg = "message_of 1 1 (handle_fields player found)"
  let ?s = "\<lparr>cl = ?c, sdb = DB\<rparr>"
  have req: "handle_question (cl ?s) player name" "Open (api E) (sdb ?s) = Inr (r, D)" using assms(4,6) by simp_all
  obtain D'' where "ClientAuth E ?s = Inr (FallOut, \<lparr>cl = ?c\<lparr>outbuf := ?msg\<rparr>, sdb = D''\<rparr>)"
    using handle_check_runs [OF req assms(7,8)] by auto
  then have h: "handler_of E (unat (getType (inbuf ?c))) ?s =
      Inr (FallOut, \<lparr>cl = ?c\<lparr>inbuf := inbuf ?c, outbuf := ?msg\<rparr>, sdb = D''\<rparr>)"
    using assms(4) by (simp add: handler_of_def handle_question_def)
  have "length (concat (handle_fields player found)) \<le> 8000" by (simp add: handle_fields_def split: option.split)
  moreover have "(enqueue e c)\<lparr>inbuf := inbuf c, outbuf := q\<rparr> = (enqueue e c)\<lparr>outbuf := q\<rparr>" for e c q
    by (simp add: enqueue_def)
  ultimately show ?thesis using reply_is_queued [OF assms(1-3,5) h message_ok_request] by metis
qed

section \<open>Examples\<close>


text \<open>The handle Bob is taken.\<close>

definition bobs_handle :: "byte list list" where
  "bobs_handle = [u32_bytes 7, pad_field 16 ''Bob'']"

theorem handle_check_is_answered_witness:
  "\<exists>d t. ProcessPacket told_env 0 (told_server ((sample_slot True)\<lparr>inbuf := message_of 1 1 bobs_handle\<rparr>) d) = Inr t \<and>
    sendQueue (connections t ! 0) = [padded_entry (message_frame (message_of 1 1 [u32_bytes 7, [1]]))]"
proof -
  let ?c = "(sample_slot True)\<lparr>inbuf := message_of 1 1 bobs_handle\<rparr>"
  let ?as = "[Finds (handle_sql (hex (bytes_of (tolower ''Bob'')))) [[(''handle'', ''bob'')]]]"
  let ?d = "map tell_of ?as"
  have len: "length (concat bobs_handle) = 20"
    using pad_field_text [of 16 "''Bob''"] by (simp add: bobs_handle_def text_ok_def)
  then have l: "length (concat bobs_handle) \<le> 8000" "10 \<le> length (concat bobs_handle)" by simp_all
  have "unat (1 :: u16) \<in> {1, 2, 4}" by simp
  note h = heard_request [OF l this, of 1]
  have "drop 6 (buffer (inbuf ?c)) = u32_bytes 7 @ pad_field 16 ''Bob'' @ replicate (8186 - 20) 0"
    using h(5) len by (simp add: bobs_handle_def)
  then have q: "handle_question ?c 7 ''Bob''"
    using h(3,4,7) by (simp add: handle_question_def text_ok_def)
  obtain D' where D': "answers told_env (told_db ?d) ?as = Some D'"
    using told_answers [of ?as "told_db ?d"] by auto
  have f: "handle_fields 7 (Some [[(''handle'', ''bob'')]]) = [u32_bytes 7, [1]]" by (simp add: handle_fields_def)
  have "sendQueue ?c = []" by (simp add: sample_slot_def new_CLIENT_def Initialize_def ClearSendQueue_def)
  moreover have "connections (told_server ?c ?d) ! 0 = ?c" by simp
  ultimately show ?thesis
    using handle_check_is_answered [where s = "told_server ?c ?d" and k = 0 and E = told_env and player = 7
        and name = "''Bob''" and DB = "told_db ?d" and D = "told_db ?d" and r = DB_OK
        and found = "Some [[(''handle'', ''bob'')]]" and D' = D']
      h(1,2) q D' told_Open [of "told_db ?d"]
    unfolding f by (auto simp: enqueue_def intro!: exI [of _ ?d])
qed

end
