(* ===== verification/Arrival.thy ===== *)
theory Arrival
  imports Delivery Connection_Properties
begin

text \<open>
  From the bytes of a socket to the handlers: what an attempt to receive does to the whole server, as one
  equation over the frame it completes.
\<close>

section \<open>The frame that arrives\<close>

text \<open>
  The slot with the frame in its packet. The bytes behind the frame are those of earlier frames. A frame of
  the full size of the buffer is not copied, so the packet of the slot is the one that was there before.
\<close>

definition arrived :: "byte list \<Rightarrow> client \<Rightarrow> client" where
  "arrived f c =
     (let b = (if length f < 8192 then f @ drop (length f) (buffer (inbuf c)) else buffer (inbuf c))
      in c\<lparr>inbuf := (inbuf c)\<lparr>buffer := b, pSize := bytes_u16 (take 2 b)\<rparr>\<rparr>)"

lemma next_frame_size:
  assumes "next_frame p = Some (f, rest)"
  shows "6 \<le> length f" "length f = entry_size f + 2" "p = f @ rest"
proof -
  let ?n = "(entry_size p + 2) mod 65536"
  have n: "6 \<le> ?n" "?n \<le> length p" "f = take ?n p" "rest = drop ?n p"
    using assms by (simp_all add: next_frame_def Let_def split: if_splits)
  then show "6 \<le> length f" "p = f @ rest" by simp_all
  have "entry_size p < 65536" using unsigned_less [of "bytes_u16 (take 2 p)"] by (simp add: entry_size_def)
  then have "entry_size p + 2 < 65536 \<or> entry_size p = 65534 \<or> entry_size p = 65535" by arith
  then have "entry_size p + 2 < 65536" using n(1) by auto
  moreover have "entry_size f = entry_size p" using n(1,3) by (simp add: entry_size_def min_def)
  ultimately show "length f = entry_size f + 2" using n by simp
qed

lemma load_packet_run:
  assumes "wf_packet (inbuf c)" "length f \<le> 8192"
  shows "load_packet (word_of_nat (length f)) f c = Inr (arrived f c)"
proof -
  have n: "unat (word_of_nat (length f) :: u32) = length f" using assms(2) by (simp add: unat_of_nat)
  have len: "length (buffer (inbuf c)) = 8192" using assms(1) by (rule wf_length)
  show ?thesis
    using len n
    by (simp add: load_packet_def setArray_def n CLIENT_BUFFER_SIZE_def copy_ok_def arrived_def Let_def
        overwrite_def getSizeFromBuffer_def setSize_def block_def)
qed

lemma arrived_fields:
  assumes "next_frame p = Some (f, rest)" "length f < 8192"
  shows "getType (inbuf (arrived f c)) = bytes_u16 (block 2 2 f)"
    and "getSubType (inbuf (arrived f c)) = bytes_u16 (block 4 2 f)"
    and "unat (pSize (inbuf (arrived f c))) = length f - 2"
proof -
  note f = next_frame_size [OF assms(1)]
  show "getType (inbuf (arrived f c)) = bytes_u16 (block 2 2 f)"
    "getSubType (inbuf (arrived f c)) = bytes_u16 (block 4 2 f)"
    using f(1) assms(2) by (simp_all add: arrived_def Let_def getType_def getSubType_def block_def)
  show "unat (pSize (inbuf (arrived f c))) = length f - 2"
    using f(1,2) assms(2) by (simp add: arrived_def Let_def entry_size_def)
qed

lemma arrived_link [simp]: "same_link c (arrived f c)" "same_peer c (arrived f c)"
  "todc (arrived f c) = todc c" "isAuth (arrived f c) = isAuth c" "slot_used (arrived f c) = slot_used c"
  "sendQueue (arrived f c) = sendQueue c"
  by (simp_all add: arrived_def Let_def same_link_def same_peer_def slot_used_def)

lemma deliver_peer:
  assumes "slot_ok c" "room c bs"
  shows "same_peer c (deliver bs c)"
  using received_ok(2) [OF assms(1)] assms by (simp add: deliver_def room_def length_received)

lemma deliver_fields [simp]:
  "todc (deliver bs c) = todc c" "isAuth (deliver bs c) = isAuth c" "slot_used (deliver bs c) = slot_used c"
  "inbuf (deliver bs c) = inbuf c" "sendQueue (deliver bs c) = sendQueue c"
  "snddata (deliver bs c) = snddata c" "sndbuf (deliver bs c) = sndbuf c"
  by (simp_all add: deliver_def note_size_def store_received_def Let_def slot_used_def)

text \<open>A frame that is completed by a delivery is loaded into the slot's packet.\<close>

lemma frame_loaded:
  assumes "slot_ok c" "room c bs" "next_frame (received c @ bs) = Some (f, rest)"
  shows "ucast (packetsize (deliver bs c)) = (word_of_nat (length f) :: u32)"
    and "load_packet (word_of_nat (length f)) f (deliver bs c) = Inr (arrived f (deliver bs c))"
    and "slot_ok (arrived f (deliver bs c))"
proof -
  let ?d = "deliver bs c"
  note nf = next_frame_of_delivery [OF assms]
  have ok: "slot_ok ?d" using deliver_ok [OF assms(1,2)] .
  show size: "ucast (packetsize ?d) = (word_of_nat (length f) :: u32)"
    using nf(2,4) by (simp add: word_unat_eq_iff unat_ucast_u32 unat_of_nat)
  have "wf_packet (inbuf ?d)" using ok by (simp add: slot_ok_def)
  then show l: "load_packet (word_of_nat (length f)) f ?d = Inr (arrived f ?d)" using nf(4) by (rule load_packet_run)
  show "slot_ok (arrived f ?d)" using load_packet_ok [OF ok nf(1)] by (simp add: size nf(2,3) l)
qed

lemma arriving_frame:
  assumes "server_ok s" "k < length (connections s)" "slot_used (connections s ! k)"
    and "bs \<noteq> []" "room (connections s ! k) bs"
  shows "case next_frame (received (connections s ! k) @ bs) of
      None \<Rightarrow> Recv E k (Received bs r) s =
        Inr (True, s\<lparr>connections := (connections s)[k := deliver bs (connections s ! k)]\<rparr>)
    | Some (f, rest) \<Rightarrow>
        (case ProcessPacket E k (s\<lparr>connections := (connections s)[k := arrived f (deliver bs (connections s ! k))]\<rparr>) of
           Inl e \<Rightarrow> Recv E k (Received bs r) s = Inl e
         | Inr u \<Rightarrow> received (drop_frame (connections u ! k)) = rest \<and> Recv E k (Received bs r) s =
             Inr (True, u\<lparr>connections := (connections u)[k := drop_frame (connections u ! k)]\<rparr>))"
proof (cases "next_frame (received (connections s ! k) @ bs)")
  case None
  have slot: "slot_ok (connections s ! k)" using assms(1,2) by (rule server_ok_slot)
  have "\<not> frame_complete (deliver bs (connections s ! k))"
    using deliver_size(1) [OF slot assms(5)] deliver_received [OF slot assms(5)] None by simp
  then show ?thesis using None Recv_run [OF assms(2,4), of E r] by (simp add: Let_def)
next
  case (Some fr)
  obtain f rest where fr: "next_frame (received (connections s ! k) @ bs) = Some (f, rest)"
    using Some by (cases fr) simp
  let ?c = "connections s ! k"
  let ?d = "deliver bs ?c"
  have slot: "slot_ok ?c" using assms(1,2) by (rule server_ok_slot)
  note nf = next_frame_of_delivery [OF slot assms(5) fr] and l = frame_loaded [OF slot assms(5) fr]
  let ?s = "s\<lparr>connections := (connections s)[k := arrived f ?d]\<rparr>"
  have "(6 :: u32) \<le> word_of_nat (length f)"
    using next_frame_size(1) [OF fr] nf(4) by (simp add: word_le_nat_alt unat_of_nat)
  moreover have "\<not> CLIENT_BUFFER_SIZE < unat (pSize (inbuf (arrived f ?d)))" using l(3) by (simp add: slot_ok_def)
  ultimately have check: "CheckClientPackets E k (word_of_nat (length f)) f (s\<lparr>connections := (connections s)[k := ?d]\<rparr>) =
      ProcessPacket E k ?s"
    using assms(2) l(2) by (simp add: CheckClientPackets_def)
  have run: "Recv E k (Received bs r) s = (case ProcessPacket E k ?s of Inl e \<Rightarrow> Inl e
      | Inr u \<Rightarrow> Inr (True, u\<lparr>connections := (connections u)[k := drop_frame (connections u ! k)]\<rparr>))"
    using Recv_run [OF assms(2,4), of E r] nf(1-4) by (simp add: Let_def l(1) check)
  show ?thesis
  proof (cases "ProcessPacket E k ?s")
    case (Inr u)
    have good: "Recv E k (Received bs r) s =
        Inr (True, u\<lparr>connections := (connections u)[k := drop_frame (connections u ! k)]\<rparr>)" using run Inr by simp
    have "server_ok ?s" using assms(1,2) l(3)
      by (rule server_ok_slot_change) (rule same_peer_trans [OF deliver_peer [OF slot assms(5)] arrived_link(2)])
    then have "length (connections u) = length (connections s)"
      using ProcessPacket_ok [OF Inr] assms(2) slot_used_same [OF deliver_peer [OF slot assms(5)]] assms(3)
      by (fastforce dest: stays_ok_length)
    then show ?thesis using Recv_handles_the_next_frame [OF assms good] Inr good fr assms(2) by simp
  qed (simp add: fr run)
qed

text \<open>
  C6: Receiving bytes on a connection is exact. When they do not complete a frame they are only kept. When they do,
  the attempt is what \<open>ProcessPacket\<close> does to the slot that holds the frame as its packet: it ends the program
  where \<open>ProcessPacket\<close> does, and otherwise the frame leaves the receive buffer and all that arrived behind it
  stays. A frame of the full size of the buffer is not loaded: the packet of the request before it is processed again.
\<close>

theorem arriving_frame_is_processed:
  assumes "server_ok s" "k < length (connections s)" "slot_used (connections s ! k)"
    and "bs \<noteq> []" "room (connections s ! k) bs"
  shows "case next_frame (received (connections s ! k) @ bs) of
      None \<Rightarrow> Recv E k (Received bs r) s =
        Inr (True, s\<lparr>connections := (connections s)[k := deliver bs (connections s ! k)]\<rparr>)
    | Some (f, rest) \<Rightarrow>
        (case ProcessPacket E k (s\<lparr>connections := (connections s)[k := arrived f (deliver bs (connections s ! k))]\<rparr>) of
           Inl e \<Rightarrow> Recv E k (Received bs r) s = Inl e
         | Inr u \<Rightarrow> received (drop_frame (connections u ! k)) = rest \<and> Recv E k (Received bs r) s =
             Inr (True, u\<lparr>connections := (connections u)[k := drop_frame (connections u ! k)]\<rparr>))"
  using assms by (rule arriving_frame)

text \<open>
  The first frame of a peer that is not authenticated, with one byte of the next behind it: it is
  refused, and the byte is kept.
\<close>

theorem arriving_frame_is_processed_witness:
  "\<exists>u. Recv sample_env 0 (Received [4, 0, 1, 0, 0, 0, 7] False) (sample_server (sample_slot False) []) =
      Inr (True, u\<lparr>connections := (connections u)[0 := drop_frame (connections u ! 0)]\<rparr>) \<and>
    received (drop_frame (connections u ! 0)) = [7]"
proof -
  let ?s = "sample_server (sample_slot False) []" and ?bs = "[4, 0, 1, 0, 0, 0, 7] :: byte list"
  have conn: "connections ?s = [sample_slot False]" by (simp add: sample_server_def)
  have used: "slot_used (sample_slot False)" by (simp add: sample_slot_def slot_used_def)
  have room: "room (sample_slot False) ?bs" by (simp add: room_def)
  have nf: "next_frame ?bs = Some ([4, 0, 1, 0, 0, 0], [7])" by (simp add: next_frame_def entry_size_def)
  let ?a = "arrived [4, 0, 1, 0, 0, 0] (deliver ?bs (sample_slot False))"
  have ok: "slot_ok ?a" using frame_loaded(3) [OF slot_ok_sample room] nf by simp
  have "\<not> todc (sample_slot False)" "\<not> isAuth (sample_slot False)" by (simp_all add: sample_slot_def new_CLIENT_def Initialize_def ClearSendQueue_def)
  then have n: "getType (inbuf ?a) = 1" "\<not> isAuth ?a" "\<not> todc ?a"
    using arrived_fields(1) [OF nf] by (simp_all add: block_def sample_inbuf)
  have "\<exists>u. ProcessPacket sample_env 0 (?s\<lparr>connections := [?a]\<rparr>) = Inr u"
    using ok n by (simp add: ProcessPacket_run Let_def refused_def)
  then obtain u where "ProcessPacket sample_env 0 (?s\<lparr>connections := [?a]\<rparr>) = Inr u" by blast
  then have "received (drop_frame (connections u ! 0)) = [7] \<and> Recv sample_env 0 (Received ?bs False) ?s =
      Inr (True, u\<lparr>connections := (connections u)[0 := drop_frame (connections u ! 0)]\<rparr>)"
    using arriving_frame_is_processed [OF sample_server_ok, of 0 False "[]" ?bs sample_env False] nf
    by (simp add: conn used room)
  then show ?thesis by blast
qed

end
