(* ===== verification/Wire_Requests.thy ===== *)
theory Wire_Requests
  imports Arrival Login_Reply Fault_Properties
begin

text \<open>
  Requests as the bytes of a connection: what becomes of the whole server between the bytes that
  arrive on a socket and the bytes that wait to be sent on it.
\<close>

section \<open>Frames that end the program\<close>


section \<open>Requests that are answered\<close>

text \<open>A reply that \<open>ProcessPacket\<close> queues waits behind what was to be sent before.\<close>

lemma reply_on_the_wire:
  defines "a s k bs f \<equiv> arrived f (deliver bs (connections s ! k))"
  assumes "server_ok s" "k < length (connections s)" "slot_used (connections s ! k)"
    and "bs \<noteq> []" "room (connections s ! k) bs" "next_frame (received (connections s ! k) @ bs) = Some (f, rest)"
    and "ProcessPacket E k (s\<lparr>connections := (connections s)[k := a s k bs f]\<rparr>) = Inr (s\<lparr>connections := (connections s)
      [k := (enqueue (padded_entry (message_frame m)) (a s k bs f))\<lparr>inbuf := p, outbuf := q\<rparr>], db := Some D\<rparr>)"
    and "message_ok m"
  shows "\<exists>t. Recv E k (Received bs r) s = Inr (True, t) \<and> received (connections t ! k) = rest \<and>
    unsent (connections t ! k) = unsent (connections s ! k) @ message_frame m \<and>
    connections t = (connections s)[k := connections t ! k]"
proof -
  let ?d = "(enqueue (padded_entry (message_frame m)) (a s k bs f))\<lparr>inbuf := p, outbuf := q\<rparr>"
  let ?t = "s\<lparr>connections := (connections s)[k := drop_frame ?d], db := Some D\<rparr>"
  have "received (drop_frame ?d) = rest \<and> Recv E k (Received bs r) s = Inr (True, ?t)"
    using arriving_frame [OF assms(2-6), of E r] assms(3,8) unfolding a_def by (simp add: assms(7))
  moreover have "unsent (drop_frame ?d) = unsent (connections s ! k) @ message_frame m"
    using frame_entry(1) [OF assms(9)]
    by (simp add: unsent_def drop_frame_def Let_def enqueue_def a_def arrived_def)
  ultimately show ?thesis using assms(3) by (intro exI [of _ ?t]) simp
qed


section \<open>Examples\<close>

lemma sample_slot_facts: "isAuth (sample_slot True)" "\<not> todc (sample_slot auth)" "slot_used (sample_slot auth)"
  "unsent (sample_slot auth) = []"
  by (simp_all add: unsent_def sample_slot_def new_CLIENT_def Initialize_def ClearSendQueue_def slot_used_def)


text \<open>The frame of Bob's login.\<close>

definition bobs_frame :: "byte list" where
  "bobs_frame = u16_bytes 32 @ u16_bytes 1 @ u16_bytes 0 @ concat bobs_fields @ [0, 0]"

lemma bobs_frame_arrives:
  defines "c \<equiv> arrived bobs_frame (deliver bobs_frame (sample_slot True))"
  shows "next_frame bobs_frame = Some (bobs_frame, [])" "room (sample_slot True) bobs_frame"
    and "heard c" "login_request told_env c 7 ''bob'' ''xx''"
proof -
  have pad: "length (pad_field 20 ''bob'') = 20" using pad_field_text [of 20 "''bob''"] by (simp add: text_ok_def)
  then have len: "length bobs_frame = 34" by (simp add: bobs_frame_def bobs_fields_def)
  have size: "entry_size bobs_frame = 32" by (simp add: entry_size_def bobs_frame_def c16.dec_enc)
  then show nf: "next_frame bobs_frame = Some (bobs_frame, [])" by (simp add: next_frame_def Let_def len)
  show room: "room (sample_slot True) bobs_frame" by (simp add: room_def len)
  have "block 2 2 bobs_frame = u16_bytes 1" "block 4 2 bobs_frame = u16_bytes 0"
    by (simp_all add: bobs_frame_def block_def)
  then have t: "getType (inbuf c) = 1" "getSubType (inbuf c) = 0" "unat (pSize (inbuf c)) = 32"
    unfolding c_def using arrived_fields [OF nf] len by (simp_all add: c16.dec_enc)
  have ok: "slot_ok c" unfolding c_def using frame_loaded(3) [OF slot_ok_sample room] nf by simp
  have "isAuth c" "\<not> todc c" "slot_used c" by (simp_all add: c_def sample_slot_facts)
  then show "heard c" using t by (simp add: heard_def)
  have "buffer (inbuf c) = bobs_frame @ replicate (8192 - 34) 0"
    unfolding c_def arrived_def Let_def by (simp add: len sample_inbuf init_packet_def zero_buffer_def del: deliver_fields)
  moreover have "drop 6 bobs_frame = u32_bytes 7 @ pad_field 20 ''bob'' @ [120, 120, 0, 0]"
    by (simp add: bobs_frame_def bobs_fields_def)
  ultimately have "drop 6 (buffer (inbuf c)) = u32_bytes 7 @ pad_field 20 ''bob'' @ [120, 120, 0, 0] @ replicate (8192 - 34) 0"
    by (simp add: len)
  moreover have "cstr ([120, 120, 0, 0] @ replicate (8192 - 34) 0) = [120, 120]"
    using cstr_append_nul [of "[120, 120]"] by simp
  moreover have "string_of [120, 120] = ''xx''"
    using string_of_bytes_of [of "''xx''"] by (simp add: bytes_of_def byte_of_def)
  ultimately show "login_request told_env c 7 ''bob'' ''xx''"
    using t ok by (auto simp: login_request_def asks_login_def text_ok_def slot_ok_def)
qed


end
