(* ===== verification/Garage_Requests.thy ===== *)
theory Garage_Requests
  imports Delivery Team_Properties
begin

text \<open>
  The requests for the cars of a garage, swap_car and remove_car: the statement that is sent, and what it does
  to the rows of the table.
\<close>

section \<open>Statements on the table of cars\<close>

text \<open>
  The two forms of statement that the requests use, as SQL text and as what SQL says they do. A row has a license, a
  bay, which may be NULL, and its car. A condition is a disjunction of bays of licenses; \<open>CASE\<close> without
  a match is NULL.
\<close>

datatype bay_value = Plain nat | Case_Bay "(nat \<times> nat) list"

datatype garage_stmt = Set_Bay bay_value "(nat \<times> nat) list" | Delete_Cars "(nat \<times> nat) list"

type_synonym 'a car_row = "nat \<times> nat option \<times> 'a"

fun value_text :: "bay_value \<Rightarrow> cppstring" where
  "value_text (Plain n) = dec n"
| "value_text (Case_Bay ws) =
     ''CASE bay'' @ concat (map (\<lambda>(a, b). '' WHEN '' @ dec a @ '' THEN '' @ dec b) ws) @ '' END''"

definition bay_text :: "nat \<times> nat \<Rightarrow> cppstring" where
  "bay_text = (\<lambda>(b, l). ''bay = '' @ dec b @ '' AND license = '' @ dec l)"

fun or_text :: "cppstring list \<Rightarrow> cppstring" where
  "or_text [] = []"
| "or_text [t] = ''('' @ t @ '')''"
| "or_text (t # ts) = ''('' @ t @ '') OR '' @ or_text ts"

fun where_text :: "(nat \<times> nat) list \<Rightarrow> cppstring" where
  "where_text [w] = bay_text w"
| "where_text ws = or_text (map bay_text ws)"

fun stmt_text :: "garage_stmt \<Rightarrow> cppstring" where
  "stmt_text (Set_Bay v ws) = ''UPDATE garage_data SET bay = '' @ value_text v @ '' WHERE '' @ where_text ws"
| "stmt_text (Delete_Cars ws) = ''DELETE FROM garage_data WHERE '' @ where_text ws"

definition selects :: "(nat \<times> nat) list \<Rightarrow> 'a car_row \<Rightarrow> bool" where
  "selects ws = (\<lambda>(l, b, c). list_ex (\<lambda>(bay, lic). b = Some bay \<and> l = lic) ws)"

fun value_of :: "bay_value \<Rightarrow> nat option \<Rightarrow> nat option" where
  "value_of (Plain n) b = Some n"
| "value_of (Case_Bay ws) b = Option.bind b (map_of ws)"

fun stmt_effect :: "garage_stmt \<Rightarrow> 'a car_row list \<Rightarrow> 'a car_row list" where
  "stmt_effect (Set_Bay v ws) rows =
     map (\<lambda>(l, b, c). if selects ws (l, b, c) then (l, value_of v b, c) else (l, b, c)) rows"
| "stmt_effect (Delete_Cars ws) rows = filter (\<lambda>r. \<not> selects ws r) rows"

section \<open>The requests\<close>

datatype car_request = Rebay byte u32 u32 | Remove byte

fun car_sub :: "car_request \<Rightarrow> u16" where
  "car_sub (Rebay f a b) = 1"
| "car_sub (Remove b) = 2"

fun car_request_bytes :: "u32 \<Rightarrow> car_request \<Rightarrow> byte list" where
  "car_request_bytes license (Rebay f a b) = u32_bytes license @ [f] @ u32_bytes a @ u32_bytes b"
| "car_request_bytes license (Remove b) = u32_bytes license @ [b]"

definition asks_for_cars :: "client \<Rightarrow> u32 \<Rightarrow> car_request \<Rightarrow> bool" where
  "asks_for_cars c license R \<longleftrightarrow>
     unat (getType (inbuf c)) = 2 \<and> getSubType (inbuf c) = car_sub R \<and> wf_packet (inbuf c) \<and>
     (\<exists>rest. drop 6 (buffer (inbuf c)) = car_request_bytes license R @ rest)"

fun car_stmt :: "u32 \<Rightarrow> car_request \<Rightarrow> garage_stmt" where
  "car_stmt license (Rebay f a b) =
     (if f \<noteq> 0
      then Set_Bay (Case_Bay [(unat a, unat b), (unat b, unat a)]) [(unat a, unat license), (unat b, unat license)]
      else Set_Bay (Plain (unat b)) [(unat a, unat license)])"
| "car_stmt license (Remove b) = Delete_Cars [(unat b, unat license)]"

text \<open>What the requests are for: where a car of the account is afterwards, or \<open>None\<close> when it is gone.\<close>

fun bay_after :: "car_request \<Rightarrow> nat \<Rightarrow> nat option" where
  "bay_after (Rebay f a b) x =
     Some (if x = unat a then unat b else if f \<noteq> 0 \<and> x = unat b then unat a else x)"
| "bay_after (Remove b) x = (if x = unat b then None else Some x)"

fun car_after :: "u32 \<Rightarrow> car_request \<Rightarrow> 'a car_row \<Rightarrow> 'a car_row list" where
  "car_after license R (l, b, c) =
     (if l = unat license
      then (case b of None \<Rightarrow> [(l, b, c)]
            | Some x \<Rightarrow> (case bay_after R x of None \<Rightarrow> [] | Some y \<Rightarrow> [(l, Some y, c)]))
      else [(l, b, c)])"

lemma car_stmt_effect: "stmt_effect (car_stmt license R) rows = concat (map (car_after license R) rows)"
  by (cases R; induction rows) (auto simp: selects_def split: option.splits if_splits)

lemma swap_text: "sql (swap_sql license a b) = stmt_text (car_stmt license (Rebay f a b))" if "f \<noteq> 0"
  using that by (simp add: swap_sql_def bay_text_def)

lemma move_text: "sql [''UPDATE garage_data SET bay = '', dec_word b, '' WHERE bay = '', dec_word a, '' AND license = '',
    dec_word license] = stmt_text (car_stmt license (Rebay 0 a b))"
  by (simp add: bay_text_def)

lemma remove_text: "sql [''DELETE FROM garage_data WHERE bay = '', dec_word (ucast b :: u32), '' AND license = '',
    dec_word license] = stmt_text (car_stmt license (Remove b))"
proof -
  have "unat (ucast b :: u32) = unat b" using unat_less [of b] by (simp add: unsigned_ucast_eq take_bit_nat_eq_self)
  then show ?thesis by (simp add: bay_text_def)
qed

section \<open>The handlers\<close>

lemma reads_u8_wide: "reads in_u8_wide [b] (ucast b)"
  unfolding reads_def
proof (intro allI impI)
  fix s :: "'a session" and rest assume "asks s ([b] @ rest)"
  then have "in_u8 s = Inr (b, skip_in (length [b]) s)" using reads_u8 [of b] unfolding reads_def by blast
  then show "in_u8_wide s = Inr (ucast b, skip_in (length [b]) s)" by (simp add: in_u8_wide_def bnd_run ret_run)
qed

text \<open>Both requests read their fields, and then send one statement to an open database and close it.\<close>

definition garage_program :: "'d env \<Rightarrow> u32 \<Rightarrow> car_request \<Rightarrow> ('d session, after) prog" where
  "garage_program E license R =
     bnd (db_open E) (\<lambda>res. stm (whenP (res = DB_OK)
       (steps [run_sql E [stmt_text (car_stmt license R)], db_close_only E])) (ret Return))"

lemma car_request_reads:
  assumes "asks_for_cars (cl s) license R"
  shows "\<exists>p. ClientRequests E s = garage_program E license R (s\<lparr>cl := (cl s)\<lparr>inbuf := p\<rparr>\<rparr>)"
proof -
  let ?s = "s\<lparr>cl := (cl s)\<lparr>inbuf := setOffset 6 (inbuf (cl s))\<rparr>\<rparr>"
  obtain rest where r: "drop 6 (buffer (inbuf (cl s))) = car_request_bytes license R @ rest"
    using assms by (auto simp: asks_for_cars_def)
  then have a: "asks ?s (car_request_bytes license R @ rest)"
    using assms by (simp add: asks_def unread_def setOffset_def asks_for_cars_def wf_packet_def)
  have c: "ClientRequests E s = (case R of Rebay f a b \<Rightarrow> swap_car E | Remove b \<Rightarrow> remove_car E) ?s"
    using assms by (cases R) (simp_all add: ClientRequests_def stm_run in_offset_def on_in_def bnd_run gets_run
      getSubType_def setOffset_def asks_for_cars_def)
  have skip: "\<exists>p. skip_in n u = u\<lparr>cl := (cl u)\<lparr>inbuf := p\<rparr>\<rparr>" for n and u :: "'a session" by (auto simp: skip_in_def)
  show ?thesis
  proof (cases R)
    case (Rebay f x y)
    let ?u1 = "skip_in 4 ?s" and ?u2 = "skip_in 1 (skip_in 4 ?s)"
    have a0: "asks ?s (u32_bytes license @ [f] @ u32_bytes x @ u32_bytes y @ rest)" using a by (simp add: Rebay)
    note b0 = reads_bnd [OF reads_u32 a0]
    note b1 = reads_bnd [OF reads_u8 b0(2)]
    note b2 = reads_bnd [OF reads_u32 b1(2)]
    note b3 = reads_bnd [OF reads_u32 b2(2)]
    have "(if f \<noteq> 0 then run_sql E (swap_sql license x y)
        else run_sql E [''UPDATE garage_data SET bay = '', dec_word y, '' WHERE bay = '', dec_word x,
           '' AND license = '', dec_word license]) = run_sql E [stmt_text (car_stmt license R)]"
      using swap_text [of f license x y] move_text [of y x license] by (auto simp: run_sql_def Rebay)
    then have "swap_car E ?s = garage_program E license R (skip_in (length (u32_bytes y)) (skip_in (length (u32_bytes x))
        (skip_in (length [f]) (skip_in (length (u32_bytes license)) ?s))))"
      unfolding swap_car_def b0(1) b1(1) b2(1) b3(1) garage_program_def by simp
    then show ?thesis by (simp add: c Rebay skip_in_def) blast
  next
    case (Remove x)
    have a0: "asks ?s (u32_bytes license @ [x] @ rest)" using a by (simp add: Remove)
    note b0 = reads_bnd [OF reads_u32 a0]
    note b1 = reads_bnd [OF reads_u8_wide b0(2)]
    have "run_sql E [''DELETE FROM garage_data WHERE bay = '', dec_word (ucast x :: u32), '' AND license = '',
        dec_word license] = run_sql E [stmt_text (car_stmt license R)]"
      using remove_text [of x license] by (simp add: run_sql_def Remove)
    then have "remove_car E ?s = garage_program E license R (skip_in (length [x]) (skip_in (length (u32_bytes license)) ?s))"
      unfolding remove_car_def b0(1) b1(1) garage_program_def by simp
    then show ?thesis by (simp add: c Remove skip_in_def) blast
  qed
qed

text \<open>
  C13: A game server that asks to swap two cars of an account, to move one or to remove one changes exactly that:
  the database is sent one statement, which as SQL moves every car of the account in one of the bays to the other one, or
  the car to its new bay, or deletes it, and leaves all other rows as they are. Nothing is answered, nothing
  is queued, no other connection is touched, and the database is closed.
\<close>

theorem car_request_changes_the_garage:
  fixes rows :: "'a car_row list"
  assumes "server_ok s" "k < length (connections s)" "heard (connections s ! k)"
    and "asks_for_cars (connections s ! k) license R"
    and "db s = Some DB" "Open (api E) DB = Inr (DB_OK, D)"
    and "Exec (api E) (stmt_text (car_stmt license R)) D = Inr (n, DA)" "Close (api E) DA = Inr (m, DC)"
  shows "(\<exists>p. ProcessPacket E k s =
      Inr (s\<lparr>connections := (connections s)[k := (connections s ! k)\<lparr>inbuf := p\<rparr>], db := Some DC\<rparr>)) \<and>
    stmt_effect (car_stmt license R) rows = concat (map (car_after license R) rows)"
proof
  let ?s = "\<lparr>cl = connections s ! k, sdb = DB\<rparr>"
  obtain p where p: "ClientRequests E ?s = garage_program E license R (?s\<lparr>cl := (connections s ! k)\<lparr>inbuf := p\<rparr>\<rparr>)"
    using car_request_reads [of ?s license R E] assms(4) by auto
  have "garage_program E license R (?s\<lparr>cl := (connections s ! k)\<lparr>inbuf := p\<rparr>\<rparr>) =
      Inr (Return, \<lparr>cl = (connections s ! k)\<lparr>inbuf := p\<rparr>, sdb = DC\<rparr>)"
    using assms(6-8) by (simp add: garage_program_def bnd_run stm_run whenP_run ret_run db_open_def db_close_only_def
      db_close_def run_sql_def db_exec_def on_db_def)
  then have "handler_of E (unat (getType (inbuf (connections s ! k)))) ?s =
      Inr (Return, \<lparr>cl = (connections s ! k)\<lparr>inbuf := p\<rparr>, sdb = DC\<rparr>)"
    using assms(4) p by (simp add: handler_of_def asks_for_cars_def)
  from heard_runs [OF assms(1-3,5) this]
  show "\<exists>p. ProcessPacket E k s =
      Inr (s\<lparr>connections := (connections s)[k := (connections s ! k)\<lparr>inbuf := p\<rparr>], db := Some DC\<rparr>)"
    by (auto simp: finish_def)
  show "stmt_effect (car_stmt license R) rows = concat (map (car_after license R) rows)" by (rule car_stmt_effect)
qed

section \<open>Examples\<close>

text \<open>Account 7 swaps the cars in the bays 1 and 2; a car of account 8 stays where it is.\<close>

definition swap_request :: packet where
  "swap_request = message_of 2 1 [u32_bytes 7, [1], u32_bytes 1, u32_bytes 2]"

theorem car_request_changes_the_garage_witness:
  "\<exists>t. ProcessPacket sample_env 0 (sample_server ((sample_slot True)\<lparr>inbuf := swap_request\<rparr>) []) = Inr t \<and>
    stmt_effect (car_stmt 7 (Rebay 1 1 2)) [(7, Some 1, ''a''), (7, Some 2, ''b''), (8, Some 1, ''c'')] =
      [(7, Some 2, ''a''), (7, Some 1, ''b''), (8, Some 1, ''c'')]"
proof -
  let ?c = "(sample_slot True)\<lparr>inbuf := swap_request\<rparr>" and ?R = "Rebay 1 1 2"
  let ?s = "sample_server ?c []" and ?q = "stmt_text (car_stmt 7 ?R)"
  let ?fs = "[u32_bytes 7, [1], u32_bytes 1, u32_bytes 2] :: byte list list"
  have fits: "length (concat ?fs) \<le> 8000" by simp
  note b = sample_request_buffer [OF fits, of 2 1, folded swap_request_def]
    and l = sample_request_layout [OF fits, of 2 1, folded swap_request_def]
  have wf: "wf_packet swap_request" using fresh_wf [OF l(1)] .
  have ok: "server_ok ?s"
    by (rule sample_server_slot_ok [OF slot_ok_request [OF fits, of 2 1, folded swap_request_def]]) (simp add: same_peer_def)
  have ty: "getType swap_request = 2" "getSubType swap_request = 1" "unat (pSize swap_request) = 19"
    using l(3,4) by (simp_all add: getType_def getSubType_def b block_def c16.dec_enc)
  have h: "heard ?c" using ty
    by (simp add: heard_def sample_slot_def new_CLIENT_def Initialize_def ClearSendQueue_def slot_used_def)
  have a: "asks_for_cars ?c 7 ?R" using ty wf by (simp add: asks_for_cars_def b)
  have conn: "connections ?s = [?c]" and db: "db ?s = Some (sample_db [])" by (simp_all add: sample_server_def)
  have o: "Open (api sample_env) (sample_db []) = Inr (DB_OK, sample_db [])"
    by (simp add: sample_env_def sample_simps DB_OK_def)
  obtain n DA where e: "Exec (api sample_env) ?q (sample_db []) = Inr (n, DA)"
    by (simp add: sample_env_def sample_simps)
  obtain m DC where cl: "Close (api sample_env) DA = Inr (m, DC)"
    by (cases "Close (api sample_env) DA") (auto simp: Close_def CloseSqlite_def CloseMysql_def Let_def split: if_splits prod.splits)
  show ?thesis
    using car_request_changes_the_garage [where s = ?s and k = 0 and E = sample_env and license = 7 and R = ?R
        and DB = "sample_db []" and D = "sample_db []" and DA = DA and DC = DC and n = n and m = m
        and rows = "[(7, Some 1, ''a''), (7, Some 2, ''b''), (8, Some 1, ''c'')]"]
      ok h a conn db o e cl by auto
qed

end
