(* ===== verification/Key_Properties.thy ===== *)
theory Key_Properties
  imports Account_Properties Fault_Properties
begin

text \<open>
  Keys from the command of the administrator to the game server that holds the file, and the heartbeats
  of a game server.
\<close>

section \<open>Created keys\<close>

lemma CreateKey_result:
  assumes "CreateKey E f d k v can_write s = Inr ((r, Some file), t)" "length k = 32" "length v = 16"
  shows "file = k @ v \<and> (\<exists>D n D1 m D2.
    Exec (api E) (''INSERT INTO server_keys (key, iv) VALUES ('' @ xlit (hex k) @ '', '' @ xlit (hex v) @ '')'') D = Inr (n, D1) \<and>
    r = (if n \<noteq> 0 then 1 else 0) \<and> Close (api E) D1 = Inr (m, D2) \<and> db t = Some D2)"
proof -
  have hk: "HexString k (word_of_nat KEY_SIZE) = Inr (hex k)" "HexString v (word_of_nat BLOCK_SIZE) = Inr (hex v)"
    using HexString_len [of "word_of_nat KEY_SIZE" k] HexString_len [of "word_of_nat BLOCK_SIZE" v] assms(2,3)
    by (simp_all add: KEY_SIZE_def BLOCK_SIZE_def MAX_MESG_LEN_def)
  obtain u n w m where u: "server_exec E (key_insert (hex k) (hex v)) u = Inr (n, w)"
    "on_server_db (Close (api E)) w = Inr (m, t)" "r = (if n \<noteq> DB_OK then 1 else 0)" "file = key_file k v"
    using assms(1) hk
    by (auto simp: CreateKey_def server_bnd_Inr stm_Inr cannot_connect_def raise_def ret_run lift_Inr split: if_splits)
  then obtain D D1 D2 where D: "Exec (api E) (sql (key_insert (hex k) (hex v))) D = Inr (n, D1)"
    "Close (api E) D1 = Inr (m, D2)" "db t = Some D2"
    by (auto simp: server_exec_def on_server_db_Inr)
  have q: "sql (key_insert (hex k) (hex v)) =
      ''INSERT INTO server_keys (key, iv) VALUES ('' @ xlit (hex k) @ '', '' @ xlit (hex v) @ '')''"
    by (simp add: key_insert_def)
  have "r = (if n \<noteq> 0 then 1 else 0)" "file = k @ v"
    using u(3,4) key_file_layout [OF assms(2,3)] by (simp_all add: DB_OK_def)
  with D show ?thesis unfolding q by blast
qed

text \<open>
  C29: A key that the administrator has created opens the server for the game server that holds its file:
  when the command writes a file, it is the key followed by the vector, and the same bytes are sent to the
  database as the literals of a new row; and when the database returns this row for the vector, a game server
  that asks with the last 16 bytes of the file is authenticated with the first 32 as its key, if no connection
  uses them yet; but a random key or vector that has a zero byte before its last one was stored as a blob that comes
  back cut short, and the comparison with it reads past its end.
\<close>

theorem created_key_opens_the_server_unless_it_has_a_zero:
  assumes "CreateKey E f d k v can_write s = Inr ((r, Some file), t)" "length k = 32" "length v = 16"
    and "getSubType (inbuf (cl u)) = 0" "pSize (inbuf (cl u)) = 0x20" "\<not> isAuth (cl u)" "slot_ok (cl u)" "slot_used (cl u)"
    and "block 6 16 (buffer (inbuf (cl u))) = drop 32 file"
    and "Open (api E) (sdb u) = Inr (DB_OK, D)" "Exec (api E) (key_sql (hex v)) D = Inr (1, D')"
    and "results D' = [DatabaseCallback (key_row k v)]"
    and "conns \<noteq> []" "\<forall>c \<in> set conns. slot_ok c" "\<forall>c \<in> set conns. peer_key c \<noteq> (v, k)"
  shows "(\<exists>D n D1. Exec (api E) (''INSERT INTO server_keys (key, iv) VALUES ('' @ xlit (hex (take 32 file)) @ '', '' @
      xlit (hex (drop 32 file)) @ '')'') D = Inr (n, D1) \<and> r = (if n \<noteq> 0 then 1 else 0)) \<and>
    (if 0 \<in> set (butlast (take 32 file)) \<or> 0 \<in> set (butlast (drop 32 file))
     then ServerAuth E conns u = Inl OutOfBounds
     else \<exists>w. ServerAuth E conns u = Inr (Return, w) \<and> isAuth (cl w) \<and> key (cl w) = take 32 file \<and> iv (cl w) = drop 32 file)"
proof -
  note c = CreateKey_result [OF assms(1-3)]
  then have "file = k @ v" ..
  then have parts: "take 32 file = k" "drop 32 file = v" using assms(2) by simp_all
  have v: "block 6 16 (buffer (inbuf (cl u))) = v" using assms(9) parts by simp
  show ?thesis
    using c ServerAuth_stored_key [OF assms(4-8) v assms(2,10-15)] unfolding parts by blast
qed

section \<open>Heartbeats\<close>

text \<open>
  C33: A heartbeat of a peer, authenticated or not, stores the milliseconds of the system's clock where the
  loop compares seconds: until the seconds have reached this number, the peer is sent no heartbeat, and the
  time of the next one is left as it is.
\<close>

theorem heartbeat_request_stops_heartbeats:
  assumes "server_ok s" "k < length (connections s)" "\<not> todc (connections s ! k)"
    and "isAuth (connections s ! k) \<longrightarrow> 16 \<le> unat (pSize (inbuf (connections s ! k)))"
    and "getType (inbuf (connections s ! k)) = 0" "getSubType (inbuf (connections s ! k)) = 1"
    and "time_test e k \<le> uint (timeGetTime E + 30)"
  shows "\<exists>t. ProcessPacket E k s = Inr t \<and> t = s\<lparr>connections := (connections s)
      [k := (connections s ! k)\<lparr>lastHeartBeat := uint (timeGetTime E + 30)\<rparr>]\<rparr> \<and>
    heartbeat_part k e t = Inr ((), t)"
proof -
  let ?c = "connections s ! k"
  have slot: "slot_ok ?c" using assms(1,2) by (rule server_ok_slot)
  obtain D where D: "db s = Some D" using assms(1) by (auto simp: server_ok_def)
  have "ServerAuth E (connections s) \<lparr>cl = ?c, sdb = D\<rparr> =
      Inr (Return, \<lparr>cl = ?c\<lparr>lastHeartBeat := uint (timeGetTime E + 30)\<rparr>, sdb = D\<rparr>)"
    using assms(6) by (simp add: ServerAuth_def bnd_run gets_run stm_run Let_def heartbeat_received_def on_slot_def
        modify_run ret_run HEARTBEAT_TIME_def)
  moreover have "s\<lparr>connections := cs, db := Some D\<rparr> = s\<lparr>connections := cs\<rparr>" for cs using D by (cases s) simp
  moreover have "\<not> refused ?c" using assms(5) by (simp add: refused_def packet_function_count_def)
  ultimately have "ProcessPacket E k s = Inr (s\<lparr>connections := (connections s)
      [k := ?c\<lparr>lastHeartBeat := uint (timeGetTime E + 30)\<rparr>]\<rparr>)"
    using assms(3-5) slot D
    by (auto simp: ProcessPacket_run Let_def MainPacketFunctions_def run_handler_def finish_def)
  then show ?thesis
    using assms(2,7) by (simp add: heartbeat_part_def slot_def bnd_run gets_run whenP_run)
qed

section \<open>Examples\<close>

abbreviation "sample_key \<equiv> replicate 32 (7 :: byte)"
abbreviation "sample_vector \<equiv> replicate 16 (1 :: byte)"

text \<open>
  The command runs on an engine that answers every query with the row of the key; the same engine serves the
  game server.
\<close>

abbreviation "keys_env \<equiv> steady_env [key_row sample_key sample_vector]"

lemma keys_calls:
  assumes "db_type D = DBTYPE_SQLITE"
  shows "Open (api keys_env) D = Inr (0, D)" "Close (api keys_env) D = Inr (0, D)"
    and "\<exists>D'. Exec (api keys_env) q D = Inr (1, D') \<and> db_type D' = DBTYPE_SQLITE \<and>
      results D' = [DatabaseCallback (key_row sample_key sample_vector)]"
  using assms by (simp_all add: Open_def OpenSqlite_def Exec_def ExecSqlite_def Close_def CloseSqlite_def steady_env_def)

lemma keys_created:
  "\<exists>r t. CreateKey keys_env default_file () sample_key sample_vector True (new_Server False) =
    Inr ((r, Some (sample_key @ sample_vector)), t)"
proof -
  have "complete_schema (api keys_env) ()" by (simp add: complete_schema_def finds_def steady_env_def list_all_iff)
  moreover have "sqlite3_open (api keys_env) ''sbol.db'' () = (0, ())" by (simp add: steady_env_def)
  ultimately have "\<exists>s D. not_ready keys_env default_file () (new_Server False) = Inr (False, s) \<and> db s = Some D \<and>
      db_type D = DBTYPE_SQLITE"
    by (rule default_ready [OF given_default, rotated])
  then obtain s D where s: "not_ready keys_env default_file () (new_Server False) = Inr (False, s)"
    "db s = Some D" "db_type D = DBTYPE_SQLITE"
    by blast
  have h: "HexString sample_key (word_of_nat KEY_SIZE) = Inr (hex sample_key)"
    "HexString sample_vector (word_of_nat BLOCK_SIZE) = Inr (hex sample_vector)"
    using HexString_len [of "word_of_nat KEY_SIZE" sample_key] HexString_len [of "word_of_nat BLOCK_SIZE" sample_vector]
    by (simp_all add: KEY_SIZE_def BLOCK_SIZE_def MAX_MESG_LEN_def)
  obtain D1 where D1: "Exec (api keys_env) (sql (key_insert (hex sample_key) (hex sample_vector))) D = Inr (1, D1)"
    "db_type D1 = DBTYPE_SQLITE"
    using keys_calls(3) [OF s(3)] by blast
  have f: "key_file sample_key sample_vector = sample_key @ sample_vector" by (rule key_file_layout) simp_all
  show ?thesis
    unfolding CreateKey_def server_exec_def
    by (simp add: bnd_run s(1,2) on_server_db_def keys_calls(1) [OF s(3)] DB_OK_def h lift_run D1(1) stm_run
        keys_calls(2) [OF D1(2)] ret_run f del: concat.simps)
qed

definition key_holder :: "unit session" where
  "key_holder = \<lparr>cl = (sample_slot False)\<lparr>inbuf := key_request\<rparr>, sdb = new_Database DBTYPE_SQLITE [] [] [] ''sbol.db'' 3306 ()\<rparr>"

theorem created_key_opens_the_server_unless_it_has_a_zero_witness:
  "\<exists>r t w. CreateKey keys_env default_file () sample_key sample_vector True (new_Server False) =
      Inr ((r, Some (sample_key @ sample_vector)), t) \<and>
    ServerAuth keys_env [sample_slot True] key_holder = Inr (Return, w) \<and> isAuth (cl w) \<and> key (cl w) = sample_key"
proof -
  obtain r t where c: "CreateKey keys_env default_file () sample_key sample_vector True (new_Server False) =
      Inr ((r, Some (sample_key @ sample_vector)), t)" using keys_created by blast
  have cl: "cl key_holder = cl (asking_session sample_key)" by (simp add: key_holder_def asking_session_def)
  note f = asking_session_facts(1-6) [of sample_key, folded cl]
  have ty: "db_type (sdb key_holder) = DBTYPE_SQLITE" by (simp add: key_holder_def new_Database_def)
  have o: "Open (api keys_env) (sdb key_holder) = Inr (DB_OK, sdb key_holder)" using keys_calls(1) [OF ty] by (simp add: DB_OK_def)
  obtain D' where D': "Exec (api keys_env) (key_sql (hex sample_vector)) (sdb key_holder) = Inr (1, D')"
    "results D' = [DatabaseCallback (key_row sample_key sample_vector)]"
    using keys_calls(3) [OF ty] by blast
  have other: "\<forall>c \<in> set [sample_slot True]. peer_key c \<noteq> (sample_vector, sample_key)" by (simp add: sample_peer_key)
  have ok: "\<forall>c \<in> set [sample_slot True]. slot_ok c" using slot_ok_sample by simp
  have nz: "0 \<notin> set (butlast sample_key)" "0 \<notin> set (butlast sample_vector)" by (simp_all add: butlast_conv_take)
  have iv: "block 6 16 (buffer (inbuf (cl key_holder))) = drop 32 (sample_key @ sample_vector)"
    unfolding f(6) by simp
  have len: "length sample_key = 32" "length sample_vector = 16" by simp_all
  have "take 32 (sample_key @ sample_vector) = sample_key" by simp
  with created_key_opens_the_server_unless_it_has_a_zero [OF c len f(1-5) iv o D' _ ok other] nz c show ?thesis by auto
qed

theorem heartbeat_request_stops_heartbeats_witness:
  "\<exists>t. ProcessPacket sample_env 0 (sample_server ((sample_slot False)\<lparr>inbuf := message_of 0 1 [[]]\<rparr>) []) = Inr t \<and>
    heartbeat_part 0 (idle_round\<lparr>time_test := \<lambda>_. 1000\<rparr>) t = Inr ((), t)"
proof -
  let ?c = "(sample_slot False)\<lparr>inbuf := message_of 0 1 [[]]\<rparr>"
  have fits: "length (concat [[] :: byte list]) \<le> 8000" by simp
  note b = sample_request_buffer [OF fits, of 0 1]
  have ok: "server_ok (sample_server ?c [])"
    by (rule sample_server_slot_ok [OF slot_ok_request [OF fits]]) (simp add: same_peer_def)
  have "getType (inbuf ?c) = 0" "getSubType (inbuf ?c) = 1"
    by (simp_all add: getType_def getSubType_def b block_def c16.dec_enc)
  moreover have "\<not> todc ?c" "\<not> isAuth ?c" "timeGetTime sample_env = 1000"
    by (simp_all add: sample_slot_def new_CLIENT_def Initialize_def ClearSendQueue_def sample_env_def)
  moreover have "connections (sample_server ?c []) = [?c]" by (simp add: sample_server_def)
  ultimately show ?thesis
    using heartbeat_request_stops_heartbeats [OF ok, of 0 "idle_round\<lparr>time_test := \<lambda>_. 1000\<rparr>" sample_env] by auto
qed

end
