(* ===== verification/Team_Answers.thy ===== *)
theory Team_Answers
  imports Team_Reply
begin

text \<open>
  What the leader of a team is answered, and what the database is asked for it: the requests for the
  type of invitations, for the comment and for the end of a team, and the creation of a team.
\<close>

section \<open>Transactions\<close>

text \<open>A part that runs on an open database, which is closed behind it; \<open>z\<close> is the result without one.\<close>

definition with_db :: "'d env \<Rightarrow> ('d session, 'a) prog \<Rightarrow> 'a \<Rightarrow> ('d session, 'a) prog" where
  "with_db E m z = bnd (db_open E) (\<lambda>res.
     if res = DB_OK then bnd m (\<lambda>r. stm (db_close_only E) (ret r)) else ret z)"

lemma with_db_run:
  assumes "Open (api E) (sdb s) = Inr (r, D)"
    and "r = DB_OK \<Longrightarrow> asks_only E None m as x K \<and> answers E D as = Some D'" "r \<noteq> DB_OK \<Longrightarrow> x = z"
  shows "\<exists>D''. with_db E m z s = Inr (x, s\<lparr>sdb := D''\<rparr>)"
proof -
  have o: "db_open E s = Inr (r, s\<lparr>sdb := D\<rparr>)" using assms(1) by (simp add: db_open_def on_db_def)
  show ?thesis
  proof (cases "r = DB_OK")
    case True
    have m: "m (s\<lparr>sdb := D\<rparr>) = Inr (x, s\<lparr>sdb := D'\<rparr>)"
      using asks_onlyD(1) [of E None m as x K "s\<lparr>sdb := D\<rparr>" D'] assms(2) [OF True] by simp
    obtain n t where t: "db_close E (s\<lparr>sdb := D'\<rparr>) = Inr (n, t)" "cl t = cl s"
      using db_close_total [of E "s\<lparr>sdb := D'\<rparr>"] by auto
    have "t = s\<lparr>sdb := sdb t\<rparr>" using t(2) by (cases t; cases s) simp
    moreover have "with_db E m z s = Inr (x, t)"
      using True by (simp add: with_db_def bnd_run o m stm_run db_close_only_def t(1) ret_run)
    ultimately show ?thesis by metis
  next
    case False
    then show ?thesis using assms(3) by (auto simp: with_db_def bnd_run o ret_run)
  qed
qed

text \<open>A query of which only matters whether it finds a row, and what the row is.\<close>

lemma asks_found:
  assumes "asks_only E (Some [r]) m as x K"
  shows "asks_only E K0 (bnd (db_exec E q) (\<lambda>res. if res \<noteq> 0 then m else n)) (Finds q [r] # as) x K"
proof -
  have "asks_only E (Some [r]) ((\<lambda>res. if res \<noteq> 0 then m else n) (int (length [r]))) as x K"
    using assms by simp
  from asks_bnd [where f = "\<lambda>res. if res \<noteq> 0 then m else n", OF asks_exec this] show ?thesis by simp
qed

lemma asks_not_found:
  assumes "asks_only E (Some []) n as x K"
  shows "asks_only E K0 (bnd (db_exec E q) (\<lambda>res. if res \<noteq> 0 then m else n)) (Finds q [] # as) x K"
proof -
  have "asks_only E (Some []) ((\<lambda>res. if res \<noteq> 0 then m else n) (int (length ([] :: columns list)))) as x K"
    using assms by simp
  from asks_bnd [where f = "\<lambda>res. if res \<noteq> 0 then m else n", OF asks_exec this] show ?thesis by simp
qed

lemma asks_cell:
  assumes "asks_only E (Some [r]) (f v) as x K" "map_of r c = Some v"
  shows "asks_only E (Some [r]) (bnd (db_value 0 c) f) as x K"
  using asks_bnd [where f = f, OF asks_value [of 0 "[r]" c v] assms(1)] assms(2) by simp

lemma asks_stm: "asks_only E K m as () K1 \<Longrightarrow> asks_only E K1 n bs y K2 \<Longrightarrow> asks_only E K (stm m n) (as @ bs) y K2"
  unfolding stm_def by (rule asks_bnd)

lemma asks_steps:
  "asks_only E K (steps []) [] () K"
  "asks_only E K m as () K1 \<Longrightarrow> asks_only E K1 (steps ms) bs () K2 \<Longrightarrow> asks_only E K (steps (m # ms)) (as @ bs) () K2"
  unfolding steps.simps by (rule asks_ret, rule asks_stm)

lemma asks_forget: "asks_only E K m as x K' \<Longrightarrow> asks_only E K m as x None"
  by (simp add: asks_only_def)

lemma asks_weaken: "asks_only E None m as x K' \<Longrightarrow> asks_only E K m as x K'"
  by (simp add: asks_only_def)

section \<open>Orders of a leader\<close>

datatype team_order = Invite byte | Comment cppstring | Disband

text \<open>
  What the database knows: it can not be opened, the account is in no team, in a team it does not
  lead, or leads a team with these flags.
\<close>

datatype standing = Closed | Teamless | Follower u32 | Leader u32 u32

fun standing_code :: "standing \<Rightarrow> byte" where
  "standing_code Closed = 1"
| "standing_code Teamless = 2"
| "standing_code (Follower t) = 3"
| "standing_code (Leader t w) = 0"

fun standing_team :: "standing \<Rightarrow> u32" where
  "standing_team (Follower t) = t"
| "standing_team (Leader t w) = t"
| "standing_team S = 0"

fun order_sub :: "team_order \<Rightarrow> u16" where
  "order_sub (Invite b) = 4"
| "order_sub (Comment c) = 5"
| "order_sub Disband = 6"

fun order_bytes :: "team_order \<Rightarrow> byte list" where
  "order_bytes (Invite b) = [b]"
| "order_bytes (Comment c) = pad_field 40 c"
| "order_bytes Disband = []"

fun order_ok :: "team_order \<Rightarrow> bool" where
  "order_ok (Comment c) \<longleftrightarrow> text_ok 40 c"
| "order_ok R \<longleftrightarrow> True"

text \<open>What is changed: bit 0 of the flags, the comment, or the team is deleted and taken from its members.\<close>

fun order_does :: "u32 \<Rightarrow> team_order \<Rightarrow> u32 \<Rightarrow> u32 \<Rightarrow> ask list" where
  "order_does license (Invite b) t w =
     [Does (''UPDATE team_data SET flags = '' @ dec_word ((w AND NOT 1) OR ucast (b AND 1)) @
        '' WHERE leader = '' @ dec_word license)]"
| "order_does license (Comment c) t w =
     [Does (''UPDATE team_data SET teamcomment = '' @ xlit (hex (bytes_of c)) @
        '' WHERE leader = '' @ dec_word license)]"
| "order_does license Disband t w =
     [Does (''DELETE FROM team_data WHERE teamid = '' @ dec_word t),
      Does (''UPDATE account_data SET teamid = NULL AND teamarea = 0 WHERE teamid = '' @ dec_word t)]"

fun order_asks :: "u32 \<Rightarrow> team_order \<Rightarrow> standing \<Rightarrow> ask list" where
  "order_asks license R Closed = []"
| "order_asks license R Teamless = [Finds (sql (in_team_sql license)) []]"
| "order_asks license R (Follower t) =
     [Finds (sql (in_team_sql license)) [[(''teamid'', dec_word t)]],
      Finds (sql (leads_sql (dec_word t) license)) []]"
| "order_asks license R (Leader t w) =
     [Finds (sql (in_team_sql license)) [[(''teamid'', dec_word t)]],
      Finds (sql (leads_sql (dec_word t) license)) [[(''flags'', dec_word w)]]] @ order_does license R t w"

fun order_fields :: "u32 \<Rightarrow> team_order \<Rightarrow> standing \<Rightarrow> byte list list" where
  "order_fields license R S = [u32_bytes license, u32_bytes (standing_team S), [standing_code S]] @
     (case R of Invite b \<Rightarrow> [[b AND 1]] | Comment c \<Rightarrow> [pad_field 40 c] | Disband \<Rightarrow> [])"

definition team_order :: "client \<Rightarrow> u32 \<Rightarrow> team_order \<Rightarrow> bool" where
  "team_order c license R \<longleftrightarrow>
     unat (getType (inbuf c)) = 2 \<and> getSubType (inbuf c) = order_sub R \<and> wf_packet (inbuf c) \<and> order_ok R \<and>
     (\<exists>rest. drop 6 (buffer (inbuf c)) = u32_bytes license @ order_bytes R @ rest)"

text \<open>The part that depends on the order.\<close>

fun order_body :: "'d env \<Rightarrow> u32 \<Rightarrow> team_order \<Rightarrow> cppstring \<Rightarrow> ('d session, unit) prog" where
  "order_body E license (Invite b) = set_invite E license (b AND 1)"
| "order_body E license (Comment c) = (\<lambda>teamid. run_sql E
     [''UPDATE team_data SET '', ''teamcomment = '', xlit (hex (bytes_of c)), '' WHERE leader = '', dec_word license])"
| "order_body E license Disband = drop_team E"

definition lead_part :: "'d env \<Rightarrow> u32 \<Rightarrow> (cppstring \<Rightarrow> ('d session, unit) prog) \<Rightarrow> ('d session, cppstring \<times> byte) prog" where
  "lead_part E license body = bnd (db_exec E (sql (in_team_sql license))) (\<lambda>res.
     if res \<noteq> 0
     then bnd (db_value 0 ''teamid'') (\<lambda>teamid.
          bnd (db_exec E (sql (leads_sql teamid license))) (\<lambda>res.
          if res \<noteq> 0 then stm (body teamid) (ret (teamid, 0)) else ret (teamid, 3)))
     else ret (''0'', 2))"

lemma as_leader_with_db: "as_leader E license body = with_db E (lead_part E license body) (''0'', 1)"
  by (simp add: as_leader_def with_db_def lead_part_def bnd_assoc cong: if_cong)

lemma asks_order_body:
  "asks_only E (Some [[(''flags'', dec_word w)]]) (order_body E license R (dec_word t)) (order_does license R t w) () None"
proof (cases R)
  case (Invite b)
  have v: "asks_only E (Some [[(''flags'', dec_word w)]]) (db_value 0 ''flags'') [] (dec_word w) (Some [[(''flags'', dec_word w)]])"
    by (rule asks_value) simp_all
  show ?thesis
    unfolding Invite order_body.simps set_invite_def
    by (rule asks_eq, rule asks_bnd, rule v, rule asks_bnd, rule asks_stoul, rule asks_run_sql) simp_all
next
  case (Comment c)
  show ?thesis unfolding Comment order_body.simps by (rule asks_eq, rule asks_run_sql) simp_all
next
  case Disband
  show ?thesis
    unfolding Disband order_body.simps drop_team_def
    by (rule asks_eq, rule asks_steps, rule asks_run_sql, rule asks_steps, rule asks_run_sql, rule asks_steps(1)) simp_all
qed

fun standing_result :: "standing \<Rightarrow> cppstring \<times> byte" where
  "standing_result S = (dec_word (standing_team S), standing_code S)"

lemma zero_text: "''0'' = dec 0"
  by code_simp

lemma asks_lead_part:
  assumes "S \<noteq> Closed"
  shows "asks_only E None (lead_part E license (order_body E license R)) (order_asks license R S) (standing_result S) None"
proof (cases S)
  case Teamless
  show ?thesis
    unfolding lead_part_def Teamless order_asks.simps
    by (rule asks_not_found, rule asks_eq, rule asks_forget, rule asks_ret) (simp_all add: zero_text)
next
  case (Follower t)
  show ?thesis
    unfolding lead_part_def Follower order_asks.simps
    by (rule asks_found, rule asks_cell [where v = "dec_word t"], rule asks_not_found, rule asks_eq,
        rule asks_forget, rule asks_ret)
      simp_all
next
  case (Leader t w)
  show ?thesis
    unfolding lead_part_def Leader order_asks.simps append.simps
    apply (rule asks_found, rule asks_cell [where v = "dec_word t"], rule asks_found)
     apply (rule asks_eq, rule asks_stm, rule asks_order_body, rule asks_ret)
    by simp_all
qed (use assms in simp)

section \<open>The requests of a leader\<close>

fun order_reply_sub :: "team_order \<Rightarrow> u16" where
  "order_reply_sub (Invite b) = 1"
| "order_reply_sub (Comment c) = 2"
| "order_reply_sub Disband = 3"

definition order_answer :: "team_order \<Rightarrow> u32 \<Rightarrow> cppstring \<times> byte \<Rightarrow> ('d session, after) prog" where
  "order_answer R license = (\<lambda>(teamid, result).
     stm (steps ([start_reply 2 (order_reply_sub R), out_u32 license, out_stoul teamid, out_u8 result] @
       (case R of Invite b \<Rightarrow> [out_u8 (b AND 1)] | Comment c \<Rightarrow> [out_string c 0x28] | Disband \<Rightarrow> [])))
     (ret FallOut))"

lemma order_answer_run:
  assumes "order_ok R"
  shows "order_answer R license (standing_result S) s =
    Inr (FallOut, set_out (message_of 2 (order_reply_sub R) (order_fields license R S)) s)"
    and "length (concat (order_fields license R S)) \<le> 8000"
proof -
  let ?x = "case R of Invite b \<Rightarrow> [out_u8 (b AND 1)] | Comment c \<Rightarrow> [out_string c 0x28] | Disband \<Rightarrow> []"
  let ?f = "case R of Invite b \<Rightarrow> [[b AND 1]] | Comment c \<Rightarrow> [pad_field 40 c] | Disband \<Rightarrow> []"
  have x: "writes (steps ?x :: ('a session, unit) prog) ?f"
  proof (cases R)
    case (Invite b)
    have "writes (steps [out_u8 (b AND 1)]) ([[b AND 1]] @ [])" by (intro writes_rules)
    then show ?thesis by (simp add: Invite)
  next
    case (Comment c)
    then have "writes (out_string c 0x28) [pad_field 40 c]"
      using writes_string [of c "0x28"] assms by (simp add: text_ok_def)
    then have "writes (steps [out_string c 0x28]) ([pad_field 40 c] @ [])" by (intro writes_rules)
    then show ?thesis by (simp add: Comment)
  next
    case Disband
    then show ?thesis using writes_Nil by simp
  qed
  have w: "writes (steps ([out_u32 license, out_stoul (dec_word (standing_team S)), out_u8 (standing_code S)] @ ?x) :: ('a session, unit) prog)
      ([u32_bytes license] @ [u32_bytes (standing_team S)] @ [[standing_code S]] @ ?f)"
    using writes_Cons [OF writes_numbers(2) writes_Cons [OF writes_stoul writes_Cons [OF writes_numbers(1) x]]]
    by (simp only: append_Cons append_Nil)
  show l: "length (concat (order_fields license R S)) \<le> 8000"
    using assms length_pad_field [of _ 40] by (cases R) (simp_all add: text_ok_def)
  have "steps ([start_reply 2 (order_reply_sub R), out_u32 license, out_stoul (dec_word (standing_team S)), out_u8 (standing_code S)] @ ?x) s =
      Inr ((), set_out (message_of 2 (order_reply_sub R) (order_fields license R S)) s)"
    using reply_run [OF w] l by simp
  then show "order_answer R license (standing_result S) s =
      Inr (FallOut, set_out (message_of 2 (order_reply_sub R) (order_fields license R S)) s)"
    by (simp add: order_answer_def stm_run [of "steps _"] ret_run del: steps.simps)
qed

lemma order_reads:
  assumes "team_order (cl s) license R"
  shows "\<exists>p. ClientRequests E s = bnd (as_leader E license (order_body E license R)) (order_answer R license)
    (s\<lparr>cl := (cl s)\<lparr>inbuf := p\<rparr>\<rparr>)"
proof -
  let ?s = "s\<lparr>cl := (cl s)\<lparr>inbuf := setOffset 6 (inbuf (cl s))\<rparr>\<rparr>"
  let ?P = "\<lambda>u. \<exists>p. u = s\<lparr>cl := (cl s)\<lparr>inbuf := p\<rparr>\<rparr>"
  obtain rest where r: "drop 6 (buffer (inbuf (cl s))) = u32_bytes license @ order_bytes R @ rest" and ok: "order_ok R"
    using assms by (auto simp: team_order_def)
  have a: "asks ?s (u32_bytes license @ order_bytes R @ rest)"
    using assms r by (simp add: asks_def unread_def setOffset_def team_order_def wf_packet_def)
  have c: "ClientRequests E s = (case R of Invite b \<Rightarrow> update_invite E | Comment c \<Rightarrow> update_comment E | Disband \<Rightarrow> delete_team E) ?s"
    using assms by (cases R) (simp_all add: ClientRequests_def stm_run in_offset_def on_in_def bnd_run gets_run
      getSubType_def setOffset_def team_order_def)
  note b0 = reads_bnd [OF reads_u32 a]
  have p0: "?P (skip_in n ?s)" "?P (skip_in m (skip_in n ?s))" for m n by (simp_all add: skip_in_def) blast+
  have fin: "\<exists>p. bnd A B u = bnd A B (s\<lparr>cl := (cl s)\<lparr>inbuf := p\<rparr>\<rparr>)" if "?P u"
    for u and A :: "('a session, cppstring \<times> byte) prog" and B :: "cppstring \<times> byte \<Rightarrow> ('a session, after) prog"
    using that by metis
  show ?thesis
  proof (cases R)
    case (Invite b)
    have a1: "asks (skip_in (length (u32_bytes license)) ?s) ([b] @ rest)" using b0(2) by (simp add: Invite)
    note b1 = reads_bnd [OF reads_u8 a1]
    have "update_invite E ?s = bnd (as_leader E license (order_body E license R)) (order_answer R license)
        (skip_in (length [b]) (skip_in (length (u32_bytes license)) ?s))"
      unfolding update_invite_def b0(1) b1(1) by (simp add: Invite order_answer_def)
    then have "ClientRequests E s = bnd (as_leader E license (order_body E license R)) (order_answer R license) (skip_in (length [b]) (skip_in (length (u32_bytes license)) ?s))"
      unfolding c Invite team_order.case .
    then show ?thesis using fin [OF p0(2)] by metis
  next
    case (Comment t)
    have a1: "asks (skip_in (length (u32_bytes license)) ?s) (pad_field 40 t @ rest)" using b0(2) by (simp add: Comment)
    have "reads (in_string 0x28) (pad_field 40 t) t" using reads_string [of "0x28" t] ok by (simp add: Comment)
    note b1 = reads_bnd [OF this a1]
    have hx: "bnd (hex_of_string t) f u = f (hex (bytes_of t)) u" for f :: "cppstring \<Rightarrow> ('a session, after) prog" and u
      using hex_text_run [of t u] ok by (simp add: Comment text_ok_def bnd_run)
    have "update_comment E ?s = bnd (as_leader E license (order_body E license R)) (order_answer R license)
        (skip_in (length (pad_field 40 t)) (skip_in (length (u32_bytes license)) ?s))"
      unfolding update_comment_def b0(1) b1(1) hx by (simp add: Comment order_answer_def)
    then have "ClientRequests E s = bnd (as_leader E license (order_body E license R)) (order_answer R license) (skip_in (length (pad_field 40 t)) (skip_in (length (u32_bytes license)) ?s))"
      unfolding c Comment team_order.case .
    then show ?thesis using fin [OF p0(2)] by metis
  next
    case Disband
    have "delete_team E ?s = bnd (as_leader E license (order_body E license R)) (order_answer R license)
        (skip_in (length (u32_bytes license)) ?s)"
      unfolding delete_team_def b0(1) by (simp add: Disband order_answer_def)
    then have "ClientRequests E s = bnd (as_leader E license (order_body E license R)) (order_answer R license) (skip_in (length (u32_bytes license)) ?s)"
      unfolding c Disband team_order.case .
    then show ?thesis using fin [OF p0(1)] by metis
  qed
qed

lemma order_runs:
  assumes "team_order (cl s) license R" "Open (api E) (sdb s) = Inr (r, D)" "S = Closed \<longleftrightarrow> r \<noteq> DB_OK"
    and "answers E D (order_asks license R S) = Some D'"
  shows "\<exists>p D''. ClientRequests E s = Inr (FallOut, \<lparr>cl = (cl s)\<lparr>inbuf := p,
    outbuf := message_of 2 (order_reply_sub R) (order_fields license R S)\<rparr>, sdb = D''\<rparr>)"
proof -
  have ok: "order_ok R" using assms(1) by (simp add: team_order_def)
  obtain p where p: "ClientRequests E s = bnd (as_leader E license (order_body E license R)) (order_answer R license)
    (s\<lparr>cl := (cl s)\<lparr>inbuf := p\<rparr>\<rparr>)" using order_reads [OF assms(1)] by blast
  let ?s = "s\<lparr>cl := (cl s)\<lparr>inbuf := p\<rparr>\<rparr>"
  have "\<exists>D''. with_db E (lead_part E license (order_body E license R)) (''0'', 1) ?s = Inr (standing_result S, ?s\<lparr>sdb := D''\<rparr>)"
  proof (rule with_db_run)
    show "Open (api E) (sdb ?s) = Inr (r, D)" using assms(2) by simp
    show "asks_only E None (lead_part E license (order_body E license R)) (order_asks license R S) (standing_result S) None \<and>
        answers E D (order_asks license R S) = Some D'" if "r = DB_OK"
      using asks_lead_part [of S] assms(3,4) that by blast
    show "standing_result S = (''0'', 1)" if "r \<noteq> DB_OK" using assms(3) that by (simp add: zero_text)
  qed
  then obtain D'' where "as_leader E license (order_body E license R) ?s = Inr (standing_result S, ?s\<lparr>sdb := D''\<rparr>)"
    unfolding as_leader_with_db by blast
  then have "ClientRequests E s = order_answer R license (standing_result S) (?s\<lparr>sdb := D''\<rparr>)"
    unfolding p by (simp add: bnd_run)
  then show ?thesis unfolding order_answer_run(1) [OF ok]
    by (intro exI [of _ p] exI [of _ D'']) (cases s, simp add: set_out_def)
qed


section \<open>The creation of a team\<close>

text \<open>
  What the database knows of the account and of the name: it can not be opened, the account is in a
  team, the name is taken, the inserted row is not found again, or it is found with this number.
\<close>

datatype founding = Unreachable | Has_Team | Name_Taken columns | Not_Stored columns | Founded columns cppstring

fun founding_code :: "founding \<Rightarrow> byte" where
  "founding_code Has_Team = 2"
| "founding_code (Founded r t) = 0"
| "founding_code F = 1"

definition name_sql :: "cppstring \<Rightarrow> cppstring" where
  "name_sql name = ''SELECT * FROM team_data WHERE HEX(LOWER(teamname)) = '' @ quoted (hex (bytes_of (tolower name)))"

definition insert_does :: "u32 \<Rightarrow> cppstring \<Rightarrow> ask" where
  "insert_does license name = Does (''INSERT INTO team_data(leader, teamname) VALUES('' @ dec_word license @ '', '' @
     xlit (hex (bytes_of name)) @ '')'')"

definition stored_sql :: "cppstring \<Rightarrow> cppstring" where
  "stored_sql name = ''SELECT teamid FROM team_data WHERE teamname = '' @ xlit (hex (bytes_of name))"

fun founding_asks :: "u32 \<Rightarrow> cppstring \<Rightarrow> founding \<Rightarrow> ask list" where
  "founding_asks license name Unreachable = []"
| "founding_asks license name Has_Team = [Finds (sql (no_team_sql license)) []]"
| "founding_asks license name (Name_Taken r) = [Finds (sql (no_team_sql license)) [[]], Finds (name_sql name) [r]]"
| "founding_asks license name (Not_Stored r) =
     [Finds (sql (no_team_sql license)) [r], Finds (name_sql name) [], insert_does license name, Finds (stored_sql name) []]"
| "founding_asks license name (Founded r t) =
     [Finds (sql (no_team_sql license)) [r], Finds (name_sql name) [], insert_does license name,
      Finds (stored_sql name) [[(''teamid'', t)]],
      Does (''UPDATE account_data SET teamid = '' @ t @ '' WHERE license = '' @ dec_word license)]"

definition found_part :: "'d env \<Rightarrow> u32 \<Rightarrow> cppstring \<Rightarrow> ('d session, byte) prog" where
  "found_part E license name = bnd (db_exec E (sql (no_team_sql license))) (\<lambda>res.
     if res \<noteq> 0
     then bnd (db_exec E (name_sql name)) (\<lambda>res. if res \<noteq> 0 then ret 1 else insert_team E license name)
     else ret 2)"

lemma asks_found_part:
  assumes "F \<noteq> Unreachable" "length name \<le> 4096"
  shows "asks_only E None (found_part E license name) (founding_asks license name F) (founding_code F) None"
proof -
  have hx: "asks_only E K (hex_of_string name) [] (hex (bytes_of name)) K" for K
    using assms(2) by (intro asks_onlyI) (simp add: hex_text_run)
  have ins: "asks_only E K (run_sql E [''INSERT INTO team_data(leader, teamname) VALUES('', dec_word license, '', '',
        xlit (hex (bytes_of name)), '')'']) [insert_does license name] () None" for K
    by (rule asks_eq, rule asks_run_sql) (simp_all add: insert_does_def)
  have st: "sql [''SELECT teamid FROM team_data WHERE teamname = '', xlit (hex (bytes_of name))] = stored_sql name"
    by (simp add: stored_sql_def)
  show ?thesis
  proof (cases F)
    case Has_Team
    show ?thesis
      unfolding found_part_def Has_Team founding_asks.simps founding_code.simps
      by (rule asks_not_found, rule asks_forget, rule asks_ret)
  next
    case (Name_Taken r)
    show ?thesis
      unfolding found_part_def Name_Taken founding_asks.simps founding_code.simps
      by (rule asks_found, rule asks_found, rule asks_forget, rule asks_ret)
  next
    case (Not_Stored r)
    show ?thesis
      unfolding found_part_def Not_Stored founding_asks.simps founding_code.simps insert_team_def
      apply (rule asks_found, rule asks_not_found)
      apply (rule asks_eq)
        apply (rule asks_bnd, rule hx, rule asks_stm, rule ins, simp only: st)
        apply (rule asks_not_found, rule asks_forget, rule asks_ret)
      by simp_all
  next
    case (Founded r t)
    show ?thesis
      unfolding found_part_def Founded founding_asks.simps founding_code.simps insert_team_def
      apply (rule asks_found, rule asks_not_found)
      apply (rule asks_eq)
        apply (rule asks_bnd, rule hx, rule asks_stm, rule ins, simp only: st)
        apply (rule asks_found, rule asks_cell [where v = t], rule asks_stm, rule asks_run_sql, rule asks_ret)
      by simp_all
  qed (use assms(1) in simp)
qed

definition founding_request :: "client \<Rightarrow> u32 \<Rightarrow> cppstring \<Rightarrow> bool" where
  "founding_request c license name \<longleftrightarrow>
     unat (getType (inbuf c)) = 2 \<and> getSubType (inbuf c) = 3 \<and> wf_packet (inbuf c) \<and> text_ok 16 name \<and>
     (\<exists>rest. drop 6 (buffer (inbuf c)) = u32_bytes license @ pad_field 16 name @ rest)"

definition founding_fields :: "u32 \<Rightarrow> cppstring \<Rightarrow> founding \<Rightarrow> byte list list" where
  "founding_fields license name F = [u32_bytes license, u32_bytes 0, [founding_code F], pad_field 16 name]"

lemma new_team_with_db:
  assumes "length name \<le> 4096"
  shows "new_team E license name u = with_db E (found_part E license name) 1 u"
proof -
  have "hex_of_string (tolower name) u = Inr (hex (bytes_of (tolower name)), u)"
    by (rule hex_text_run) (use assms in \<open>simp add: tolower_def\<close>)
  moreover have "(\<lambda>res :: int. if res = 0 then A else B) = (\<lambda>res. if res \<noteq> 0 then B else A)"
    for A B :: "('a session, byte) prog" by auto
  ultimately show ?thesis
    by (simp add: new_team_def bnd_run [of "hex_of_string _"] with_db_def found_part_def name_sql_def bnd_assoc cong: if_cong)
qed

lemma founding_runs:
  assumes "founding_request (cl s) license name" "Open (api E) (sdb s) = Inr (r, D)" "F = Unreachable \<longleftrightarrow> r \<noteq> DB_OK"
    and "answers E D (founding_asks license name F) = Some D'"
  shows "\<exists>p D''. ClientRequests E s = Inr (FallOut, \<lparr>cl = (cl s)\<lparr>inbuf := p,
    outbuf := message_of 2 0 (founding_fields license name F)\<rparr>, sdb = D''\<rparr>)"
proof -
  obtain rest where req: "getSubType (inbuf (cl s)) = 3" "wf_packet (inbuf (cl s))" "text_ok 16 name"
    "drop 6 (buffer (inbuf (cl s))) = u32_bytes license @ pad_field 16 name @ rest"
    using assms(1) by (auto simp: founding_request_def)
  have len: "length name \<le> 4096" using req(3) by (simp add: text_ok_def)
  obtain p where p: "ClientRequests E s = bnd (new_team E license name) (\<lambda>result.
      stm (steps [start_reply 2 0, out_u32 license, out_stoul ''0'', out_u8 result, out_string name 0x10])
      (ret FallOut)) (s\<lparr>cl := (cl s)\<lparr>inbuf := p\<rparr>\<rparr>)" using create_team_request [OF req(1,2,4,3)] by blast
  let ?s = "s\<lparr>cl := (cl s)\<lparr>inbuf := p\<rparr>\<rparr>"
  have "\<exists>D''. with_db E (found_part E license name) 1 ?s = Inr (founding_code F, ?s\<lparr>sdb := D''\<rparr>)"
  proof (rule with_db_run)
    show "Open (api E) (sdb ?s) = Inr (r, D)" using assms(2) by simp
    show "asks_only E None (found_part E license name) (founding_asks license name F) (founding_code F) None \<and>
        answers E D (founding_asks license name F) = Some D'" if "r = DB_OK"
      using asks_found_part [OF _ len] assms(3,4) that by blast
    show "founding_code F = 1" if "r \<noteq> DB_OK" using assms(3) that by simp
  qed
  then obtain D'' where "new_team E license name ?s = Inr (founding_code F, ?s\<lparr>sdb := D''\<rparr>)"
    unfolding new_team_with_db [OF len] by blast
  then have "ClientRequests E s = Inr (FallOut, set_out (message_of 2 0 (founding_fields license name F)) (?s\<lparr>sdb := D''\<rparr>))"
    unfolding p by (simp add: bnd_run [of "new_team _ _ _"] create_team_reply [OF req(3)] founding_fields_def del: steps.simps)
  then show ?thesis
    by (intro exI [of _ p] exI [of _ D'']) (cases s, simp add: set_out_def)
qed


section \<open>Examples\<close>



end
