(* ===== verification/Team_Removal.thy ===== *)
theory Team_Removal
  imports Team_Answers
begin

text \<open>
  The removal of a member from a team: what the leader's game server is answered, what the database is
  sent, and what this does to the row of the member.
\<close>

section \<open>Assignments of conditions\<close>

text \<open>
  The part of SQL in which the statement is written, as text and as what SQL says it does. A row gives every
  column a number or NULL. A comparison with NULL is NULL; \<open>AND\<close> is 0 when one side is, and otherwise
  NULL when one side is. \<open>=\<close> binds stronger than \<open>AND\<close>, but the first one of an assignment is no comparison.
\<close>

datatype sql_expr = Null | Num nat | Col cppstring | Equal sql_expr sql_expr | Both sql_expr sql_expr

type_synonym sql_row = "cppstring \<Rightarrow> nat option"

fun expr_text :: "sql_expr \<Rightarrow> cppstring" where
  "expr_text Null = ''NULL''"
| "expr_text (Num n) = dec n"
| "expr_text (Col c) = c"
| "expr_text (Equal a b) = expr_text a @ '' = '' @ expr_text b"
| "expr_text (Both a b) = expr_text a @ '' AND '' @ expr_text b"

fun expr_value :: "sql_row \<Rightarrow> sql_expr \<Rightarrow> nat option" where
  "expr_value r Null = None"
| "expr_value r (Num n) = Some n"
| "expr_value r (Col c) = r c"
| "expr_value r (Equal a b) =
     (case (expr_value r a, expr_value r b) of (Some x, Some y) \<Rightarrow> Some (if x = y then 1 else 0) | _ \<Rightarrow> None)"
| "expr_value r (Both a b) =
     (if expr_value r a = Some 0 \<or> expr_value r b = Some 0 then Some 0
      else if expr_value r a = None \<or> expr_value r b = None then None else Some 1)"

datatype account_set = Set_Account cppstring sql_expr sql_expr

fun set_text :: "account_set \<Rightarrow> cppstring" where
  "set_text (Set_Account c e w) =
     ''UPDATE account_data SET '' @ c @ '' = '' @ expr_text e @ '' WHERE '' @ expr_text w"

fun set_effect :: "account_set \<Rightarrow> sql_row \<Rightarrow> sql_row" where
  "set_effect (Set_Account c e w) r =
     (case expr_value r w of Some (Suc n) \<Rightarrow> r(c := expr_value r e) | _ \<Rightarrow> r)"

definition leave_team :: "u32 \<Rightarrow> account_set" where
  "leave_team member = Set_Account ''teamid'' (Both Null (Equal (Col ''teamarea'') (Num 0)))
     (Equal (Col ''license'') (Num (unat member)))"

lemma leave_team_text:
  "set_text (leave_team member) =
    ''UPDATE account_data SET teamid = NULL AND teamarea = 0 WHERE license = '' @ dec_word member"
  by (simp add: leave_team_def zero_text [symmetric])

lemma leave_team_effect:
  "set_effect (leave_team member) r =
    (if r ''license'' = Some (unat member)
     then r(''teamid'' := (case r ''teamarea'' of Some (Suc a) \<Rightarrow> Some 0 | _ \<Rightarrow> None)) else r)"
  by (auto simp: leave_team_def split: option.splits nat.splits if_splits)

section \<open>The request\<close>

text \<open>
  What the database knows: it can not be opened or the leader names himself, the account is in no team, in a
  team it does not lead, leads a team the other one is not in, or one that has so many members once
  the statement was executed.
\<close>

datatype removal = Refused_At_Once | No_Team_Of_Own | Not_Its_Leader u32 | Not_A_Member u32 columns
  | Removed u32 columns columns "columns list"

fun removal_code :: "removal \<Rightarrow> byte" where
  "removal_code (Removed t r m rs) = 0"
| "removal_code A = 1"

definition count_sql :: "u32 \<Rightarrow> cppstring" where
  "count_sql t = ''SELECT * FROM account_data WHERE teamid = '' @ dec_word t"

definition count_does :: "u32 \<Rightarrow> nat \<Rightarrow> ask list" where
  "count_does t n = (if n = 0 then []
     else [Does (''UPDATE team_data SET teamcount = '' @ dec (if 1 < n then n - 1 else n) @ '' WHERE teamid = '' @ dec_word t)])"

fun removal_asks :: "u32 \<Rightarrow> u32 \<Rightarrow> removal \<Rightarrow> ask list" where
  "removal_asks license member Refused_At_Once = []"
| "removal_asks license member No_Team_Of_Own = [Finds (sql (account_in_team_sql license)) []]"
| "removal_asks license member (Not_Its_Leader t) =
     [Finds (sql (account_in_team_sql license)) [[(''teamid'', dec_word t)]],
      Finds (sql (leads_sql (dec_word t) license)) []]"
| "removal_asks license member (Not_A_Member t r) =
     [Finds (sql (account_in_team_sql license)) [[(''teamid'', dec_word t)]],
      Finds (sql (leads_sql (dec_word t) license)) [r], Finds (sql (member_sql member (dec_word t))) []]"
| "removal_asks license member (Removed t r m rs) =
     [Finds (sql (account_in_team_sql license)) [[(''teamid'', dec_word t)]],
      Finds (sql (leads_sql (dec_word t) license)) [r], Finds (sql (member_sql member (dec_word t))) [m],
      Does (set_text (leave_team member)), Finds (count_sql t) rs] @ count_does t (length rs)"

lemma asks_recount:
  assumes "length rs < 2 ^ 32"
  shows "asks_only E K (recount_team E (dec_word t)) (Finds (count_sql t) rs # count_does t (length rs)) () None"
proof -
  let ?n = "word_of_int (int (length rs)) :: u32"
  have n: "unat ?n = length rs" using assms by (simp add: unat_of_nat)
  then have z: "?n \<noteq> 0 \<longleftrightarrow> rs \<noteq> []" by (metis length_0_conv unat_eq_zero)
  have d: "dec_word (if 1 < ?n then ?n - 1 else ?n) = dec (if 1 < length rs then length rs - 1 else length rs)"
    using n by (simp add: word_less_nat_alt unat_sub_if_size)
  have "asks_only E (Some rs) (let teamcount = ?n in whenP (teamcount \<noteq> 0) (run_sql E [''UPDATE team_data SET '',
      ''teamcount = '', dec_word (if 1 < teamcount then teamcount - 1 else teamcount), '' WHERE teamid = '', dec_word t]))
      (count_does t (length rs)) () None"
  proof (cases "rs = []")
    case True
    then show ?thesis using z asks_forget [OF asks_ret] by (simp add: Let_def whenP_def count_does_def)
  next
    case False
    have "asks_only E (Some rs) (run_sql E [''UPDATE team_data SET '', ''teamcount = '',
        dec (if 1 < length rs then length rs - 1 else length rs), '' WHERE teamid = '', dec_word t]) (count_does t (length rs)) () None"
      by (rule asks_eq, rule asks_run_sql) (use False in \<open>simp_all add: count_does_def\<close>)
    then show ?thesis unfolding Let_def d using z False by (simp add: whenP_def)
  qed
  from asks_bnd [where f = "\<lambda>res. let teamcount = word_of_int res :: u32 in whenP (teamcount \<noteq> 0) (run_sql E [''UPDATE team_data SET '',
      ''teamcount = '', dec_word (if 1 < teamcount then teamcount - 1 else teamcount), '' WHERE teamid = '', dec_word t])", OF asks_exec this]
  show ?thesis by (simp add: recount_team_def count_sql_def)
qed

fun removal_fits :: "removal \<Rightarrow> bool" where
  "removal_fits (Removed t r m rs) \<longleftrightarrow> length rs < 2 ^ 32"
| "removal_fits A \<longleftrightarrow> True"

lemma asks_take_member:
  assumes "A \<noteq> Refused_At_Once" "removal_fits A"
  shows "asks_only E None (take_member E license member) (removal_asks license member A) (removal_code A) None"
proof (cases A)
  case No_Team_Of_Own
  show ?thesis
    unfolding take_member_def No_Team_Of_Own removal_asks.simps removal_code.simps
    by (rule asks_not_found, rule asks_forget, rule asks_ret)
next
  case (Not_Its_Leader t)
  show ?thesis
    unfolding take_member_def Not_Its_Leader removal_asks.simps removal_code.simps
    by (rule asks_found, rule asks_cell [where v = "dec_word t"], rule asks_not_found, rule asks_forget, rule asks_ret) simp
next
  case (Not_A_Member t r)
  show ?thesis
    unfolding take_member_def Not_A_Member removal_asks.simps removal_code.simps
    by (rule asks_found, rule asks_cell [where v = "dec_word t"], rule asks_found, rule asks_not_found,
        rule asks_forget, rule asks_ret) simp
next
  case (Removed t r m rs)
  then have rs: "length rs < 2 ^ 32" using assms(2) by simp
  show ?thesis
    unfolding take_member_def Removed removal_asks.simps removal_code.simps append.simps
    apply (rule asks_found, rule asks_cell [where v = "dec_word t"], rule asks_found, rule asks_found)
     apply (rule asks_eq, rule asks_stm, rule asks_steps, rule asks_run_sql, rule asks_steps, rule asks_recount [OF rs],
        rule asks_steps(1), rule asks_ret)
    by (simp_all add: leave_team_text)
qed (use assms(1) in simp)

section \<open>The answer\<close>

definition removal_request :: "client \<Rightarrow> u32 \<Rightarrow> u32 \<Rightarrow> bool" where
  "removal_request c license member \<longleftrightarrow>
     unat (getType (inbuf c)) = 2 \<and> getSubType (inbuf c) = 9 \<and> wf_packet (inbuf c) \<and>
     (\<exists>rest. drop 6 (buffer (inbuf c)) = u32_bytes license @ u32_bytes member @ rest)"

definition removal_fields :: "u32 \<Rightarrow> removal \<Rightarrow> byte list list" where
  "removal_fields license A = [u32_bytes license, [removal_code A]]"

text \<open>The part on the open database; a leader that names himself leaves it open.\<close>

lemma remove_member_result:
  assumes "Open (api E) (sdb s) = Inr (r, D)" "A = Refused_At_Once \<longleftrightarrow> r \<noteq> DB_OK \<or> license = member"
    and "removal_fits A" "answers E D (removal_asks license member A) = Some D'"
  shows "\<exists>D''. bnd (db_open E) (\<lambda>res. bnd (if res = DB_OK \<and> license \<noteq> member
          then bnd (take_member E license member) (\<lambda>result. stm (db_close_only E) (ret result))
          else ret 1) f) s = f (removal_code A) (s\<lparr>sdb := D''\<rparr>)"
proof (cases "license = member")
  case True
  then have "removal_code A = 1" using assms(2) by simp
  then show ?thesis using assms(1) True
    by (intro exI [of _ D]) (simp add: bnd_run db_open_def on_db_def ret_run)
next
  case False
  have "\<exists>D''. with_db E (take_member E license member) 1 s = Inr (removal_code A, s\<lparr>sdb := D''\<rparr>)"
  proof (rule with_db_run [OF assms(1)])
    show "asks_only E None (take_member E license member) (removal_asks license member A) (removal_code A) None \<and>
        answers E D (removal_asks license member A) = Some D'" if "r = DB_OK"
      using asks_take_member [OF _ assms(3)] assms(2,4) False that by blast
    show "removal_code A = 1" if "r \<noteq> DB_OK" using assms(2) that by simp
  qed
  then obtain D'' where "with_db E (take_member E license member) 1 s = Inr (removal_code A, s\<lparr>sdb := D''\<rparr>)" by blast
  then have "bnd (with_db E (take_member E license member) 1) f s = f (removal_code A) (s\<lparr>sdb := D''\<rparr>)"
    by (simp add: bnd_run)
  then show ?thesis using False by (intro exI [of _ D'']) (simp add: with_db_def bnd_assoc)
qed

lemma removal_runs:
  assumes "removal_request (cl s) license member" "Open (api E) (sdb s) = Inr (r, D)"
    and "A = Refused_At_Once \<longleftrightarrow> r \<noteq> DB_OK \<or> license = member"
    and "removal_fits A" "answers E D (removal_asks license member A) = Some D'"
  shows "\<exists>p D''. ClientRequests E s = Inr (FallOut, \<lparr>cl = (cl s)\<lparr>inbuf := p,
    outbuf := message_of 2 5 (removal_fields license A)\<rparr>, sdb = D''\<rparr>)"
proof -
  let ?s = "s\<lparr>cl := (cl s)\<lparr>inbuf := setOffset 6 (inbuf (cl s))\<rparr>\<rparr>"
  obtain rest where r: "drop 6 (buffer (inbuf (cl s))) = u32_bytes license @ u32_bytes member @ rest"
    using assms(1) by (auto simp: removal_request_def)
  have a: "asks ?s (u32_bytes license @ u32_bytes member @ rest)"
    using assms(1) r by (simp add: asks_def unread_def setOffset_def removal_request_def wf_packet_def)
  note b0 = reads_bnd [OF reads_u32 a]
  note b1 = reads_bnd [OF reads_u32 b0(2)]
  let ?u = "skip_in (length (u32_bytes member)) (skip_in (length (u32_bytes license)) ?s)"
  let ?reply = "\<lambda>result. stm (steps [start_reply 2 5, out_u32 license, out_u8 result]) (ret FallOut) :: ('a session, after) prog"
  have c: "ClientRequests E s = remove_member E ?s"
    using assms(1) by (simp add: ClientRequests_def stm_run in_offset_def on_in_def bnd_run gets_run
      getSubType_def setOffset_def removal_request_def)
  have "\<exists>p. ?u = s\<lparr>cl := (cl s)\<lparr>inbuf := p\<rparr>\<rparr>" by (simp add: skip_in_def) blast
  then obtain p where p: "?u = s\<lparr>cl := (cl s)\<lparr>inbuf := p\<rparr>\<rparr>" by blast
  have "Open (api E) (sdb ?u) = Inr (r, D)" unfolding p using assms(2) by simp
  from remove_member_result [OF this assms(3-5), of ?reply] obtain D'' where
    "remove_member E ?s = ?reply (removal_code A) (?u\<lparr>sdb := D''\<rparr>)"
    unfolding remove_member_def b0(1) b1(1) by blast
  moreover have w: "writes (steps [out_u32 license, out_u8 (removal_code A)] :: ('a session, unit) prog) ([u32_bytes license] @ [[removal_code A]] @ [])"
    by (intro writes_rules)
  have "?reply (removal_code A) v = Inr (FallOut, set_out (message_of 2 5 (removal_fields license A)) v)" for v
    using reply_run [OF w] by (simp add: stm_run [of "steps _"] ret_run removal_fields_def del: steps.simps)
  ultimately show ?thesis unfolding c p
    by (intro exI [of _ p] exI [of _ D'']) (cases s, simp add: set_out_def)
qed


section \<open>An example\<close>

text \<open>Account 7 leads team 1 and removes account 8, who has the area 3 of the team; one member is left.\<close>

definition removed_eight :: removal where
  "removed_eight = Removed 1 [] [] [[]]"

definition row_of_eight :: sql_row where
  "row_of_eight = [''license'' \<mapsto> 8, ''teamid'' \<mapsto> 1, ''teamarea'' \<mapsto> 3]"


end
