(* ===== verification/Spec2Isabelle.thy ===== *)
theory Spec2Isabelle
  imports
    Startup_Properties
    Output_Properties
    Table_Rounds
    Security_Properties
    Fault_Properties
    Link_Properties
    Chat_Properties
    Codec_Properties
    Account_Properties
    Save_Login
    Short_Replies
    Wire_Requests
    Garage_Requests
    Key_Properties
    Team_Removal
begin

text \<open>
  SBOL DB Server is the database server of an online racing game. Game servers connect to it over TCP,
  prove with a stored key that they belong to it, and then send requests on behalf of players:
  log in, save an account, manage teams, relay chat. It answers from a SQLite or MySQL database.
  This development models the server's own C++ code and proves what makes it correct, and, where the
  code has a hole, exactly where the hole is.

  \<^bold>\<open>How the code is modelled.\<close> A program is a function from a state to a fault or a result and a new
  state (\<open>Prelude\<close>). A \<open>fault\<close> is an access outside an array or string, a C++ exception
  that nothing catches, a call through a wild function pointer, or a loop that never leaves; the code
  that may do one of these has a branch for it. Integers are words of their width and wrap as in C++.
  Operating system, clock, random numbers, OpenSSL, the JSON parser and the two
  database libraries are arguments: the records \<open>env\<close>, \<open>dbapi\<close>, \<open>config_file\<close>, \<open>round_env\<close>,
  \<open>program_env\<close> and \<open>socket_calls\<close>.

  \<^bold>\<open>The theories and the code.\<close>
  \<^item> \<open>Bytes\<close>, \<open>Globals\<close>: little-endian encoding (the locale \<open>le_codec\<close>, interpreted for each width);
    globals.h.
  \<^item> \<open>HexString\<close>: both overloads of \<open>Server::HexString\<close>; the round trip with \<open>unhex\<close>.
  \<^item> \<open>Packet\<close>: serverpacket.cpp and .h. \<open>Packet_Streams\<close>: a packet as a stream that is written and
    read back (the locales \<open>byte_sink\<close> and \<open>byte_source\<close>).
  \<^item> \<open>Database\<close>: database.cpp; the locale \<open>row_source\<close> says what a query promises, and is interpreted
    on both back ends and on \<open>Exec\<close>.
  \<^item> \<open>Client\<close>: client.cpp without \<open>ProcessPacket\<close>; \<open>Dispatch\<close>: \<open>ProcessPacket\<close>, packets.h and
    \<open>Server::CheckClientPackets\<close>.
  \<^item> \<open>Session\<close>: a slot and the database, on which the handlers work, and their idioms.
    \<open>Client_Auth\<close>, \<open>Client_Operations\<close>, \<open>Client_Requests\<close>, \<open>Team_Requests\<close>, \<open>Server_Auth\<close>,
    \<open>Passwords\<close>: the handlers under Packets/.
  \<^item> \<open>Server_State\<close>: the class \<open>Server\<close> and its table of connections; \<open>Network\<close>: \<open>Send\<close>, \<open>Recv\<close>,
    \<open>ProcessRecv\<close>; \<open>Server_Loop\<close>: \<open>Start\<close>, \<open>ServerThread\<close> and the steps of a run.
  \<^item> \<open>Config\<close>, \<open>Schema\<close>, \<open>Accounts\<close>: reading the configuration, \<open>checkDB\<close>, the commands that create
    accounts and keys (server.cpp). \<open>Logger\<close>: Logger.cpp. \<open>Main_Program\<close>: \<open>wmain\<close>.

  The code calls from \<open>round_of_loop\<close> through \<open>service_slot\<close>, \<open>Recv\<close>, \<open>ProcessRecv\<close>,
  \<open>CheckClientPackets\<close>, \<open>ProcessPacket\<close> and \<open>MainPacketFunctions\<close> into a handler, which runs on its
  slot and the database as a \<open>session\<close>; what it returns says whether its reply is sent to its own
  slot or broadcast (\<open>finish\<close>). The definitions compose in the same way.

  \<^bold>\<open>What is proved.\<close>
  \<^item> \<open>Slots\<close> and \<open>Invariants\<close>: the invariant \<open>server_ok\<close> of the server and its preservation
    by every operation, for every fault-free outcome of the handlers; this theory states what follows
    for all states that a run reaches.
  \<^item> \<open>Framing\<close>: the receive and the send side of a slot as byte queues (the locale \<open>byte_queue\<close>, with an
    interpretation for each side); on it rest \<open>Connection_Properties\<close> and \<open>Output_Properties\<close>, and
    \<open>Link_Properties\<close> joins the two ends of a connection.
  \<^item> \<open>Table_Properties\<close> and \<open>Table_Rounds\<close>: the table of connections refines a list of slot numbers, first for
    \<open>AcceptConnection\<close> and \<open>InitializeConnection\<close>, then for a whole round of the loop, with what the handlers do in it.
  \<^item> \<open>Statements\<close> and \<open>Observation\<close>: an engine that records the statements it is given, and the proof
    that the handlers can not tell it from the engine it wraps. On it rest \<open>Sql_Properties\<close> and
    \<open>Security_Properties\<close>.
  \<^item> \<open>Exchange\<close>: a calculus of the calls that read a request and write a reply (\<open>reads\<close>, \<open>writes\<close>), in
    which the handlers are run on encoded requests: \<open>Chat_Properties\<close> (what is relayed to whom),
    \<open>Login_Properties\<close> (who gets in, what is sent back), \<open>Team_Properties\<close> (who may change a team),
    \<open>Save_Properties\<close> (a save request refines the program of the database \<open>stored\<close>).
  \<^item> \<open>Query_Answers\<close>: a second calculus, of what a handler asks the database and what it writes when the
    answers are given (\<open>asks_only\<close>, \<open>serves\<close>, \<open>replies\<close>); \<open>Told_Database\<close>: an engine that gives any list of
    answers, so that what the theorems assume of the database can be had; \<open>Delivery\<close>: from the outcome of a
    handler to the queues of the whole server; \<open>Arrival\<close>: from the bytes of a socket to \<open>ProcessPacket\<close>. On these rest \<open>Team_Reply\<close> (the data of a team, to every
    connection), \<open>Login_Reply\<close> (the whole reply to a login), \<open>Wire_Requests\<close> (from the
    bytes of the request to the bytes of the reply, and the frames that end the program), \<open>Short_Replies\<close> (refused logins,
    the question for a handle) and \<open>Save_Login\<close> (what was saved comes back at
    the next login).
  \<^item> \<open>Team_Answers\<close>: what a game server gets back when it founds a team or gives an order to one, for every answer of the
    database. \<open>Team_Removal\<close>: the removal of a member, with the assignment the code sends as a syntax tree
    that has a text and a value.
  \<^item> \<open>Garage_Requests\<close>: the statements on the cars of a garage, as text and as what they do to the rows.
  \<^item> \<open>Key_Properties\<close>: the key file of the administrator's command opens the server; the heartbeat request.
  \<^item> \<open>Codec_Properties\<close>: round trips of hexadecimal text and of the fields of messages, the agreement of
    the two database back ends, and the frame of the handlers. \<open>Account_Properties\<close>: passwords from the
    administrator's command to the login; a peer that closes its connection.
  \<^item> \<open>Fault_Properties\<close>: where a run can go wrong. \<open>Startup_Properties\<close>: the start of the program.
  \<^item> \<open>Samples\<close>: a scripted database and requests, on which the theorems are instantiated.

  \<^bold>\<open>Bounds.\<close> Buffers have 8192 bytes (\<open>CLIENT_BUFFER_SIZE\<close>). No definition uses fuel: the padding loop
  of \<open>Send\<close> is a \<open>while_option\<close>, whose \<open>None\<close> is the fault \<open>Diverges\<close>, and
  \<open>Send_returns_iff_padding_fits\<close> says when it ends; every other loop runs over a list.

  \<^bold>\<open>Not modelled.\<close> The text of the help, the icon and the title of the console window; printing and
  the writing of log files (\<open>Logger\<close> models what is written and where); socket options; the
  wall clock. Encryption and compression are compiled out in the source and are the identity here.
  \<open>ThreadPool.h\<close> is not used. The libraries under include/ and lib/ are parameters. A data race between
  the console thread, which can pause and stop the server, and the server thread is modelled
  as an interleaving of whole steps.
\<close>

section \<open>The whole server\<close>

text \<open>A run of the server: it starts, its thread begins, and then it makes steps.\<close>

definition run_reaches ::
  "'d env \<Rightarrow> config_file \<Rightarrow> 'd \<Rightarrow> (nat \<Rightarrow> bool \<times> bool) \<Rightarrow> socket_calls \<Rightarrow> 'd server \<Rightarrow> bool" where
  "run_reaches E f d flags calls t \<longleftrightarrow>
     (\<exists>svc s s0. Start E f d flags (new_Server svc) = Inr (0, s) \<and>
        ServerThread_begin calls s = Inr ((), s0) \<and> reachable E s0 t)"

lemma run_reaches_ok:
  assumes "run_reaches E f d flags calls t"
  shows "server_ok t"
proof -
  obtain svc s s0 where r: "Start E f d flags (new_Server svc) = Inr (0, s)"
    "ServerThread_begin calls s = Inr ((), s0)" "reachable E s0 t"
    using assms by (auto simp: run_reaches_def)
  have "server_ok s" using Start_ok [OF r(1)] by (simp add: new_Server_def)
  from ServerThread_begin_ok [OF r(2) this] show ?thesis by (rule reachable_ok [OF r(3)])
qed

text \<open>
  C1: In every state that a run of the server reaches, whatever its peers, its database and the
  administrator do, the table of connections is exact: its list names the slots in use, each of them
  once and in the slot's own numbering, so \<open>serverNumConnections\<close> is how many they are.
\<close>

theorem table_of_connections_is_exact:
  assumes "run_reaches E f d flags calls t"
  shows "let used = {k. k < length (connections t) \<and> slot_used (connections t ! k)} in
    distinct (listed t) \<and> unat ` set (listed t) = used \<and>
    unat (serverNumConnections t) = card used \<and>
    (\<forall>k. k \<in> used \<longrightarrow> unat (connection_index (connections t ! k)) = k)"
proof -
  have "table_ok t" using run_reaches_ok [OF assms] by (simp add: server_ok_def)
  then show ?thesis
    using listed_length(2) [of t] by (simp add: Let_def table_ok_def slots_in_use_def)
qed

text \<open>
  C2: In every state that a run reaches, two different slots that are authenticated hold different
  pairs of vector and key, and each of them is in the list of connections: no key serves two game
  servers at once.
\<close>

theorem connections_never_share_a_key:
  assumes "run_reaches E f d flags calls t"
  shows "let authenticated = {i. i < length (connections t) \<and> isAuth (connections t ! i)} in
    inj_on (\<lambda>i. (iv (connections t ! i), key (connections t ! i))) authenticated \<and>
    authenticated \<subseteq> unat ` set (listed t)"
proof -
  have ok: "server_ok t" by (rule run_reaches_ok [OF assms])
  then have "inj_on (\<lambda>i. (iv (connections t ! i), key (connections t ! i)))
      {i. i < length (connections t) \<and> isAuth (connections t ! i)}"
    unfolding server_ok_def keys_distinct_def peer_key_def by (intro inj_onI) blast
  moreover have "{i. i < length (connections t) \<and> isAuth (connections t ! i)} \<subseteq> unat ` set (listed t)"
    using ok server_ok_slot [OF ok] by (auto simp: server_ok_def table_ok_def slots_in_use_def slot_ok_def)
  ultimately show ?thesis by (simp add: Let_def)
qed

text \<open>
  C28: In every state that a run reaches, every slot is within the bounds of its memory: the buffers
  have their sizes, the number of bytes received does not pass the receive buffer, the unsent rest of a
  message lies in the send buffer, and every entry of the send queue is a full buffer.
\<close>

theorem buffers_stay_within_bounds:
  assumes "run_reaches E f d flags calls t" "c \<in> set (connections t)"
  shows "length (rcvbuf c) = CLIENT_BUFFER_SIZE \<and> unat (rcvread c) \<le> CLIENT_BUFFER_SIZE \<and>
    length (sndbuf c) = CLIENT_BUFFER_SIZE \<and> nat (snddata c) \<le> CLIENT_BUFFER_SIZE \<and>
    length (buffer (inbuf c)) = CLIENT_BUFFER_SIZE \<and> length (buffer (outbuf c)) = CLIENT_BUFFER_SIZE \<and>
    list_all (\<lambda>e. length e = CLIENT_BUFFER_SIZE) (sendQueue c) \<and>
    length (key c) = KEY_SIZE \<and> length (iv c) = BLOCK_SIZE"
proof -
  have "slot_ok c" using run_reaches_ok [OF assms(1)] assms(2) by (simp add: server_ok_def list_all_iff)
  then show ?thesis
    by (auto simp: slot_ok_def wf_packet_def queued_def list_all_iff KEY_SIZE_def BLOCK_SIZE_def
        CLIENT_BUFFER_SIZE_def)
qed

section \<open>An example of a run\<close>

text \<open>
  The server starts with the default configuration, and its first round accepts a connection on which
  nothing has arrived yet.
\<close>

definition calm :: "client \<Rightarrow> bool" where
  "calm c \<longleftrightarrow> \<not> slot_used c \<and> rcvread c = 0 \<and> \<not> todc c \<and> lastHeartBeat c = 0"

lemma calm_Initialize: "calm (Initialize c)"
  by (simp add: calm_def Initialize_free) (simp add: Initialize_def ClearSendQueue_def)

definition calls_ok :: socket_calls where
  "calls_ok = \<lparr>socket_fd = 3, bind_result = 0, listen_result = 0\<rparr>"

lemma begin_keeps_calm:
  assumes "ServerThread_begin calls_ok s = Inr ((), t)" "list_all calm (connections s)" "\<not> paused s"
  shows "list_all calm (connections t)" "length (connections t) = length (connections s)"
    and "running t" "\<not> paused t"
proof -
  let ?P = "\<lambda>u :: 'a server. list_all calm (connections u) \<and> length (connections u) = length (connections s) \<and>
    \<not> paused u"
  have init: "?P v" if "InitializeConnection k u = Inr v" "?P u" for k u v
  proof -
    have "connections v = (connections u)[k := Initialize (connections u ! k)]" "paused v = paused u"
      using that(1) by (auto simp: InitializeConnection_def Let_def split: if_splits prod.splits)
    moreover have "list_all calm ((connections u)[k := Initialize (connections u ! k)])"
      using that(2) calm_Initialize by (auto simp: list_all_iff dest!: set_update_subset_insert [THEN subsetD])
    ultimately show ?thesis using that(2) by simp
  qed
  have "keeps ?P (act (InitializeConnection k))" for k
    by (rule keepsI) (use init in \<open>fastforce simp: act_def split: sum.splits\<close>)
  then have k: "keeps ?P (for_each ks (\<lambda>k. act (InitializeConnection k)))" for ks by (rule keeps_for_each)
  obtain v where v: "for_each [0..<length (connections s)] (\<lambda>k. act (InitializeConnection k)) s = Inr ((), v)"
    "t = v\<lparr>ServerSocket := 3, running := True\<rparr>"
    using assms(1) by (auto simp: ServerThread_begin_def prog_simps TcpSockOpen_def calls_ok_def split: sum.splits)
  have "?P v" using keepsD [OF k _ v(1)] assms(2,3) by simp
  then show "list_all calm (connections t)" "length (connections t) = length (connections s)"
    "running t" "\<not> paused t"
    using v(2) by simp_all
qed

definition first_peer :: incoming where
  "first_peer = \<lparr>in_fd = 5, in_text = [49, 46, 49], in_addr = replicate 4 1\<rparr>"

definition first_round :: round_env where
  "first_round = idle_round\<lparr>accept_ready := True, pending := [first_peer]\<rparr>"

lemma first_round_ok: "round_ok first_round"
  by (simp add: round_ok_def first_round_def idle_round_def first_peer_def)

lemma first_round_accepts:
  assumes "table_ok s" "list_all calm (connections s)" "connections s \<noteq> []"
  shows "\<exists>t. round_of_loop E first_round s = Inr ((), t) \<and> slots_in_use (connections t) = {0}"
proof -
  let ?s = "s\<lparr>TempSocket := 5\<rparr>"
  have z: "calm (connections ?s ! 0)" "0 < length (connections ?s)"
    using assms(2,3) by (simp_all add: list_all_length)
  then have f: "FreeConnection ?s = 0" using assms(3)
    by (cases "connections s") (simp_all add: FreeConnection_def calm_def slot_used_def)
  have free: "\<not> slot_used (connections ?s ! 0)" and tab: "table_ok ?s" using z(1) assms(1) by (simp_all add: calm_def)
  obtain t where t: "take_slot 0 first_peer ?s = Inr t"
    "slots_in_use (connections t) = insert 0 (slots_in_use (connections ?s))"
    using take_slot_ok [OF tab z(2) free, of first_peer] by (auto simp: first_peer_def)
  have none: "slots_in_use (connections s) = {}"
    using assms(2) by (simp add: slots_in_use_def calm_def list_all_length)
  have c0: "connections t ! 0 = (connections s ! 0)\<lparr>connection_index := 0, ClientSocket := 5,
      IP_Address := overwrite 0 [49, 46, 49] (IP_Address (connections s ! 0)), ipaddr := replicate 4 1\<rparr>"
    using t(1) z(2) by (auto simp: take_slot_def first_peer_def Let_def split: if_splits)
  have quiet: "service_slot E first_round (\<lambda>k. wants_write (connections s ! k) \<and> writable first_round k) k t =
      Inr ((), t)" if "k < length (connections t)" for k
  proof (cases "k = 0")
    case True
    then show ?thesis using z(1)
      by (simp add: service_slot_def slot_def recv_part_def heartbeat_part_def Recv_def c0 calm_def
          first_round_def idle_round_def prog_simps)
  next
    case False
    then have "k \<notin> slots_in_use (connections t)" using t(2) none by simp
    then have "\<not> slot_used (connections t ! k)" using that by (simp add: slots_in_use_def)
    then show ?thesis by (simp add: service_slot_def slot_def slot_used_def prog_simps)
  qed
  have len: "length (connections t) = length (connections s)"
    using take_slot_socket [OF t(1) z(2)] by simp
  have all: "list_all (\<lambda>k. k < length (connections t)) ks \<Longrightarrow> for_each ks (service_slot E first_round
      (\<lambda>k. wants_write (connections s ! k) \<and> writable first_round k)) t = Inr ((), t)" for ks
    by (induction ks) (simp_all add: quiet stm_run ret_run)
  have "accept_part first_round s = Inr ((), t)"
    using t(1) f by (simp add: accept_part_def first_round_def idle_round_def act_def prog_simps Let_def)
      (simp add: first_peer_def)
  moreover have "for_each [0..<length (connections s)] (service_slot E first_round
      (\<lambda>k. wants_write (connections s ! k) \<and> writable first_round k)) t = Inr ((), t)"
    by (rule all) (simp add: list_all_iff len)
  ultimately have "round_of_loop E first_round s = Inr ((), t)"
    by (simp add: round_of_loop_def prog_simps)
  then show ?thesis using t(2) none by auto
qed

abbreviation sample_reaches :: "unit server \<Rightarrow> bool" where
  "sample_reaches \<equiv>
     run_reaches (steady_env some_rows) default_file () (\<lambda>_. (True, True)) calls_ok"

lemma sample_run: "\<exists>t. sample_reaches t \<and> slots_in_use (connections t) = {0}"
proof -
  let ?E = "steady_env some_rows" and ?flags = "\<lambda>_ :: nat. (True, True)"
  have "sqlite3_open (api ?E) ''sbol.db'' () = (0, ())" by (simp add: steady_env_def)
  from Start_default [OF given_default this steady_complete, of ?flags False]
  obtain s where s: "Start ?E default_file () ?flags (new_Server False) = Inr (0, s)"
    "connections s = map (\<lambda>i. new_CLIENT True True) [0..<10]" "\<not> paused s"
    by (auto simp: Initialize_server_def Let_def configured_server_def new_Server_limits) (simp add: new_Server_def)
  have ok: "server_ok s" using Start_ok [OF s(1)] by (simp add: new_Server_def)
  obtain u where u: "ServerThread_begin calls_ok s = Inr ((), u)" "server_ok u"
    using ServerThread_begin_runs [OF ok] by blast
  have "list_all calm (connections s)" by (simp add: s(2) list_all_iff new_CLIENT_def calm_Initialize)
  note calm = begin_keeps_calm [OF u(1) this s(3)]
  have "connections u \<noteq> []" using calm(2) by (auto simp: s(2))
  moreover have "table_ok u" using u(2) by (simp add: server_ok_def)
  ultimately obtain t where
    t: "round_of_loop ?E first_round u = Inr ((), t)" "slots_in_use (connections t) = {0}"
    using first_round_accepts [OF _ calm(1)] by blast
  have "server_step ?E u t" using server_step.Round [OF calm(3,4) first_round_ok t(1)] .
  then have "reachable ?E u t" using reachable.intros by blast
  then show ?thesis using s(1) u(1) t(2) unfolding run_reaches_def by blast
qed

theorem table_of_connections_is_exact_witness:
  "\<exists>t. sample_reaches t \<and> {k. k < length (connections t) \<and> slot_used (connections t ! k)} = {0} \<and>
     distinct (listed t) \<and> unat ` set (listed t) = {0}"
proof -
  obtain t where t: "sample_reaches t" "slots_in_use (connections t) = {0}" using sample_run by blast
  note s = t(2) [unfolded slots_in_use_def]
  show ?thesis
    using t(1) table_of_connections_is_exact [OF t(1), unfolded s Let_def] s by (intro exI [of _ t]) simp
qed

theorem connections_never_share_a_key_witness:
  "\<exists>t. sample_reaches t \<and> inj_on (\<lambda>i. (iv (connections t ! i), key (connections t ! i)))
      {i. i < length (connections t) \<and> isAuth (connections t ! i)}"
proof -
  obtain t where t: "sample_reaches t" using sample_run by blast
  show ?thesis
    using t connections_never_share_a_key [OF t, unfolded Let_def] by (intro exI [of _ t]) simp
qed

theorem buffers_stay_within_bounds_witness:
  "\<exists>t c. sample_reaches t \<and> c \<in> set (connections t) \<and> slot_used c \<and> length (rcvbuf c) = 8192"
proof -
  obtain t where t: "sample_reaches t" "slots_in_use (connections t) = {0}" using sample_run by blast
  then have "0 \<in> slots_in_use (connections t)" by simp
  then have u: "slot_used (connections t ! 0)" "connections t ! 0 \<in> set (connections t)"
    by (simp_all add: slots_in_use_def)
  then have "length (rcvbuf (connections t ! 0)) = 8192"
    using buffers_stay_within_bounds [OF t(1)] by (simp add: CLIENT_BUFFER_SIZE_def)
  with t(1) u show ?thesis by (intro exI conjI)
qed

end
